(* ===== verification/Prelude.thy ===== *)
theory Prelude
  imports Main "HOL-Library.Monad_Syntax"
begin

text \<open>
  Shared vocabulary of the layer-store development: the identifier types of the
  layer package (chain IDs, diff IDs, cache IDs, mount names), the rendering of
  generated IDs, the collections of simplification rules the component theories
  fill, and generic lemmas on maps, sets and options that the component proofs share.
\<close>

section \<open>Identifier types\<close>

type_synonym chain_id = string
type_synonym diff_id = string
type_synonym cache_id = string
type_synonym mount_name = string

text \<open>
  A content digest (\<open>digest.Canonical\<close>, SHA-256 in the code) is an external
  function of the bytes it reads; the development takes it as a parameter.
\<close>

type_synonym digest_fn = "string \<Rightarrow> string"

named_theorems store_simps "equations that evaluate the layer-store operations"
named_theorems wf_intros "rules that establish the well-formedness of a layer store"

section \<open>Generated identifiers\<close>

text \<open>
  \<open>stringid.GenerateRandomID\<close> draws a fresh random ID. The model draws the
  \<open>n\<close>-th ID of a stream that never repeats: the decimal rendering of \<open>n\<close>
  behind a fixed prefix.
\<close>

fun nat_digits :: "nat \<Rightarrow> string" where
  "nat_digits n =
     (if n < 10 then [char_of (48 + n)]
      else nat_digits (n div 10) @ [char_of (48 + n mod 10)])"

declare nat_digits.simps [simp del]

definition stringid :: "nat \<Rightarrow> string" where
  "stringid n = ''r'' @ nat_digits n"

lemma nat_digits_length_pos: "nat_digits n \<noteq> []"
  by (subst nat_digits.simps) simp

text \<open>The equations that render a concrete ID by \<open>simp\<close>.\<close>

lemmas stringid_eval = stringid_def nat_digits.simps char_of_def bit_simps

text \<open>Reading the digits back gives the number: the rendering is injective.\<close>

definition digits_val :: "string \<Rightarrow> nat" where
  "digits_val cs = foldl (\<lambda>acc c. acc * 10 + (of_char c - 48)) 0 cs"

lemma digits_val_snoc: "digits_val (cs @ [c]) = digits_val cs * 10 + (of_char c - 48)"
  by (simp add: digits_val_def)

lemma of_char_digit: "k < 10 \<Longrightarrow> of_char (char_of (48 + k) :: char) - 48 = (k :: nat)"
  by (simp add: of_char_of)

lemma digits_val_nat_digits: "digits_val (nat_digits n) = n"
proof (induction n rule: nat_digits.induct)
  case (1 n)
  show ?case
  proof (cases "n < 10")
    case True
    then show ?thesis
      by (simp add: nat_digits.simps [of n] digits_val_def of_char_digit)
  next
    case False
    then have "digits_val (nat_digits n) = digits_val (nat_digits (n div 10)) * 10 + n mod 10"
      by (simp add: nat_digits.simps [of n] digits_val_snoc of_char_digit)
    with False "1.IH" show ?thesis by simp
  qed
qed

lemma nat_digits_inj: "nat_digits m = nat_digits n \<Longrightarrow> m = n"
  by (metis digits_val_nat_digits)

lemma stringid_inj [simp]: "stringid m = stringid n \<longleftrightarrow> m = n"
  by (auto simp: stringid_def dest: nat_digits_inj)

section \<open>Maps, sets and options\<close>

text \<open>Counting the entries of a map whose value satisfies a predicate.\<close>

definition count_where :: "('k \<rightharpoonup> 'v) \<Rightarrow> ('v \<Rightarrow> bool) \<Rightarrow> nat" where
  "count_where m P = card {k. \<exists>v. m k = Some v \<and> P v}"

lemma count_where_subset_dom:
  "{k. \<exists>v. m k = Some v \<and> P v} \<subseteq> dom m"
  by auto

lemma finite_where [intro]:
  "finite (dom m) \<Longrightarrow> finite {k. \<exists>v. m k = Some v \<and> P v}"
  by (rule finite_subset [OF count_where_subset_dom])

lemma count_where_upd_same:
  assumes "finite (dom m)" "m k = Some v" "P v' = P v"
  shows "count_where (m(k \<mapsto> v')) P = count_where m P"
proof -
  have "{k'. \<exists>w. (m(k \<mapsto> v')) k' = Some w \<and> P w} = {k'. \<exists>w. m k' = Some w \<and> P w}"
    using assms(2,3) by auto
  then show ?thesis by (simp add: count_where_def)
qed

lemma count_where_upd_new:
  assumes "finite (dom m)" "m k = None"
  shows "count_where (m(k \<mapsto> v)) P = (if P v then Suc (count_where m P) else count_where m P)"
proof -
  have eq: "{k'. \<exists>w. (m(k \<mapsto> v)) k' = Some w \<and> P w}
      = (if P v then insert k {k'. \<exists>w. m k' = Some w \<and> P w} else {k'. \<exists>w. m k' = Some w \<and> P w})"
    using assms(2) by auto
  have "k \<notin> {k'. \<exists>w. m k' = Some w \<and> P w}" using assms(2) by simp
  then show ?thesis using eq assms(1) by (simp add: count_where_def finite_where)
qed

lemma count_where_delete:
  assumes "finite (dom m)" "m k = Some v"
  shows "count_where (m(k := None)) P = (if P v then count_where m P - 1 else count_where m P)"
proof -
  have eq: "{k'. \<exists>w. (m(k := None)) k' = Some w \<and> P w} = {k'. \<exists>w. m k' = Some w \<and> P w} - {k}"
    by auto
  have "P v \<Longrightarrow> k \<in> {k'. \<exists>w. m k' = Some w \<and> P w}" using assms(2) by simp
  moreover have "\<not> P v \<Longrightarrow> k \<notin> {k'. \<exists>w. m k' = Some w \<and> P w}" using assms(2) by simp
  ultimately show ?thesis using eq assms(1) by (auto simp: count_where_def finite_where)
qed

lemma count_where_pos:
  assumes "finite (dom m)" "m k = Some v" "P v"
  shows "0 < count_where m P"
proof -
  have "k \<in> {k'. \<exists>w. m k' = Some w \<and> P w}" using assms(2,3) by blast
  then show ?thesis using assms(1) by (auto simp: count_where_def finite_where card_gt_0_iff)
qed

lemma count_where_cong:
  "(\<And>v. v \<in> ran m \<Longrightarrow> P v = Q v) \<Longrightarrow> count_where m P = count_where m Q"
  unfolding count_where_def by (rule arg_cong [where f = card]) (auto simp: ran_def)

text \<open>Evaluation of \<open>count_where\<close> on a map written as a chain of updates.\<close>

lemma count_where_upd:
  assumes "finite (dom m)"
  shows "count_where (m(k \<mapsto> v)) P =
           (if P v then Suc (count_where (m(k := None)) P) else count_where (m(k := None)) P)"
proof -
  have "count_where ((m(k := None))(k \<mapsto> v)) P =
          (if P v then Suc (count_where (m(k := None)) P) else count_where (m(k := None)) P)"
    by (rule count_where_upd_new) (use assms in simp_all)
  moreover have "(m(k := None))(k \<mapsto> v) = m(k \<mapsto> v)" by simp
  ultimately show ?thesis by simp
qed

lemma count_where_empty [simp]: "count_where Map.empty P = 0"
  by (simp add: count_where_def)

end
