(* ===== verification/GraphDriver.thy ===== *)
theory GraphDriver
  imports Prelude
begin

text \<open>
  The two collaborators of the layer store that live outside \<open>layer_store.go\<close>:
  the graph driver (\<open>graphdriver.Driver\<close>: a copy-on-write backend keyed by cache
  IDs) and the on-disk metadata store (\<open>fileMetadataStore\<close>: one directory per chain
  ID, one per mount name). Their code is not part of the sources; they are modelled from
  the interface the specification gives (section 6) as explicit states whose
  operations succeed or fail. Failure is decided by a set of injected faults, so that
  every error branch of the layer store can be taken by a concrete run.
  The layer package's error values are declared here too, since both collaborators
  and the store return them.
\<close>

section \<open>Faults and errors\<close>

datatype fault =
    FCreate cache_id
  | FCreateRW cache_id
  | FRemove cache_id
  | FApplyDiff cache_id
  | FGet cache_id
  | FPut cache_id
  | FStartTx
  | FTarSplit
  | FTxWrite
  | FCommit chain_id
  | FRemoveAll chain_id
  | FSetMountID mount_name
  | FSetInitID mount_name
  | FSetMountParent mount_name
  | FRemoveMount mount_name
  | FList
  | FLoad chain_id
  | FLoadMount mount_name
  | FRemoveOrphan chain_id
  | FDriverCleanup

text \<open>
  \<open>ErrLayerDoesNotExist\<close> \<dots> \<open>ErrMaxDepthExceeded\<close> are the exported errors of the
  layer package; \<open>EDriver\<close> and \<open>EMeta\<close> carry a failure of a collaborator (the
  operation and the ID); \<open>EInit\<close> is the error of a caller's mount-init callback;
  \<open>EPanic\<close> is a Go panic (a fatal programmer error); \<open>EExists\<close> is the internal
  \<open>"layer already exists"\<close> value that triggers clean-up in \<open>Register\<close> without
  reaching the caller.
\<close>

datatype error =
    ErrLayerDoesNotExist
  | ErrLayerNotRetained
  | ErrMountDoesNotExist
  | ErrMountNameConflict
  | ErrMaxDepthExceeded
  | EExists
  | EDriver string string
  | EMeta string string
  | EInit
  | EPanic string

fun is_panic :: "error \<Rightarrow> bool" where
  "is_panic (EPanic _) = True"
| "is_panic _ = False"

section \<open>The graph driver\<close>

text \<open>
  \<open>drv_layers\<close> maps each backing store to its parent's cache ID (\<open>''''\<close> for none);
  \<open>drv_gets\<close> counts the \<open>Get\<close> calls not yet matched by a \<open>Put\<close>.
\<close>

record graphDriver =
  drv_layers :: "cache_id \<rightharpoonup> cache_id"
  drv_gets :: "cache_id \<Rightarrow> nat"
  drv_faults :: "fault set"

definition drv_create :: "cache_id \<Rightarrow> cache_id \<Rightarrow> graphDriver \<Rightarrow> error + graphDriver" where
  "drv_create i p d =
     (if FCreate i \<in> drv_faults d then Inl (EDriver ''create'' i)
      else Inr (d\<lparr>drv_layers := (drv_layers d)(i \<mapsto> p)\<rparr>))"

definition drv_createRW :: "cache_id \<Rightarrow> cache_id \<Rightarrow> graphDriver \<Rightarrow> error + graphDriver" where
  "drv_createRW i p d =
     (if FCreateRW i \<in> drv_faults d then Inl (EDriver ''create-rw'' i)
      else Inr (d\<lparr>drv_layers := (drv_layers d)(i \<mapsto> p)\<rparr>))"

text \<open>Removing an absent store succeeds, as the drivers' \<open>RemoveAll\<close>-based removal does.\<close>

definition drv_remove :: "cache_id \<Rightarrow> graphDriver \<Rightarrow> error + graphDriver" where
  "drv_remove i d =
     (if FRemove i \<in> drv_faults d then Inl (EDriver ''remove'' i)
      else Inr (d\<lparr>drv_layers := (drv_layers d)(i := None)\<rparr>))"

text \<open>\<open>ApplyDiff\<close> extracts the stream into the store and reports the bytes applied.\<close>

definition drv_applyDiff :: "cache_id \<Rightarrow> cache_id \<Rightarrow> string \<Rightarrow> graphDriver \<Rightarrow> error + int" where
  "drv_applyDiff i p ts d =
     (if FApplyDiff i \<in> drv_faults d then Inl (EDriver ''apply-diff'' i)
      else Inr (int (length ts)))"

definition drv_get :: "cache_id \<Rightarrow> graphDriver \<Rightarrow> error + (string \<times> graphDriver)" where
  "drv_get i d =
     (if FGet i \<in> drv_faults d then Inl (EDriver ''get'' i)
      else Inr (''/mnt/'' @ i, d\<lparr>drv_gets := (drv_gets d)(i := Suc (drv_gets d i))\<rparr>))"

definition drv_put :: "cache_id \<Rightarrow> graphDriver \<Rightarrow> error + graphDriver" where
  "drv_put i d =
     (if FPut i \<in> drv_faults d then Inl (EDriver ''put'' i)
      else Inr (d\<lparr>drv_gets := (drv_gets d)(i := drv_gets d i - 1)\<rparr>))"

text \<open>A failed \<open>Put\<close> whose error the caller drops still leaves the driver as it was.\<close>

definition drv_put_ignore :: "cache_id \<Rightarrow> graphDriver \<Rightarrow> graphDriver" where
  "drv_put_ignore i d = (case drv_put i d of Inl _ \<Rightarrow> d | Inr d' \<Rightarrow> d')"

section \<open>The metadata store\<close>

text \<open>
  A committed layer directory holds the diff ID, the size, the cache ID, the parent's
  chain ID (\<open>''''\<close> for a root layer) and the tar-split stream. A directory renamed to
  \<open><chain>-<random>-removing\<close> by \<open>deleteLayer\<close> is kept in \<open>ms_removing\<close> until it
  is removed. Mount directories hold up to three files, written one by one.
\<close>

record layerRec =
  lr_diffID :: diff_id
  lr_size :: int
  lr_cacheID :: cache_id
  lr_parent :: chain_id
  lr_tarsplit :: string

record metaStore =
  ms_layers :: "chain_id \<rightharpoonup> layerRec"
  ms_removing :: "(string \<times> chain_id \<times> layerRec) list"
  ms_mountIDs :: "mount_name \<rightharpoonup> cache_id"
  ms_initIDs :: "mount_name \<rightharpoonup> cache_id"
  ms_mountParents :: "mount_name \<rightharpoonup> chain_id"
  ms_faults :: "fault set"

text \<open>
  A transaction (\<open>fileMetadataTransaction\<close>) collects the files of one new layer in a
  temporary directory; \<open>Commit\<close> renames it to the final chain ID, \<open>Cancel\<close> drops it.
\<close>

definition ms_startTransaction :: "metaStore \<Rightarrow> error + layerRec" where
  "ms_startTransaction ms =
     (if FStartTx \<in> ms_faults ms then Inl (EMeta ''start-transaction'' '''')
      else Inr \<lparr>lr_diffID = '''', lr_size = 0, lr_cacheID = '''', lr_parent = '''', lr_tarsplit = ''''\<rparr>)"

definition ms_commit :: "chain_id \<Rightarrow> layerRec \<Rightarrow> metaStore \<Rightarrow> error + metaStore" where
  "ms_commit c tx ms =
     (if FCommit c \<in> ms_faults ms then Inl (EMeta ''commit'' c)
      else Inr (ms\<lparr>ms_layers := (ms_layers ms)(c \<mapsto> tx)\<rparr>))"

text \<open>
  Rename a layer directory to the \<open>-removing\<close> name \<open>dir\<close>; a missing directory is
  skipped, as \<open>deleteLayer\<close> ignores every rename error but \<open>IsExist\<close>.
\<close>

definition ms_renameRemoving :: "chain_id \<Rightarrow> string \<Rightarrow> metaStore \<Rightarrow> metaStore" where
  "ms_renameRemoving c dir ms =
     (case ms_layers ms c of
        None \<Rightarrow> ms
      | Some r \<Rightarrow> ms\<lparr>ms_layers := (ms_layers ms)(c := None),
                     ms_removing := ms_removing ms @ [(dir, c, r)]\<rparr>)"

text \<open>\<open>os.RemoveAll(dir)\<close>: removing a missing directory succeeds.\<close>

definition ms_removeAll :: "chain_id \<Rightarrow> string \<Rightarrow> metaStore \<Rightarrow> error + metaStore" where
  "ms_removeAll c dir ms =
     (if FRemoveAll c \<in> ms_faults ms then Inl (EMeta ''remove-all'' dir)
      else Inr (ms\<lparr>ms_removing := filter (\<lambda>e. fst e \<noteq> dir) (ms_removing ms)\<rparr>))"

definition ms_setMountID :: "mount_name \<Rightarrow> cache_id \<Rightarrow> metaStore \<Rightarrow> error + metaStore" where
  "ms_setMountID n i ms =
     (if FSetMountID n \<in> ms_faults ms then Inl (EMeta ''set-mount-id'' n)
      else Inr (ms\<lparr>ms_mountIDs := (ms_mountIDs ms)(n \<mapsto> i)\<rparr>))"

definition ms_setInitID :: "mount_name \<Rightarrow> cache_id \<Rightarrow> metaStore \<Rightarrow> error + metaStore" where
  "ms_setInitID n i ms =
     (if FSetInitID n \<in> ms_faults ms then Inl (EMeta ''set-init-id'' n)
      else Inr (ms\<lparr>ms_initIDs := (ms_initIDs ms)(n \<mapsto> i)\<rparr>))"

definition ms_setMountParent :: "mount_name \<Rightarrow> chain_id \<Rightarrow> metaStore \<Rightarrow> error + metaStore" where
  "ms_setMountParent n c ms =
     (if FSetMountParent n \<in> ms_faults ms then Inl (EMeta ''set-mount-parent'' n)
      else Inr (ms\<lparr>ms_mountParents := (ms_mountParents ms)(n \<mapsto> c)\<rparr>))"

definition ms_removeMount :: "mount_name \<Rightarrow> metaStore \<Rightarrow> error + metaStore" where
  "ms_removeMount n ms =
     (if FRemoveMount n \<in> ms_faults ms then Inl (EMeta ''remove-mount'' n)
      else Inr (ms\<lparr>ms_mountIDs := (ms_mountIDs ms)(n := None),
                   ms_initIDs := (ms_initIDs ms)(n := None),
                   ms_mountParents := (ms_mountParents ms)(n := None)\<rparr>))"

text \<open>
  Reading a committed layer back (\<open>GetDiffID\<close>, \<open>GetSize\<close>, \<open>GetCacheID\<close>,
  \<open>GetParent\<close>, \<open>GetDescriptor\<close>): the record as a whole, or the error of the first
  file that is missing or unreadable.
\<close>

definition ms_getLayer :: "chain_id \<Rightarrow> metaStore \<Rightarrow> error + layerRec" where
  "ms_getLayer c ms =
     (if FLoad c \<in> ms_faults ms then Inl (EMeta ''get-diff-id'' c)
      else case ms_layers ms c of None \<Rightarrow> Inl (EMeta ''get-diff-id'' c) | Some r \<Rightarrow> Inr r)"

text \<open>
  Reading a mount back: the mount ID must be there; a missing init ID or parent file
  reads as \<open>''''\<close>, as \<open>GetInitID\<close> and \<open>GetMountParent\<close> treat a missing file.
\<close>

definition ms_getMount :: "mount_name \<Rightarrow> metaStore \<Rightarrow> error + (cache_id \<times> cache_id \<times> chain_id)" where
  "ms_getMount n ms =
     (if FLoadMount n \<in> ms_faults ms then Inl (EMeta ''get-mount-id'' n)
      else case ms_mountIDs ms n of
             None \<Rightarrow> Inl (EMeta ''get-mount-id'' n)
           | Some i \<Rightarrow> Inr (i, case ms_initIDs ms n of None \<Rightarrow> '''' | Some x \<Rightarrow> x,
                            case ms_mountParents ms n of None \<Rightarrow> '''' | Some x \<Rightarrow> x))"

text \<open>\<open>getOrphan\<close>: the directories renamed for removal, with the cache ID each records.\<close>

definition ms_getOrphan :: "metaStore \<Rightarrow> (chain_id \<times> cache_id) list" where
  "ms_getOrphan ms = map (\<lambda>(d, c, r). (c, lr_cacheID r)) (ms_removing ms)"

text \<open>\<open>Remove(chainID, cacheID)\<close>: delete the orphan directories of that layer and cache ID.\<close>

definition ms_remove :: "chain_id \<Rightarrow> cache_id \<Rightarrow> metaStore \<Rightarrow> error + metaStore" where
  "ms_remove c cid ms =
     (if FRemoveOrphan c \<in> ms_faults ms then Inl (EMeta ''remove'' c)
      else Inr (ms\<lparr>ms_removing := filter (\<lambda>(d, c', r). \<not> (c' = c \<and> lr_cacheID r = cid)) (ms_removing ms)\<rparr>))"

text \<open>The driver's own \<open>Cleanup\<close> (unmounting its home); its state is not modelled.\<close>

definition drv_cleanup :: "graphDriver \<Rightarrow> error + unit" where
  "drv_cleanup d = (if FDriverCleanup \<in> drv_faults d then Inl (EDriver ''cleanup'' '''') else Inr ())"

lemmas driver_defs [store_simps] =
  drv_create_def drv_createRW_def drv_remove_def drv_applyDiff_def drv_get_def drv_put_def
  drv_put_ignore_def drv_cleanup_def

lemmas meta_defs [store_simps] =
  ms_startTransaction_def ms_commit_def ms_renameRemoving_def ms_removeAll_def
  ms_setMountID_def ms_setInitID_def ms_setMountParent_def ms_removeMount_def
  ms_getLayer_def ms_getMount_def ms_getOrphan_def ms_remove_def

end
