(* ===== verification/Layers.thy ===== *)
theory Layers
  imports GraphDriver
begin

text \<open>
  The data of the layer package: the read-only layer node (\<open>roLayer\<close>), the
  read-write layer (\<open>mountedLayer\<close>), the handles given to callers, the
  \<open>Metadata\<close> record returned by releases and the \<open>layerStore\<close> itself. The
  Go objects point to their parents; the model keeps every node in the store's
  \<open>layerMap\<close> (an arena addressed by chain ID, as the specification suggests) and
  a parent pointer is the parent's chain ID. The recursive methods \<open>depth\<close> and
  \<open>Size\<close> of \<open>roLayer\<close> walk that chain; on a cyclic or dangling chain they do not
  return (\<open>None\<close>), so they are partial functions. The theory ends with the
  well-formedness invariant of the store and the lemmas on chains that the
  component proofs share.
\<close>

section \<open>Nodes, handles and the store\<close>

record roLayer =
  chainID :: chain_id
  diffID :: diff_id
  parent :: "chain_id option"
  cacheID :: cache_id
  rsize :: int
  referenceCount :: nat
  references :: "nat set"

record mountedLayer =
  name :: mount_name
  mountID :: cache_id
  initID :: cache_id
  mparent :: "chain_id option"
  mreferences :: "nat set"

text \<open>
  A handle (\<open>referencedCacheLayer\<close>, \<open>referencedRWLayer\<close>) is a fresh object per
  \<open>getReference\<close>; the model names it by the node it refers to and a serial number.
\<close>

datatype layerHandle = LayerRef (lref_chain: chain_id) (lref_id: nat)
datatype rwHandle = RWRef (rwref_name: mount_name) (rwref_id: nat)

record metadata =
  md_chainID :: chain_id
  md_diffID :: diff_id
  md_size :: int
  md_diffSize :: int

record layerStore =
  store :: metaStore
  driver :: graphDriver
  layerMap :: "chain_id \<rightharpoonup> roLayer"
  mounts :: "mount_name \<rightharpoonup> mountedLayer"
  nextRef :: nat
  nextRandom :: nat

text \<open>An operation returns its outcome together with the state it leaves.\<close>

type_synonym 'a result = "(error + 'a) \<times> layerStore"

definition maxLayerDepth :: nat where
  "maxLayerDepth = 125"

section \<open>Methods of roLayer and mountedLayer\<close>

partial_function (option) depth :: "(chain_id \<rightharpoonup> roLayer) \<Rightarrow> roLayer \<Rightarrow> nat option" where
  "depth m l =
     (case parent l of
        None \<Rightarrow> Some 1
      | Some p \<Rightarrow> (case m p of None \<Rightarrow> None | Some pl \<Rightarrow> do { d \<leftarrow> depth m pl; Some (d + 1) }))"

partial_function (option) Size :: "(chain_id \<rightharpoonup> roLayer) \<Rightarrow> roLayer \<Rightarrow> int option" where
  "Size m l =
     (case parent l of
        None \<Rightarrow> Some (rsize l)
      | Some p \<Rightarrow> (case m p of None \<Rightarrow> None | Some pl \<Rightarrow> do { z \<leftarrow> Size m pl; Some (rsize l + z) }))"

declare depth.simps [code] Size.simps [code]

definition getReference :: "chain_id \<Rightarrow> layerStore \<Rightarrow> layerHandle \<times> layerStore" where
  "getReference c s =
     (let h = nextRef s in
      (LayerRef c h,
       s\<lparr>layerMap := (case layerMap s c of
                        None \<Rightarrow> layerMap s
                      | Some l \<Rightarrow> (layerMap s)(c \<mapsto> l\<lparr>references := insert h (references l)\<rparr>)),
         nextRef := Suc h\<rparr>))"

definition ml_getReference :: "mount_name \<Rightarrow> layerStore \<Rightarrow> rwHandle \<times> layerStore" where
  "ml_getReference n s =
     (let h = nextRef s in
      (RWRef n h,
       s\<lparr>mounts := (case mounts s n of
                      None \<Rightarrow> mounts s
                    | Some m \<Rightarrow> (mounts s)(n \<mapsto> m\<lparr>mreferences := insert h (mreferences m)\<rparr>)),
         nextRef := Suc h\<rparr>))"

definition ml_deleteReference :: "rwHandle \<Rightarrow> mountedLayer \<Rightarrow> error + mountedLayer" where
  "ml_deleteReference r m =
     (if rwref_id r \<notin> mreferences m then Inl ErrLayerNotRetained
      else Inr (m\<lparr>mreferences := mreferences m - {rwref_id r}\<rparr>))"

definition ml_retakeReference :: "rwHandle \<Rightarrow> mountedLayer \<Rightarrow> mountedLayer" where
  "ml_retakeReference r m = m\<lparr>mreferences := insert (rwref_id r) (mreferences m)\<rparr>"

lemmas method_defs [store_simps] =
  getReference_def ml_getReference_def ml_deleteReference_def ml_retakeReference_def

section \<open>The well-formedness invariant\<close>

text \<open>
  The reference count of a node must cover every holder of it: each live handle, each
  child node and each mount on it. The code keeps the count equal to that sum while
  nothing fails; a failed removal in the graph driver can leave it larger (section
  of \<open>LayerStore\<close>), never smaller, and larger is still safe: a node is deleted
  only when its count reaches zero, and then nothing holds it.
\<close>

definition children :: "(chain_id \<rightharpoonup> roLayer) \<Rightarrow> chain_id \<Rightarrow> nat" where
  "children m c = count_where m (\<lambda>l. parent l = Some c)"

definition mchildren :: "(mount_name \<rightharpoonup> mountedLayer) \<Rightarrow> chain_id \<Rightarrow> nat" where
  "mchildren ms c = count_where ms (\<lambda>m. mparent m = Some c)"

definition holders :: "layerStore \<Rightarrow> chain_id \<Rightarrow> roLayer \<Rightarrow> nat" where
  "holders s c l = card (references l) + children (layerMap s) c + mchildren (mounts s) c"

definition layer_ok :: "layerStore \<Rightarrow> chain_id \<Rightarrow> roLayer \<Rightarrow> bool" where
  "layer_ok s c l \<longleftrightarrow>
     chainID l = c \<and> finite (references l) \<and> (\<forall>h \<in> references l. h < nextRef s)
     \<and> (\<forall>p. parent l = Some p \<longrightarrow> p \<in> dom (layerMap s))
     \<and> depth (layerMap s) l \<noteq> None
     \<and> holders s c l \<le> referenceCount l"

definition mount_ok :: "layerStore \<Rightarrow> mount_name \<Rightarrow> mountedLayer \<Rightarrow> bool" where
  "mount_ok s n m \<longleftrightarrow>
     name m = n \<and> finite (mreferences m) \<and> (\<forall>h \<in> mreferences m. h < nextRef s)
     \<and> (\<forall>p. mparent m = Some p \<longrightarrow> p \<in> dom (layerMap s))"

definition wf_store :: "layerStore \<Rightarrow> bool" where
  "wf_store s \<longleftrightarrow>
     finite (dom (layerMap s)) \<and> finite (dom (mounts s))
     \<and> (\<forall>c l. layerMap s c = Some l \<longrightarrow> layer_ok s c l)
     \<and> (\<forall>n m. mounts s n = Some m \<longrightarrow> mount_ok s n m)"

text \<open>The exact accounting, kept by every operation that meets no collaborator fault.\<close>

definition refs_exact :: "layerStore \<Rightarrow> bool" where
  "refs_exact s \<longleftrightarrow> (\<forall>c l. layerMap s c = Some l \<longrightarrow> referenceCount l = holders s c l)"

section \<open>Parent chains\<close>

lemma depth_Some_iff:
  "depth m l = Some d \<longleftrightarrow>
     (case parent l of
        None \<Rightarrow> d = 1
      | Some p \<Rightarrow> (\<exists>pl d'. m p = Some pl \<and> depth m pl = Some d' \<and> d = Suc d'))"
  by (subst depth.simps) (auto simp: bind_eq_Some_conv split: option.splits)

lemma Size_Some_iff:
  "Size m l = Some z \<longleftrightarrow>
     (case parent l of
        None \<Rightarrow> z = rsize l
      | Some p \<Rightarrow> (\<exists>pl z'. m p = Some pl \<and> Size m pl = Some z' \<and> z = rsize l + z'))"
  by (subst Size.simps) (auto simp: bind_eq_Some_conv split: option.splits)

lemma depth_same_parent: "parent a = parent b \<Longrightarrow> depth m a = depth m b"
  by (simp add: depth.simps [of m a] depth.simps [of m b])

lemma depth_root: "parent l = None \<Longrightarrow> depth m l = Some 1"
  by (subst depth.simps) simp

lemma Size_root: "parent l = None \<Longrightarrow> Size m l = Some (rsize l)"
  by (subst Size.simps) simp

lemma depth_parentE:
  assumes "depth m l = Some d" "parent l = Some p"
  obtains pl d' where "m p = Some pl" "depth m pl = Some d'" "d = Suc d'"
  using assms depth_Some_iff [of m l d] by auto

lemma depth_parent_Some:
  "parent l = Some p \<Longrightarrow> m p = Some pl \<Longrightarrow> depth m pl = Some d' \<Longrightarrow> depth m l = Some (Suc d')"
  by (subst depth.simps) simp

lemma depth_pos: "depth m l = Some d \<Longrightarrow> 0 < d"
  by (cases "parent l") (auto simp: depth_root elim: depth_parentE)

text \<open>A chain is read only through the parent pointers of the nodes it visits.\<close>

lemma depth_transfer:
  "depth m l = Some d \<Longrightarrow> (\<forall>k \<in> dom m. map_option parent (m' k) = map_option parent (m k))
   \<Longrightarrow> depth m' l = Some d"
proof (induction d arbitrary: l rule: less_induct)
  case (less d)
  show ?case
  proof (cases "parent l")
    case None
    with less.prems show ?thesis by (simp add: depth_root)
  next
    case (Some p)
    with less.prems(1) obtain pl d' where pl: "m p = Some pl" "depth m pl = Some d'" "d = Suc d'"
      by (rule depth_parentE)
    from less.prems(2) pl(1) have "map_option parent (m' p) = Some (parent pl)"
      by (simp add: domI)
    then obtain pl' where pl': "m' p = Some pl'" "parent pl' = parent pl"
      by (cases "m' p") auto
    have "d' < d" using pl(3) by simp
    then have "depth m' pl = Some d'" using pl(2) less.prems(2) by (rule less.IH)
    with pl' depth_same_parent [of pl' pl m'] have "depth m' pl' = Some d'" by simp
    with pl' Some pl(3) show ?thesis by (simp add: depth_parent_Some)
  qed
qed

lemma depth_avoiding:
  "depth m l = Some d \<Longrightarrow> (\<forall>l' \<in> ran m. parent l' \<noteq> Some c) \<Longrightarrow> parent l \<noteq> Some c
   \<Longrightarrow> (\<forall>k. k \<noteq> c \<longrightarrow> m' k = m k) \<Longrightarrow> depth m' l = Some d"
proof (induction d arbitrary: l rule: less_induct)
  case (less d)
  show ?case
  proof (cases "parent l")
    case None
    with less.prems show ?thesis by (simp add: depth_root)
  next
    case (Some p)
    with less.prems(1) obtain pl d' where pl: "m p = Some pl" "depth m pl = Some d'" "d = Suc d'"
      by (rule depth_parentE)
    from pl(1) have pc: "parent pl \<noteq> Some c" using less.prems(2) by (auto simp: ran_def)
    have lt: "d' < d" using pl(3) by simp
    have "depth m' pl = Some d'"
      by (rule less.IH [OF lt pl(2) less.prems(2) pc less.prems(4)])
    moreover have "m' p = Some pl" using Some less.prems(3,4) pl(1) by auto
    ultimately show ?thesis using Some pl(3) by (simp add: depth_parent_Some)
  qed
qed

lemma depth_delete_childless:
  "depth m l = Some d \<Longrightarrow> (\<forall>l' \<in> ran m. parent l' \<noteq> Some c) \<Longrightarrow> parent l \<noteq> Some c
   \<Longrightarrow> depth (m(c := None)) l = Some d"
  by (rule depth_avoiding) auto

lemma Size_of_depth:
  "depth m l = Some d \<Longrightarrow> \<exists>z. Size m l = Some z"
proof (induction d arbitrary: l rule: less_induct)
  case (less d)
  show ?case
  proof (cases "parent l")
    case None
    then show ?thesis by (simp add: Size_root)
  next
    case (Some p)
    with less.prems obtain pl d' where "m p = Some pl" "depth m pl = Some d'" "d = Suc d'"
      by (rule depth_parentE)
    then have "d' < d" by simp
    then obtain z' where "Size m pl = Some z'" using less.IH \<open>depth m pl = Some d'\<close> by blast
    then have "Size m l = Some (rsize l + z')"
      using Some \<open>m p = Some pl\<close> by (subst Size.simps) simp
    then show ?thesis ..
  qed
qed

section \<open>Preserving well-formedness\<close>

text \<open>The collaborators' states and the ID stream are not read by the invariant.\<close>

lemma wf_store_driver [simp]: "wf_store (s\<lparr>driver := d\<rparr>) = wf_store s"
  by (simp add: wf_store_def layer_ok_def mount_ok_def holders_def)

lemma wf_store_store [simp]: "wf_store (s\<lparr>store := ms\<rparr>) = wf_store s"
  by (simp add: wf_store_def layer_ok_def mount_ok_def holders_def)

lemma wf_store_nextRandom [simp]: "wf_store (s\<lparr>nextRandom := n\<rparr>) = wf_store s"
  by (simp add: wf_store_def layer_ok_def mount_ok_def holders_def)

lemma refs_exact_driver [simp]: "refs_exact (s\<lparr>driver := d\<rparr>) = refs_exact s"
  by (simp add: refs_exact_def holders_def)

lemma refs_exact_store [simp]: "refs_exact (s\<lparr>store := ms\<rparr>) = refs_exact s"
  by (simp add: refs_exact_def holders_def)

lemma refs_exact_nextRandom [simp]: "refs_exact (s\<lparr>nextRandom := n\<rparr>) = refs_exact s"
  by (simp add: refs_exact_def holders_def)

lemma wf_store_layer_ok:
  "wf_store s \<Longrightarrow> layerMap s c = Some l \<Longrightarrow> layer_ok s c l"
  by (simp add: wf_store_def)

lemma wf_store_mount_ok:
  "wf_store s \<Longrightarrow> mounts s n = Some m \<Longrightarrow> mount_ok s n m"
  by (simp add: wf_store_def)

lemma children_upd_same:
  "finite (dom m) \<Longrightarrow> m c = Some l \<Longrightarrow> parent l' = parent l \<Longrightarrow> children (m(c \<mapsto> l')) k = children m k"
  unfolding children_def by (rule count_where_upd_same) auto

lemma depth_upd_same:
  assumes "m c = Some l" "parent l' = parent l" "depth m x = Some d"
  shows "depth (m(c \<mapsto> l')) x = Some d"
  using assms(3) by (rule depth_transfer) (use assms(1,2) in auto)

text \<open>
  The workhorse: replacing a node by one with the same identity and parent, whose
  handles are finite and old, and whose count still covers its holders.
\<close>

lemma wf_upd_layer:
  assumes wf: "wf_store s" and lc: "layerMap s c = Some l"
    and same: "chainID l' = chainID l" "parent l' = parent l"
    and refs: "finite (references l')" "\<forall>h \<in> references l'. h < nextRef s"
    and cnt: "card (references l') + children (layerMap s) c + mchildren (mounts s) c \<le> referenceCount l'"
  shows "wf_store (s\<lparr>layerMap := (layerMap s)(c \<mapsto> l')\<rparr>)"
proof -
  let ?m = "(layerMap s)(c \<mapsto> l')"
  let ?s = "s\<lparr>layerMap := ?m\<rparr>"
  have fin: "finite (dom (layerMap s))" using wf by (simp add: wf_store_def)
  have ch: "\<And>k. children ?m k = children (layerMap s) k"
    using fin lc same(2) by (rule children_upd_same)
  have dom_eq: "dom ?m = dom (layerMap s)" using lc by auto
  have dep: "\<And>x d. depth (layerMap s) x = Some d \<Longrightarrow> depth ?m x = Some d"
    using lc same(2) by (rule depth_upd_same)
  have ok: "layer_ok ?s k x" if kx: "?m k = Some x" for k x
  proof (cases "k = c")
    case True
    then have x: "x = l'" using kx by simp
    have "layer_ok s c l" using wf lc by (rule wf_store_layer_ok)
    then obtain d where "depth (layerMap s) l = Some d" by (auto simp: layer_ok_def)
    then have "depth (layerMap s) l' = Some d" using depth_same_parent [of l' l] same(2) by simp
    then have "depth ?m l' \<noteq> None" using dep by simp
    with \<open>layer_ok s c l\<close> True x same refs cnt ch dom_eq show ?thesis
      by (simp add: layer_ok_def holders_def)
  next
    case False
    then have kx': "layerMap s k = Some x" using kx by simp
    with wf have "layer_ok s k x" by (rule wf_store_layer_ok)
    then obtain d where "depth (layerMap s) x = Some d" by (auto simp: layer_ok_def)
    then have "depth ?m x \<noteq> None" using dep by simp
    with \<open>layer_ok s k x\<close> ch dom_eq show ?thesis by (simp add: layer_ok_def holders_def)
  qed
  have mok: "mount_ok ?s n mm" if "mounts s n = Some mm" for n mm
    using wf_store_mount_ok [OF wf that] dom_eq by (simp add: mount_ok_def)
  show ?thesis using wf ok mok dom_eq by (simp add: wf_store_def)
qed

lemma wf_store_frame:
  "layerMap t = layerMap s \<Longrightarrow> mounts t = mounts s \<Longrightarrow> nextRef t = nextRef s
   \<Longrightarrow> wf_store t = wf_store s"
  by (simp add: wf_store_def layer_ok_def mount_ok_def holders_def)

lemma children_zero:
  "finite (dom m) \<Longrightarrow> children m c = 0 \<longleftrightarrow> (\<forall>l \<in> ran m. parent l \<noteq> Some c)"
  unfolding children_def count_where_def by (auto simp: ran_def finite_where)

lemma mchildren_zero:
  "finite (dom ms) \<Longrightarrow> mchildren ms c = 0 \<longleftrightarrow> (\<forall>m \<in> ran ms. mparent m \<noteq> Some c)"
  unfolding mchildren_def count_where_def by (auto simp: ran_def finite_where)

lemma children_delete:
  "finite (dom m) \<Longrightarrow> m c = Some l
   \<Longrightarrow> children (m(c := None)) k = (if parent l = Some k then children m k - 1 else children m k)"
  unfolding children_def by (rule count_where_delete)

lemma not_self_parent:
  assumes "depth m l = Some d" "m c = Some l"
  shows "parent l \<noteq> Some c"
proof
  assume "parent l = Some c"
  with assms(1) obtain pl d' where "m c = Some pl" "depth m pl = Some d'" "d = Suc d'"
    by (rule depth_parentE)
  with assms show False by simp
qed

text \<open>Removing a node that nothing holds as a parent keeps the store well formed.\<close>

lemma wf_delete_childless:
  assumes wf: "wf_store s" and lc: "layerMap s c = Some l"
    and nch: "children (layerMap s) c = 0" and nmch: "mchildren (mounts s) c = 0"
  shows "wf_store (s\<lparr>layerMap := (layerMap s)(c := None)\<rparr>)"
proof -
  let ?m = "(layerMap s)(c := None)"
  let ?s = "s\<lparr>layerMap := ?m\<rparr>"
  have fin: "finite (dom (layerMap s))" using wf by (simp add: wf_store_def)
  have nop: "\<forall>l' \<in> ran (layerMap s). parent l' \<noteq> Some c" using nch fin by (simp add: children_zero)
  have finm: "finite (dom (mounts s))" using wf by (simp add: wf_store_def)
  have nomp: "\<forall>m \<in> ran (mounts s). mparent m \<noteq> Some c" using nmch finm by (simp add: mchildren_zero)
  have ok: "layer_ok ?s k x" if kx: "?m k = Some x" for k x
  proof -
    have k: "k \<noteq> c" and x: "layerMap s k = Some x" using kx by (auto split: if_splits)
    from wf x have lok: "layer_ok s k x" by (rule wf_store_layer_ok)
    have xp: "parent x \<noteq> Some c" using nop x by (auto simp: ran_def)
    obtain d where "depth (layerMap s) x = Some d" using lok by (auto simp: layer_ok_def)
    then have "depth ?m x = Some d" using nop xp by (rule depth_delete_childless)
    moreover have "children ?m k \<le> children (layerMap s) k"
      using children_delete [OF fin lc, of k] by simp
    moreover have "\<forall>p. parent x = Some p \<longrightarrow> p \<in> dom ?m" using lok xp by (auto simp: layer_ok_def)
    ultimately show ?thesis using lok by (auto simp: layer_ok_def holders_def)
  qed
  have mok: "mount_ok ?s n mm" if nm: "mounts s n = Some mm" for n mm
  proof -
    have "mparent mm \<noteq> Some c" using nomp nm by (auto simp: ran_def)
    then show ?thesis using wf_store_mount_ok [OF wf nm] by (auto simp: mount_ok_def)
  qed
  show ?thesis using wf ok mok by (simp add: wf_store_def)
qed

lemma holders_frame:
  "layerMap t = layerMap s \<Longrightarrow> mounts t = mounts s \<Longrightarrow> holders t c l = holders s c l"
  by (simp add: holders_def)

text \<open>Deleting a child takes exactly one holder away from its parent.\<close>

lemma holders_delete_child:
  assumes wf: "wf_store s" and lc: "layerMap s c = Some l" and lp: "parent l = Some p"
  shows "holders (s\<lparr>layerMap := (layerMap s)(c := None)\<rparr>) p pl = holders s p pl - 1
         \<and> 0 < holders s p pl"
proof -
  have fin: "finite (dom (layerMap s))" using wf by (simp add: wf_store_def)
  have "children ((layerMap s)(c := None)) p = children (layerMap s) p - 1"
    using children_delete [OF fin lc, of p] lp by simp
  moreover have "0 < children (layerMap s) p"
    unfolding children_def using fin lc lp by (rule count_where_pos)
  ultimately show ?thesis by (simp add: holders_def)
qed

end
