(* ===== verification/LayerStore.thy ===== *)
theory LayerStore
  imports Layers
begin

text \<open>
  The read-only half of \<open>layerStore\<close> (\<open>layer_store.go\<close>): looking a layer up and
  taking a reference (\<open>get\<close>, \<open>Get\<close>), the deletion cascade (\<open>releaseLayer\<close>,
  \<open>deleteLayer\<close>, \<open>Release\<close>) and registration of a new layer from a tar stream
  (\<open>applyTar\<close>, \<open>registerWithDescriptor\<close>, \<open>Register\<close>), each with its error
  branches and the clean-up its deferred closures perform. Each exported operation is
  one atomic step of the store: the code holds \<open>layerL\<close> across every
  read-modify-write of \<open>layerMap\<close>, and the model does not interleave operations.
\<close>

section \<open>Lookup\<close>

definition get :: "chain_id \<Rightarrow> layerStore \<Rightarrow> roLayer option \<times> layerStore" where
  "get c s =
     (case layerMap s c of
        None \<Rightarrow> (None, s)
      | Some l \<Rightarrow>
          let l' = l\<lparr>referenceCount := Suc (referenceCount l)\<rparr>
          in (Some l', s\<lparr>layerMap := (layerMap s)(c \<mapsto> l')\<rparr>))"

definition Get :: "chain_id \<Rightarrow> layerStore \<Rightarrow> layerHandle result" where
  "Get c s =
     (case get c s of
        (None, s1) \<Rightarrow> (Inl ErrLayerDoesNotExist, s1)
      | (Some l, s1) \<Rightarrow> (let (h, s2) = getReference c s1 in (Inr h, s2)))"

definition Map :: "layerStore \<Rightarrow> chain_id \<rightharpoonup> roLayer" where
  "Map s = layerMap s"

section \<open>Deletion\<close>

text \<open>
  \<open>deleteLayer\<close> renames the layer's metadata directory to a fresh
  \<open>-removing\<close> name first, so that a crash or a failed driver removal leaves an orphan
  that \<open>Cleanup\<close> finds, then removes the backing store and the renamed directory, and
  fills in the \<open>Metadata\<close> record (the cumulative \<open>Size\<close> walks the parents).
\<close>

definition deleteLayer :: "roLayer \<Rightarrow> layerStore \<Rightarrow> ((error + metadata) \<times> layerStore) option" where
  "deleteLayer l s =
     (let dir = chainID l @ ''-'' @ stringid (nextRandom s) @ ''-removing'';
          s1 = s\<lparr>store := ms_renameRemoving (chainID l) dir (store s), nextRandom := Suc (nextRandom s)\<rparr>
      in case drv_remove (cacheID l) (driver s1) of
           Inl e \<Rightarrow> Some (Inl e, s1)
         | Inr d \<Rightarrow>
             (let s2 = s1\<lparr>driver := d\<rparr>
              in case ms_removeAll (chainID l) dir (store s2) of
                   Inl e \<Rightarrow> Some (Inl e, s2)
                 | Inr ms \<Rightarrow>
                     do { z \<leftarrow> Size (layerMap s2) l;
                          Some (Inr \<lparr>md_chainID = chainID l, md_diffID = diffID l,
                                     md_size = z, md_diffSize = rsize l\<rparr>,
                                s2\<lparr>store := ms\<rparr>) }))"

text \<open>
  The release loop: decrement the count; while it reaches zero, remove the node from
  \<open>layerMap\<close> (first, so that a failed \<open>deleteLayer\<close> does not leave it findable),
  delete it, record its metadata and continue with its parent. \<open>dpt\<close> is the loop's
  \<open>depth\<close> counter and \<open>removed\<close> the records collected so far. The three
  \<open>panic\<close>s of the code are \<open>EPanic\<close> results; a chain ID with no node (which the
  Go pointers cannot express) is reported as a panic too.
\<close>

partial_function (option) releaseLayer ::
  "nat \<Rightarrow> metadata list \<Rightarrow> chain_id \<Rightarrow> layerStore \<Rightarrow> (metadata list) result option" where
  "releaseLayer dpt removed c s =
     (case layerMap s c of
        None \<Rightarrow> Some (Inl (EPanic ''dangling layer''), s)
      | Some l \<Rightarrow>
          if referenceCount l = 0 then Some (Inl (EPanic ''layer not retained''), s)
          else
            let l' = l\<lparr>referenceCount := referenceCount l - 1\<rparr>;
                s1 = s\<lparr>layerMap := (layerMap s)(c \<mapsto> l')\<rparr>
            in if referenceCount l' \<noteq> 0 then Some (Inr removed, s1)
            else if removed = [] \<and> 0 < dpt then Some (Inl (EPanic ''cannot remove layer with child''), s1)
            else if references l' \<noteq> {} then Some (Inl (EPanic ''cannot delete referenced layer''), s1)
            else
              do { (r, s3) \<leftarrow> deleteLayer l' (s1\<lparr>layerMap := (layerMap s1)(c := None)\<rparr>);
                   case r of
                     Inl e \<Rightarrow> Some (Inl e, s3)
                   | Inr md \<Rightarrow>
                       (case parent l' of
                          None \<Rightarrow> Some (Inr (removed @ [md]), s3)
                        | Some p \<Rightarrow> releaseLayer (Suc dpt) (removed @ [md]) p s3) })"

declare releaseLayer.simps [code]

definition Release :: "layerHandle \<Rightarrow> layerStore \<Rightarrow> (metadata list) result option" where
  "Release h s =
     (case layerMap s (lref_chain h) of
        None \<Rightarrow> Some (Inr [], s)
      | Some l \<Rightarrow>
          if lref_id h \<notin> references l then Some (Inl ErrLayerNotRetained, s)
          else releaseLayer 0 [] (lref_chain h)
                 (s\<lparr>layerMap := (layerMap s)(lref_chain h \<mapsto> l\<lparr>references := references l - {lref_id h}\<rparr>)\<rparr>))"

text \<open>
  What a release promises, stated on the counts alone: the chain of nodes it deletes.
  Starting from the released node, a node is deleted when the reference being dropped
  is its last (its count is 1), and then its parent loses a holder in turn. The view
  keeps, per chain ID, just the count and the parent.
\<close>

definition counts_view :: "(chain_id \<rightharpoonup> roLayer) \<Rightarrow> chain_id \<rightharpoonup> nat \<times> chain_id option" where
  "counts_view m = (\<lambda>k. map_option (\<lambda>l. (referenceCount l, parent l)) (m k))"

partial_function (option) doomed ::
  "(chain_id \<rightharpoonup> nat \<times> chain_id option) \<Rightarrow> chain_id \<Rightarrow> chain_id list option" where
  "doomed v c =
     (case v c of
        None \<Rightarrow> Some []
      | Some (n, p) \<Rightarrow>
          if n = 1 then (case p of None \<Rightarrow> Some [c] | Some q \<Rightarrow> do { ids \<leftarrow> doomed v q; Some (c # ids) })
          else Some [])"

declare doomed.simps [code]

section \<open>Registration\<close>

text \<open>
  \<open>applyTar\<close> streams the diff through the tar-split packer (whose output goes to the
  transaction) into the driver's \<open>ApplyDiff\<close>, digesting it on the way; on success the
  layer gets the applied size and the digest as its diff ID.
\<close>

definition applyTar ::
  "digest_fn \<Rightarrow> layerRec \<Rightarrow> string \<Rightarrow> cache_id \<Rightarrow> roLayer \<Rightarrow> layerStore \<Rightarrow> error + (layerRec \<times> roLayer)" where
  "applyTar H tx ts pid l s =
     (if FTarSplit \<in> ms_faults (store s) then Inl (EMeta ''tar-split-writer'' (cacheID l))
      else case drv_applyDiff (cacheID l) pid ts (driver s) of
             Inl e \<Rightarrow> Inl e
           | Inr sz \<Rightarrow> Inr (tx\<lparr>lr_tarsplit := ts\<rparr>, l\<lparr>rsize := sz, diffID := H ts\<rparr>))"

text \<open>\<open>storeLayer\<close> writes the layer's fields into the transaction.\<close>

definition storeLayer :: "layerRec \<Rightarrow> roLayer \<Rightarrow> layerStore \<Rightarrow> error + layerRec" where
  "storeLayer tx l s =
     (if FTxWrite \<in> ms_faults (store s) then Inl (EMeta ''store-layer'' (chainID l))
      else Inr (tx\<lparr>lr_diffID := diffID l, lr_size := rsize l, lr_cacheID := cacheID l,
                   lr_parent := (case parent l of None \<Rightarrow> '''' | Some p \<Rightarrow> p)\<rparr>))"

text \<open>\<open>identity.ChainID([parent, diff])\<close>: the digest of the two IDs joined by a space.\<close>

definition chain_of :: "digest_fn \<Rightarrow> chain_id \<Rightarrow> diff_id \<Rightarrow> chain_id" where
  "chain_of H p d = H (p @ '' '' @ d)"

text \<open>The deferred clean-up after a failure: remove the new backing store, cancel the transaction.\<close>

definition register_cleanup :: "cache_id \<Rightarrow> layerStore \<Rightarrow> layerStore" where
  "register_cleanup cid s =
     s\<lparr>driver := (case drv_remove cid (driver s) of Inl _ \<Rightarrow> driver s | Inr d \<Rightarrow> d)\<rparr>"

text \<open>
  The body of \<open>registerWithDescriptor\<close> after the parent is resolved. Besides the
  outcome it returns \<open>cErr\<close>, which decides whether the parent reference is released:
  it is set on every failure and on the deduplication path, which succeeds.
\<close>

definition register_body ::
  "digest_fn \<Rightarrow> string \<Rightarrow> roLayer option \<Rightarrow> cache_id \<Rightarrow> layerStore \<Rightarrow> error option \<times> layerHandle result" where
  "register_body H ts p pid s =
     (let cid = stringid (nextRandom s);
          s1 = s\<lparr>nextRandom := Suc (nextRandom s)\<rparr>;
          layer = \<lparr>chainID = '''', diffID = '''', parent = map_option chainID p, cacheID = cid,
                   rsize = 0, referenceCount = 1, references = {}\<rparr>
      in case drv_create cid pid (driver s1) of
           Inl e \<Rightarrow> (Some e, Inl e, s1)
         | Inr d \<Rightarrow>
         let s2 = s1\<lparr>driver := d\<rparr> in
         case ms_startTransaction (store s2) of
           Inl e \<Rightarrow> (Some e, Inl e, s2)
         | Inr tx \<Rightarrow>
         case applyTar H tx ts pid layer s2 of
           Inl e \<Rightarrow> (Some e, Inl e, register_cleanup cid s2)
         | Inr (tx1, layer1) \<Rightarrow>
         let layer2 = layer1\<lparr>chainID := (case p of None \<Rightarrow> diffID layer1
                                          | Some pl \<Rightarrow> chain_of H (chainID pl) (diffID layer1))\<rparr>
         in case storeLayer tx1 layer2 s2 of
           Inl e \<Rightarrow> (Some e, Inl e, register_cleanup cid s2)
         | Inr tx2 \<Rightarrow>
         case get (chainID layer2) s2 of
           (Some ex, s3) \<Rightarrow>
             (let (h, s4) = getReference (chainID layer2) s3
              in (Some EExists, Inr h, register_cleanup cid s4))
         | (None, _) \<Rightarrow>
         case ms_commit (chainID layer2) tx2 (store s2) of
           Inl e \<Rightarrow> (Some e, Inl e, register_cleanup cid s2)
         | Inr ms \<Rightarrow>
             (case getReference (chainID layer2)
                     (s2\<lparr>store := ms, layerMap := (layerMap s2)(chainID layer2 \<mapsto> layer2)\<rparr>) of
                (h, s5) \<Rightarrow> (None, Inr h, s5)))"

text \<open>
  The deferred release of the parent reference when \<open>cErr\<close> is set. Its result is
  dropped by the code, except that a panic inside it still ends the program.
\<close>

definition release_parent_on_error ::
  "chain_id option \<Rightarrow> error option \<Rightarrow> 'a result \<Rightarrow> 'a result option" where
  "release_parent_on_error pc cerr r =
     (case (pc, cerr) of
        (Some c, Some _) \<Rightarrow>
          do { (rr, s') \<leftarrow> releaseLayer 0 [] c (snd r);
               Some (case rr of Inl (EPanic m) \<Rightarrow> Inl (EPanic m) | _ \<Rightarrow> fst r, s') }
      | _ \<Rightarrow> Some r)"

definition registerWithDescriptor ::
  "digest_fn \<Rightarrow> string \<Rightarrow> chain_id \<Rightarrow> layerStore \<Rightarrow> layerHandle result option" where
  "registerWithDescriptor H ts pc s =
     (if pc = '''' then Some (snd (register_body H ts None '''' s))
      else case get pc s of
        (None, s1) \<Rightarrow> Some (Inl ErrLayerDoesNotExist, s1)
      | (Some p, s1) \<Rightarrow>
          do { d \<leftarrow> depth (layerMap s1) p;
               if maxLayerDepth \<le> d
               then release_parent_on_error (Some pc) (Some ErrMaxDepthExceeded) (Inl ErrMaxDepthExceeded, s1)
               else (let (cerr, r) = register_body H ts (Some p) (cacheID p) s1
                     in release_parent_on_error (Some pc) cerr r) })"

definition Register :: "digest_fn \<Rightarrow> string \<Rightarrow> chain_id \<Rightarrow> layerStore \<Rightarrow> layerHandle result option" where
  "Register H ts pc s = registerWithDescriptor H ts pc s"

section \<open>An example store\<close>

text \<open>
  A store with a two-layer chain \<open>a \<leftarrow> b\<close> and one caller handle (serial 1) on
  \<open>b\<close>; \<open>a\<close> is held by its child alone, as after a restart.
\<close>

definition demo_driver :: graphDriver where
  "demo_driver = \<lparr>drv_layers = [''ra'' \<mapsto> '''', ''rb'' \<mapsto> ''ra''], drv_gets = (\<lambda>_. 0), drv_faults = {}\<rparr>"

definition demo_meta :: metaStore where
  "demo_meta = \<lparr>ms_layers = Map.empty, ms_removing = [], ms_mountIDs = Map.empty,
                ms_initIDs = Map.empty, ms_mountParents = Map.empty, ms_faults = {}\<rparr>"

definition demo_chain :: layerStore where
  "demo_chain =
     \<lparr>store = demo_meta, driver = demo_driver,
      layerMap = [''a'' \<mapsto> \<lparr>chainID = ''a'', diffID = ''da'', parent = None, cacheID = ''ra'',
                               rsize = 3, referenceCount = 1, references = {}\<rparr>,
                  ''b'' \<mapsto> \<lparr>chainID = ''b'', diffID = ''db'', parent = Some ''a'', cacheID = ''rb'',
                               rsize = 4, referenceCount = 1, references = {1}\<rparr>],
      mounts = Map.empty, nextRef = 2, nextRandom = 0\<rparr>"

lemmas layerstore_defs [store_simps] =
  get_def Get_def deleteLayer_def Release_def applyTar_def storeLayer_def chain_of_def
  register_cleanup_def register_body_def release_parent_on_error_def registerWithDescriptor_def
  Register_def

section \<open>The example store is well formed\<close>

lemma demo_chain_wf: "wf_store demo_chain"
proof -
  have d: "depth (layerMap demo_chain) l \<noteq> None" if "layerMap demo_chain k = Some l" for k l
    using that by (auto simp: demo_chain_def depth.simps split: if_splits)
  show ?thesis using d
    by (auto simp: wf_store_def layer_ok_def mount_ok_def holders_def children_def mchildren_def
        count_where_upd demo_chain_def split: if_splits)
qed

lemma Release_drop_ref_wf:
  assumes wf: "wf_store s" and lc: "layerMap s c = Some l" and hr: "i \<in> references l"
  shows "wf_store (s\<lparr>layerMap := (layerMap s)(c \<mapsto> l\<lparr>references := references l - {i}\<rparr>)\<rparr>)"
    and "Suc (holders (s\<lparr>layerMap := (layerMap s)(c \<mapsto> l\<lparr>references := references l - {i}\<rparr>)\<rparr>) c
               (l\<lparr>references := references l - {i}\<rparr>)) \<le> referenceCount l"
proof -
  have lok: "layer_ok s c l" using wf lc by (rule wf_store_layer_ok)
  have fin: "finite (dom (layerMap s))" using wf by (simp add: wf_store_def)
  have card: "card (references l - {i}) = card (references l) - 1" and pos: "0 < card (references l)"
    using lok hr by (auto simp: layer_ok_def card_gt_0_iff)
  have ch: "children ((layerMap s)(c \<mapsto> l\<lparr>references := references l - {i}\<rparr>)) c = children (layerMap s) c"
    using fin lc by (rule children_upd_same) simp
  show "wf_store (s\<lparr>layerMap := (layerMap s)(c \<mapsto> l\<lparr>references := references l - {i}\<rparr>)\<rparr>)"
    by (rule wf_upd_layer [OF wf lc]) (use lok card pos in \<open>auto simp: layer_ok_def holders_def\<close>)
  show "Suc (holders (s\<lparr>layerMap := (layerMap s)(c \<mapsto> l\<lparr>references := references l - {i}\<rparr>)\<rparr>) c
               (l\<lparr>references := references l - {i}\<rparr>)) \<le> referenceCount l"
    using lok card pos ch by (auto simp: layer_ok_def holders_def)
qed

section \<open>The release loop is safe and terminates\<close>

lemma deleteLayer_frame:
  "deleteLayer l s = Some (r, t) \<Longrightarrow>
     layerMap t = layerMap s \<and> mounts t = mounts s \<and> nextRef t = nextRef s
     \<and> drv_faults (driver t) = drv_faults (driver s) \<and> ms_faults (store t) = ms_faults (store s)
     \<and> (\<forall>x. drv_layers (driver s) x = None \<longrightarrow> drv_layers (driver t) x = None)"
  by (auto simp: deleteLayer_def Let_def bind_eq_Some_conv ms_renameRemoving_def ms_removeAll_def
      drv_remove_def split: sum.splits option.splits if_splits)

lemma deleteLayer_returns:
  assumes "Size (layerMap s) l = Some z"
  shows "\<exists>r t. deleteLayer l s = Some (r, t) \<and> (\<forall>e. r = Inl e \<longrightarrow> \<not> is_panic e)"
  using assms by (auto simp: deleteLayer_def Let_def drv_remove_def ms_removeAll_def)

text \<open>With no fault injected, \<open>deleteLayer\<close> succeeds and removes the backing store.\<close>

lemma deleteLayer_ok:
  assumes "Size (layerMap s) l = Some z" "drv_faults (driver s) = {}" "ms_faults (store s) = {}"
  shows "\<exists>md t. deleteLayer l s = Some (Inr md, t) \<and> md_chainID md = chainID l
           \<and> drv_layers (driver t) (cacheID l) = None"
  using assms by (auto simp: deleteLayer_def Let_def drv_remove_def ms_removeAll_def ms_renameRemoving_def
      split: option.splits)

text \<open>One turn of the loop, when the count stays positive and when it reaches zero.\<close>

lemma releaseLayer_nonzero:
  assumes "layerMap s c = Some l" "1 < referenceCount l"
  shows "releaseLayer dpt rm c s =
           Some (Inr rm, s\<lparr>layerMap := (layerMap s)(c \<mapsto> l\<lparr>referenceCount := referenceCount l - 1\<rparr>)\<rparr>)"
  using assms by (subst releaseLayer.simps) simp

lemma releaseLayer_zero:
  assumes "layerMap s c = Some l" "referenceCount l = 1" "references l = {}" "dpt = 0 \<or> rm \<noteq> []"
    "deleteLayer (l\<lparr>referenceCount := 0\<rparr>) (s\<lparr>layerMap := (layerMap s)(c := None)\<rparr>) = Some (r3, t3)"
  shows "releaseLayer dpt rm c s =
           (case r3 of Inl e \<Rightarrow> Some (Inl e, t3)
            | Inr md \<Rightarrow> (case parent l of None \<Rightarrow> Some (Inr (rm @ [md]), t3)
                         | Some p \<Rightarrow> releaseLayer (Suc dpt) (rm @ [md]) p t3))"
  using assms by (subst releaseLayer.simps) (auto split: sum.split)

text \<open>
  The facts one deletion step needs: a node that nothing holds is deleted, the store
  without it is well formed and \<open>deleteLayer\<close> returns without a panic.
\<close>

lemma release_delete_step:
  assumes wf: "wf_store s" and lc: "layerMap s c = Some l" and h0: "holders s c l = 0"
    and dep: "depth (layerMap s) l = Some d"
  shows "\<exists>r3 t3. deleteLayer (l\<lparr>referenceCount := 0\<rparr>) (s\<lparr>layerMap := (layerMap s)(c := None)\<rparr>) = Some (r3, t3)
           \<and> (\<forall>e. r3 = Inl e \<longrightarrow> \<not> is_panic e) \<and> layerMap t3 = (layerMap s)(c := None)
           \<and> mounts t3 = mounts s \<and> nextRef t3 = nextRef s \<and> wf_store t3"
proof -
  let ?l' = "l\<lparr>referenceCount := 0\<rparr>"
  let ?s2 = "s\<lparr>layerMap := (layerMap s)(c := None)\<rparr>"
  have lok: "layer_ok s c l" using wf lc by (rule wf_store_layer_ok)
  have nch: "children (layerMap s) c = 0" and nmch: "mchildren (mounts s) c = 0"
    using h0 by (simp_all add: holders_def)
  have wf2: "wf_store ?s2" using wf lc nch nmch by (rule wf_delete_childless)
  have ncp: "parent l \<noteq> Some c" using dep lc by (rule not_self_parent)
  have fin: "finite (dom (layerMap s))" using wf by (simp add: wf_store_def)
  have nop: "\<forall>l'' \<in> ran (layerMap s). parent l'' \<noteq> Some c" using nch fin by (simp add: children_zero)
  have "depth (layerMap s) ?l' = Some d" using dep depth_same_parent [of ?l' l] by simp
  then have "depth (layerMap ?s2) ?l' = Some d" using nop ncp by (simp add: depth_delete_childless)
  then obtain z where "Size (layerMap ?s2) ?l' = Some z" using Size_of_depth by blast
  then obtain r3 t3 where del: "deleteLayer ?l' ?s2 = Some (r3, t3)"
    and np: "\<forall>e. r3 = Inl e \<longrightarrow> \<not> is_panic e" using deleteLayer_returns by blast
  have frame: "layerMap t3 = (layerMap s)(c := None)" "mounts t3 = mounts s" "nextRef t3 = nextRef s"
    using deleteLayer_frame [OF del] by simp_all
  have "wf_store t3" using wf2 wf_store_frame [of t3 ?s2] frame by simp
  with del np frame show ?thesis by blast
qed

text \<open>After the deletion the loop moves to the parent: it is still there, its chain is
  shorter, and it is held by one more than its remaining holders.\<close>

lemma release_parent_step:
  assumes wf: "wf_store s" and lc: "layerMap s c = Some l" and h0: "holders s c l = 0"
    and dep: "depth (layerMap s) l = Some d" and lp: "parent l = Some p"
    and t: "layerMap t = (layerMap s)(c := None)" "mounts t = mounts s"
  shows "\<exists>pl d'. layerMap s p = Some pl \<and> layerMap t p = Some pl \<and> depth (layerMap t) pl = Some d'
           \<and> d' < d \<and> Suc (holders t p pl) \<le> referenceCount pl"
proof -
  let ?s2 = "s\<lparr>layerMap := (layerMap s)(c := None)\<rparr>"
  obtain pl d' where pl: "layerMap s p = Some pl" "depth (layerMap s) pl = Some d'" "d = Suc d'"
    using dep lp by (rule depth_parentE)
  have nch: "children (layerMap s) c = 0" using h0 by (simp add: holders_def)
  have fin: "finite (dom (layerMap s))" using wf by (simp add: wf_store_def)
  have nop: "\<forall>l'' \<in> ran (layerMap s). parent l'' \<noteq> Some c" using nch fin by (simp add: children_zero)
  have "p \<noteq> c" using not_self_parent [OF dep lc] lp by auto
  then have pl3: "layerMap t p = Some pl" using t(1) pl(1) by simp
  have "parent pl \<noteq> Some c" using nop pl(1) by (auto simp: ran_def)
  then have "depth (layerMap ?s2) pl = Some d'" using pl(2) nop by (simp add: depth_delete_childless)
  then have dep3: "depth (layerMap t) pl = Some d'" using t(1) by simp
  have "holders ?s2 p pl = holders s p pl - 1 \<and> 0 < holders s p pl"
    using wf lc lp by (rule holders_delete_child)
  moreover have "holders t p pl = holders ?s2 p pl" using holders_frame [of t ?s2] t by simp
  moreover have "holders s p pl \<le> referenceCount pl"
    using wf_store_layer_ok [OF wf pl(1)] by (simp add: layer_ok_def)
  ultimately have "Suc (holders t p pl) \<le> referenceCount pl" by linarith
  with pl pl3 dep3 show ?thesis by auto
qed

text \<open>
  The loop invariant: the store is well formed and the node to release is held by one
  more than its remaining holders (the reference being given up). Induction on the
  node's depth: each turn that continues moves to the parent, whose depth is smaller
  and which has lost exactly the child just deleted.
\<close>

lemma releaseLayer_wf:
  assumes "wf_store s" "layerMap s c = Some l" "Suc (holders s c l) \<le> referenceCount l"
    "depth (layerMap s) l = Some d" "dpt = 0 \<or> rm \<noteq> []"
  shows "\<exists>r t. releaseLayer dpt rm c s = Some (r, t) \<and> wf_store t \<and> (\<forall>e. r = Inl e \<longrightarrow> \<not> is_panic e)"
  using assms
proof (induction d arbitrary: s c l dpt rm rule: less_induct)
  case (less d)
  have lok: "layer_ok s c l" using less.prems(1,2) by (rule wf_store_layer_ok)
  show ?case
  proof (cases "1 < referenceCount l")
    case True
    have "wf_store (s\<lparr>layerMap := (layerMap s)(c \<mapsto> l\<lparr>referenceCount := referenceCount l - 1\<rparr>)\<rparr>)"
      by (rule wf_upd_layer [OF less.prems(1,2)])
         (use lok less.prems(3) in \<open>auto simp: layer_ok_def holders_def\<close>)
    with releaseLayer_nonzero [OF less.prems(2) True] show ?thesis by simp
  next
    case False
    then have one: "referenceCount l = 1" and h0: "holders s c l = 0" using less.prems(3) by auto
    then have nref: "references l = {}" using lok by (simp add: holders_def layer_ok_def)
    obtain r3 t3 where del: "deleteLayer (l\<lparr>referenceCount := 0\<rparr>) (s\<lparr>layerMap := (layerMap s)(c := None)\<rparr>) = Some (r3, t3)"
      and np: "\<forall>e. r3 = Inl e \<longrightarrow> \<not> is_panic e" and t3: "layerMap t3 = (layerMap s)(c := None)"
      "mounts t3 = mounts s" and wf3: "wf_store t3"
      using release_delete_step [OF less.prems(1,2) h0 less.prems(4)] by blast
    note unfold = releaseLayer_zero [OF less.prems(2) one nref less.prems(5) del]
    show ?thesis
    proof (cases r3)
      case (Inl e)
      with unfold np wf3 show ?thesis by simp
    next
      case (Inr md)
      show ?thesis
      proof (cases "parent l")
        case None
        with unfold Inr wf3 show ?thesis by simp
      next
        case (Some p)
        obtain pl d' where "layerMap t3 p = Some pl" "depth (layerMap t3) pl = Some d'" "d' < d"
          "Suc (holders t3 p pl) \<le> referenceCount pl"
          using release_parent_step [OF less.prems(1,2) h0 less.prems(4) Some t3] by blast
        then obtain r t where "releaseLayer (Suc dpt) (rm @ [md]) p t3 = Some (r, t)"
          "wf_store t" "\<forall>e. r = Inl e \<longrightarrow> \<not> is_panic e"
          using less.IH [OF _ wf3] by blast
        with unfold Inr Some show ?thesis by simp
      qed
    qed
  qed
qed

text \<open>The release loop touches neither the mounts nor the handle counter nor the faults.\<close>

lemma releaseLayer_frame:
  assumes "releaseLayer dpt rm c s = Some y"
  shows "mounts (snd y) = mounts s \<and> nextRef (snd y) = nextRef s
         \<and> drv_faults (driver (snd y)) = drv_faults (driver s) \<and> ms_faults (store (snd y)) = ms_faults (store s)"
  apply (rule releaseLayer.raw_induct
    [where P = "\<lambda>dpt rm c s y. mounts (snd y) = mounts s \<and> nextRef (snd y) = nextRef s
       \<and> drv_faults (driver (snd y)) = drv_faults (driver s) \<and> ms_faults (store (snd y)) = ms_faults (store s)",
     OF _ assms])
  subgoal premises prems for rel dpt rm c s y
  proof (cases "layerMap s c")
    case None
    with prems(2) show ?thesis by auto
  next
    case (Some l)
    let ?s2 = "s\<lparr>layerMap := (layerMap s)(c := None)\<rparr>"
    show ?thesis
    proof (cases "deleteLayer (l\<lparr>referenceCount := referenceCount l - 1\<rparr>) ?s2")
      case None
      with prems(2) Some show ?thesis by (auto simp: Let_def split: if_splits)
    next
      case (Some rt)
      then obtain r3 t3 where del: "deleteLayer (l\<lparr>referenceCount := referenceCount l - 1\<rparr>) ?s2 = Some (r3, t3)"
        by (cases rt) auto
      note fr = deleteLayer_frame [OF del]
      show ?thesis
        using prems(2) \<open>layerMap s c = Some l\<close> del fr
        by (auto simp: Let_def dest!: prems(1) split: if_splits sum.splits option.splits)
    qed
  qed
  done

text \<open>Releasing a node held by one more than its holders, as every caller of the loop does.\<close>

lemma releaseLayer_held_safe:
  assumes wf: "wf_store s" and lc: "layerMap s c = Some l" and cnt: "Suc (holders s c l) \<le> referenceCount l"
  shows "\<exists>r t. releaseLayer 0 [] c s = Some (r, t) \<and> wf_store t \<and> (\<forall>e. r = Inl e \<longrightarrow> \<not> is_panic e)"
proof -
  obtain d where "depth (layerMap s) l = Some d"
    using wf_store_layer_ok [OF wf lc] by (auto simp: layer_ok_def)
  then show ?thesis using wf lc cnt by (intro releaseLayer_wf) simp_all
qed

text \<open>\<open>get\<close> on a present node takes a hold: the count rises by one above its holders.\<close>

lemma get_held:
  assumes wf: "wf_store s" and lc: "layerMap s c = Some l"
  defines "l' \<equiv> l\<lparr>referenceCount := Suc (referenceCount l)\<rparr>"
  shows "get c s = (Some l', s\<lparr>layerMap := (layerMap s)(c \<mapsto> l')\<rparr>)"
    and "wf_store (s\<lparr>layerMap := (layerMap s)(c \<mapsto> l')\<rparr>)"
    and "Suc (holders (s\<lparr>layerMap := (layerMap s)(c \<mapsto> l')\<rparr>) c l') \<le> referenceCount l'"
    and "chainID l' = c"
proof -
  have lok: "layer_ok s c l" using wf lc by (rule wf_store_layer_ok)
  have fin: "finite (dom (layerMap s))" using wf by (simp add: wf_store_def)
  have ch: "children ((layerMap s)(c \<mapsto> l')) c = children (layerMap s) c"
    using fin lc by (rule children_upd_same) (simp add: l'_def)
  show "get c s = (Some l', s\<lparr>layerMap := (layerMap s)(c \<mapsto> l')\<rparr>)"
    using lc by (simp add: get_def l'_def Let_def)
  show "wf_store (s\<lparr>layerMap := (layerMap s)(c \<mapsto> l')\<rparr>)"
    by (rule wf_upd_layer [OF wf lc]) (use lok in \<open>auto simp: layer_ok_def holders_def l'_def\<close>)
  show "Suc (holders (s\<lparr>layerMap := (layerMap s)(c \<mapsto> l')\<rparr>) c l') \<le> referenceCount l'"
    using lok ch by (simp add: layer_ok_def holders_def l'_def)
  show "chainID l' = c" using lok by (simp add: layer_ok_def l'_def)
qed

text \<open>The deferred release of a held parent returns, keeps the store well formed and
  passes on the operation's own error, which is no panic.\<close>

lemma release_parent_on_error_safe:
  assumes wf: "wf_store (snd r)" and np: "\<forall>e. fst r = Inl e \<longrightarrow> \<not> is_panic e"
    and lc: "layerMap (snd r) c = Some l" and cnt: "Suc (holders (snd r) c l) \<le> referenceCount l"
  shows "\<exists>r'. release_parent_on_error (Some c) cerr r = Some r' \<and> wf_store (snd r')
           \<and> (\<forall>e. fst r' = Inl e \<longrightarrow> \<not> is_panic e)"
proof (cases cerr)
  case None
  with wf np show ?thesis by (simp add: release_parent_on_error_def)
next
  case (Some x)
  obtain rr t where rel: "releaseLayer 0 [] c (snd r) = Some (rr, t)" and wft: "wf_store t"
    and npr: "\<forall>e. rr = Inl e \<longrightarrow> \<not> is_panic e"
    using releaseLayer_held_safe [OF wf lc cnt] by blast
  have "\<forall>e. (case rr of Inl (EPanic m) \<Rightarrow> Inl (EPanic m) | _ \<Rightarrow> fst r) = Inl e \<longrightarrow> \<not> is_panic e"
    using np npr by (auto split: sum.splits error.splits)
  with Some rel wft show ?thesis by (simp add: release_parent_on_error_def)
qed

section \<open>What the release cascade deletes\<close>

lemma counts_view_Some: "m c = Some l \<Longrightarrow> counts_view m c = Some (referenceCount l, parent l)"
  by (simp add: counts_view_def)

lemma doomed_not_one: "m c = Some l \<Longrightarrow> referenceCount l \<noteq> 1 \<Longrightarrow> doomed (counts_view m) c = Some []"
  by (subst doomed.simps) (simp add: counts_view_Some)

lemma doomed_root: "m c = Some l \<Longrightarrow> referenceCount l = 1 \<Longrightarrow> parent l = None \<Longrightarrow> doomed (counts_view m) c = Some [c]"
  by (subst doomed.simps) (simp add: counts_view_Some)

lemma doomed_step:
  "m c = Some l \<Longrightarrow> referenceCount l = 1 \<Longrightarrow> parent l = Some p \<Longrightarrow> doomed (counts_view m) p = Some ids
   \<Longrightarrow> doomed (counts_view m) c = Some (c # ids)"
  by (subst doomed.simps) (simp add: counts_view_Some)

text \<open>
  The cascade from a node is computed, and is the same in a map that differs only at a
  key \<open>c\<close> that is neither the node nor a parent of any node.
\<close>

lemma doomed_avoiding:
  "m p = Some pl \<Longrightarrow> depth m pl = Some d \<Longrightarrow> (\<forall>l' \<in> ran m. parent l' \<noteq> Some c) \<Longrightarrow> p \<noteq> c
   \<Longrightarrow> (\<forall>k. k \<noteq> c \<longrightarrow> m' k = m k)
   \<Longrightarrow> \<exists>ids. doomed (counts_view m) p = Some ids \<and> doomed (counts_view m') p = Some ids"
proof (induction d arbitrary: p pl rule: less_induct)
  case (less d)
  have m'p: "m' p = Some pl" using less.prems(1,4,5) by simp
  show ?case
  proof (cases "referenceCount pl = 1")
    case False
    with less.prems(1) m'p show ?thesis by (simp add: doomed_not_one)
  next
    case True
    show ?thesis
    proof (cases "parent pl")
      case None
      with True less.prems(1) m'p show ?thesis by (simp add: doomed_root)
    next
      case (Some q)
      obtain ql d' where q: "m q = Some ql" "depth m ql = Some d'" "d = Suc d'"
        using less.prems(2) Some by (rule depth_parentE)
      have "q \<noteq> c" using less.prems(3,1) Some by (auto simp: ran_def)
      moreover have "d' < d" using q(3) by simp
      ultimately obtain ids where "doomed (counts_view m) q = Some ids" "doomed (counts_view m') q = Some ids"
        using less.IH [OF _ q(1,2) less.prems(3) _ less.prems(5)] by blast
      then have "doomed (counts_view m) p = Some (p # ids)" "doomed (counts_view m') p = Some (p # ids)"
        using doomed_step [of m p pl q ids] doomed_step [of m' p pl q ids] less.prems(1) m'p True Some by simp_all
      then show ?thesis by blast
    qed
  qed
qed

lemma release_delete_size:
  assumes wf: "wf_store s" and lc: "layerMap s c = Some l" and h0: "holders s c l = 0"
    and dep: "depth (layerMap s) l = Some d"
  shows "\<exists>z. Size ((layerMap s)(c := None)) (l\<lparr>referenceCount := 0\<rparr>) = Some z"
proof -
  have nch: "children (layerMap s) c = 0" using h0 by (simp add: holders_def)
  have fin: "finite (dom (layerMap s))" using wf by (simp add: wf_store_def)
  have nop: "\<forall>l'' \<in> ran (layerMap s). parent l'' \<noteq> Some c" using nch fin by (simp add: children_zero)
  have "depth (layerMap s) (l\<lparr>referenceCount := 0\<rparr>) = Some d"
    using dep depth_same_parent [of "l\<lparr>referenceCount := 0\<rparr>" l] by simp
  then have "depth ((layerMap s)(c := None)) (l\<lparr>referenceCount := 0\<rparr>) = Some d"
    using nop not_self_parent [OF dep lc] by (simp add: depth_delete_childless)
  then show ?thesis by (rule Size_of_depth)
qed

text \<open>
  With no fault injected, the loop deletes exactly the cascade of the released node,
  in child-to-root order, and removes each deleted node's backing store; the driver
  never regains a store it lost.
\<close>

lemma releaseLayer_cascade:
  assumes "wf_store s" "layerMap s c = Some l" "Suc (holders s c l) \<le> referenceCount l"
    "depth (layerMap s) l = Some d" "dpt = 0 \<or> rm \<noteq> []"
    "drv_faults (driver s) = {}" "ms_faults (store s) = {}"
  shows "\<exists>mds t. releaseLayer dpt rm c s = Some (Inr (rm @ mds), t)
           \<and> doomed (counts_view (layerMap s)) c = Some (map md_chainID mds)
           \<and> (\<forall>x. layerMap t x = None \<longleftrightarrow> layerMap s x = None \<or> x \<in> set (map md_chainID mds))
           \<and> (\<forall>x \<in> set (map md_chainID mds). \<exists>lx. layerMap s x = Some lx \<and> drv_layers (driver t) (cacheID lx) = None)
           \<and> (\<forall>x. drv_layers (driver s) x = None \<longrightarrow> drv_layers (driver t) x = None)
           \<and> drv_faults (driver t) = {} \<and> ms_faults (store t) = {}"
  using assms
proof (induction d arbitrary: s c l dpt rm rule: less_induct)
  case (less d)
  have lok: "layer_ok s c l" using less.prems(1,2) by (rule wf_store_layer_ok)
  show ?case
  proof (cases "1 < referenceCount l")
    case True
    let ?t = "s\<lparr>layerMap := (layerMap s)(c \<mapsto> l\<lparr>referenceCount := referenceCount l - 1\<rparr>)\<rparr>"
    have "doomed (counts_view (layerMap s)) c = Some (map md_chainID [])"
      using less.prems(2) True by (simp add: doomed_not_one)
    moreover have "releaseLayer dpt rm c s = Some (Inr (rm @ []), ?t)"
      using releaseLayer_nonzero [OF less.prems(2) True] by simp
    moreover have "\<forall>x. layerMap ?t x = None \<longleftrightarrow> layerMap s x = None \<or> x \<in> set (map md_chainID [])"
      using less.prems(2) by simp
    ultimately show ?thesis using less.prems(6,7) by fastforce
  next
    case False
    then have one: "referenceCount l = 1" and h0: "holders s c l = 0" using less.prems(3) by auto
    then have nref: "references l = {}" using lok by (simp add: holders_def layer_ok_def)
    obtain z where "Size ((layerMap s)(c := None)) (l\<lparr>referenceCount := 0\<rparr>) = Some z"
      using release_delete_size [OF less.prems(1,2) h0 less.prems(4)] by blast
    then have sz: "Size (layerMap (s\<lparr>layerMap := (layerMap s)(c := None)\<rparr>)) (l\<lparr>referenceCount := 0\<rparr>) = Some z"
      by simp
    have cid: "chainID l = c" using lok by (simp add: layer_ok_def)
    obtain md t3 where del: "deleteLayer (l\<lparr>referenceCount := 0\<rparr>) (s\<lparr>layerMap := (layerMap s)(c := None)\<rparr>)
        = Some (Inr md, t3)" and mdc0: "md_chainID md = chainID (l\<lparr>referenceCount := 0\<rparr>)"
      and gone0: "drv_layers (driver t3) (cacheID (l\<lparr>referenceCount := 0\<rparr>)) = None"
      using deleteLayer_ok [OF sz] less.prems(6,7) by auto
    have mdc: "md_chainID md = c" using mdc0 cid by simp
    have gone: "drv_layers (driver t3) (cacheID l) = None" using gone0 by simp
    have fr: "layerMap t3 = (layerMap s)(c := None)" "mounts t3 = mounts s"
      "drv_faults (driver t3) = {}" "ms_faults (store t3) = {}"
      "\<forall>x. drv_layers (driver s) x = None \<longrightarrow> drv_layers (driver t3) x = None"
      using deleteLayer_frame [OF del] less.prems(6,7) by simp_all
    have wf3: "wf_store t3"
      using release_delete_step [OF less.prems(1,2) h0 less.prems(4)] del by auto
    note unfold = releaseLayer_zero [OF less.prems(2) one nref less.prems(5) del]
    show ?thesis
    proof (cases "parent l")
      case None
      then have "doomed (counts_view (layerMap s)) c = Some [c]"
        using doomed_root [of "layerMap s" c l] less.prems(2) one by simp
      with unfold None mdc gone fr less.prems(2) show ?thesis by auto
    next
      case (Some p)
      obtain pl d' where pl: "layerMap s p = Some pl" "layerMap t3 p = Some pl" "depth (layerMap t3) pl = Some d'"
        "d' < d" "Suc (holders t3 p pl) \<le> referenceCount pl"
        using release_parent_step [OF less.prems(1,2) h0 less.prems(4) Some fr(1,2)] by blast
      obtain mds t where rec: "releaseLayer (Suc dpt) (rm @ [md]) p t3 = Some (Inr ((rm @ [md]) @ mds), t)"
        and dm: "doomed (counts_view (layerMap t3)) p = Some (map md_chainID mds)"
        and mp: "\<forall>x. layerMap t x = None \<longleftrightarrow> layerMap t3 x = None \<or> x \<in> set (map md_chainID mds)"
        and dr: "\<forall>x \<in> set (map md_chainID mds). \<exists>lx. layerMap t3 x = Some lx \<and> drv_layers (driver t) (cacheID lx) = None"
        and mono: "\<forall>x. drv_layers (driver t3) x = None \<longrightarrow> drv_layers (driver t) x = None"
        and flt: "drv_faults (driver t) = {}" "ms_faults (store t) = {}"
        using less.IH [OF pl(4) wf3 pl(2) pl(5) pl(3) _ fr(3,4), of "Suc dpt" "rm @ [md]"] by auto
      have nch: "children (layerMap s) c = 0" using h0 by (simp add: holders_def)
      have fin: "finite (dom (layerMap s))" using less.prems(1) by (simp add: wf_store_def)
      have nop: "\<forall>l'' \<in> ran (layerMap s). parent l'' \<noteq> Some c" using nch fin by (simp add: children_zero)
      have "p \<noteq> c" using not_self_parent [OF less.prems(4,2)] Some by auto
      moreover obtain dp where "depth (layerMap s) pl = Some dp"
        using wf_store_layer_ok [OF less.prems(1) pl(1)] by (auto simp: layer_ok_def)
      moreover have "\<forall>k. k \<noteq> c \<longrightarrow> layerMap t3 k = layerMap s k" using fr(1) by simp
      ultimately obtain ids where "doomed (counts_view (layerMap s)) p = Some ids"
        "doomed (counts_view (layerMap t3)) p = Some ids"
        using doomed_avoiding [OF pl(1) _ nop] by blast
      with dm have ids: "ids = map md_chainID mds" by simp
      have dc: "doomed (counts_view (layerMap s)) c = Some (c # map md_chainID mds)"
        using doomed_step [of "layerMap s" c l p ids] less.prems(2) one Some
          \<open>doomed (counts_view (layerMap s)) p = Some ids\<close> ids by simp
      have d1: "\<forall>x \<in> set (map md_chainID mds). \<exists>lx. layerMap s x = Some lx \<and> drv_layers (driver t) (cacheID lx) = None"
      proof
        fix x assume "x \<in> set (map md_chainID mds)"
        then obtain lx where lx: "layerMap t3 x = Some lx" "drv_layers (driver t) (cacheID lx) = None"
          using dr by blast
        then have "layerMap s x = Some lx" using fr(1) by (simp split: if_splits)
        with lx(2) show "\<exists>lx. layerMap s x = Some lx \<and> drv_layers (driver t) (cacheID lx) = None" by blast
      qed
      have d0: "drv_layers (driver t) (cacheID l) = None" using mono gone by blast
      have dd: "\<forall>x \<in> set (map md_chainID (md # mds)). \<exists>lx. layerMap s x = Some lx \<and> drv_layers (driver t) (cacheID lx) = None"
        using d1 d0 mdc less.prems(2) by auto
      have dm2: "\<forall>x. layerMap t x = None \<longleftrightarrow> layerMap s x = None \<or> x \<in> set (map md_chainID (md # mds))"
        using mp fr(1) mdc by auto
      have dmono: "\<forall>x. drv_layers (driver s) x = None \<longrightarrow> drv_layers (driver t) x = None"
        using fr(5) mono by blast
      have res: "releaseLayer dpt rm c s = Some (Inr (rm @ (md # mds)), t)" using unfold Some rec by simp
      have "doomed (counts_view (layerMap s)) c = Some (map md_chainID (md # mds))" using dc mdc by simp
      with res dd dm2 dmono flt show ?thesis by blast
    qed
  qed
qed

section \<open>Release\<close>

text \<open>
  C1. Releasing a handle (\<open>Release\<close>) on a well-formed store always returns (the
  release cascade terminates), never reaches one of the code's \<open>panic\<close>s, and leaves
  the store well formed: every count still covers its holders, no parent dangles and
  no chain is cyclic. This holds on every branch, including a failed driver removal.
\<close>

theorem Release_safe:
  assumes "wf_store s"
  shows "\<exists>r t. Release h s = Some (r, t) \<and> wf_store t \<and> (\<forall>e. r = Inl e \<longrightarrow> \<not> is_panic e)"
proof (cases "layerMap s (lref_chain h)")
  case None
  with assms show ?thesis by (simp add: Release_def)
next
  case (Some l)
  show ?thesis
  proof (cases "lref_id h \<in> references l")
    case False
    with Some assms show ?thesis by (simp add: Release_def)
  next
    case True
    let ?l' = "l\<lparr>references := references l - {lref_id h}\<rparr>"
    let ?s' = "s\<lparr>layerMap := (layerMap s)(lref_chain h \<mapsto> ?l')\<rparr>"
    have wf': "wf_store ?s'" and cnt: "Suc (holders ?s' (lref_chain h) ?l') \<le> referenceCount ?l'"
      using Release_drop_ref_wf [OF assms Some True] by simp_all
    obtain d where "depth (layerMap s) l = Some d"
      using wf_store_layer_ok [OF assms Some] by (auto simp: layer_ok_def)
    then have "depth (layerMap ?s') ?l' = Some d"
      using depth_upd_same [of "layerMap s" "lref_chain h" l ?l'] Some depth_same_parent [of ?l' l] by simp
    then have "\<exists>r t. releaseLayer 0 [] (lref_chain h) ?s' = Some (r, t) \<and> wf_store t
               \<and> (\<forall>e. r = Inl e \<longrightarrow> \<not> is_panic e)"
      using wf' cnt by (intro releaseLayer_wf) simp_all
    with Some True show ?thesis by (simp add: Release_def)
  qed
qed

theorem Release_safe_witness:
  "wf_store demo_chain \<and>
   (\<exists>r t. Release (LayerRef ''b'' 1) demo_chain = Some (r, t) \<and> wf_store t
          \<and> (\<forall>e. r = Inl e \<longrightarrow> \<not> is_panic e))"
proof -
  have wf: "wf_store demo_chain" by (rule demo_chain_wf)
  show ?thesis using wf Release_safe [OF wf, of "LayerRef ''b'' 1"] by simp
qed


text \<open>
  C2. Cascading release. With no collaborator failing, releasing a retained handle on
  node \<open>c\<close> deletes exactly the nodes of \<open>doomed\<close>: \<open>c\<close> if the handle was its last
  holder, then each ancestor whose only holder was the child just deleted, stopping at
  the first ancestor with another holder. The returned \<open>Metadata\<close> list names them
  in child-to-root order, every other node stays, and the backing store of each
  deleted node is removed from the graph driver.
\<close>

theorem Release_cascade:
  assumes wf: "wf_store s" and lc: "layerMap s c = Some l" and hr: "i \<in> references l"
    and nf: "drv_faults (driver s) = {}" "ms_faults (store s) = {}"
  shows "\<exists>mds t. Release (LayerRef c i) s = Some (Inr mds, t)
           \<and> doomed (counts_view (layerMap s)) c = Some (map md_chainID mds)
           \<and> (\<forall>x. layerMap t x = None \<longleftrightarrow> layerMap s x = None \<or> x \<in> set (map md_chainID mds))
           \<and> (\<forall>x \<in> set (map md_chainID mds). \<exists>lx. layerMap s x = Some lx \<and> drv_layers (driver t) (cacheID lx) = None)"
proof -
  let ?l' = "l\<lparr>references := references l - {i}\<rparr>"
  let ?s' = "s\<lparr>layerMap := (layerMap s)(c \<mapsto> ?l')\<rparr>"
  have wf': "wf_store ?s'" and cnt: "Suc (holders ?s' c ?l') \<le> referenceCount ?l'"
    using Release_drop_ref_wf [OF wf lc hr] by simp_all
  obtain d where "depth (layerMap s) l = Some d"
    using wf_store_layer_ok [OF wf lc] by (auto simp: layer_ok_def)
  then have dep: "depth (layerMap ?s') ?l' = Some d"
    using depth_upd_same [of "layerMap s" c l ?l'] lc depth_same_parent [of ?l' l] by simp
  obtain mds t where rel: "releaseLayer 0 [] c ?s' = Some (Inr ([] @ mds), t)"
    and dm: "doomed (counts_view (layerMap ?s')) c = Some (map md_chainID mds)"
    and mp: "\<forall>x. layerMap t x = None \<longleftrightarrow> layerMap ?s' x = None \<or> x \<in> set (map md_chainID mds)"
    and dr: "\<forall>x \<in> set (map md_chainID mds). \<exists>lx. layerMap ?s' x = Some lx \<and> drv_layers (driver t) (cacheID lx) = None"
    using releaseLayer_cascade [OF wf' _ cnt dep, of 0 "[]"] nf by auto
  have "counts_view (layerMap ?s') = counts_view (layerMap s)"
    using lc by (auto simp: counts_view_def fun_eq_iff)
  with dm have dm': "doomed (counts_view (layerMap s)) c = Some (map md_chainID mds)" by simp
  have mp': "\<forall>x. layerMap t x = None \<longleftrightarrow> layerMap s x = None \<or> x \<in> set (map md_chainID mds)"
    using mp lc by auto
  have dr': "\<forall>x \<in> set (map md_chainID mds). \<exists>lx. layerMap s x = Some lx \<and> drv_layers (driver t) (cacheID lx) = None"
  proof
    fix x assume "x \<in> set (map md_chainID mds)"
    then obtain lx where lx: "layerMap ?s' x = Some lx" "drv_layers (driver t) (cacheID lx) = None"
      using dr by blast
    show "\<exists>lx. layerMap s x = Some lx \<and> drv_layers (driver t) (cacheID lx) = None"
    proof (cases "x = c")
      case True
      with lx lc show ?thesis by auto
    next
      case False
      with lx show ?thesis by auto
    qed
  qed
  have "Release (LayerRef c i) s = Some (Inr mds, t)" using rel lc hr by (simp add: Release_def)
  with dm' mp' dr' show ?thesis by blast
qed

theorem Release_cascade_witness:
  "\<exists>mds t. Release (LayerRef ''b'' 1) demo_chain = Some (Inr mds, t) \<and> map md_chainID mds = [''b'', ''a'']"
proof -
  have lc: "layerMap demo_chain ''b'' = Some \<lparr>chainID = ''b'', diffID = ''db'', parent = Some ''a'',
      cacheID = ''rb'', rsize = 4, referenceCount = 1, references = {1}\<rparr>"
    by (simp add: demo_chain_def)
  have nf: "drv_faults (driver demo_chain) = {}" "ms_faults (store demo_chain) = {}"
    by (simp_all add: demo_chain_def demo_driver_def demo_meta_def)
  obtain mds t where "Release (LayerRef ''b'' 1) demo_chain = Some (Inr mds, t)"
    and dm: "doomed (counts_view (layerMap demo_chain)) ''b'' = Some (map md_chainID mds)"
    using Release_cascade [OF demo_chain_wf lc _ nf] by auto
  moreover have "doomed (counts_view (layerMap demo_chain)) ''b'' = Some [''b'', ''a'']"
    by (simp add: doomed.simps counts_view_def demo_chain_def)
  ultimately show ?thesis using dm by auto
qed

end
