(* ===== verification/RWLayers.thy ===== *)
theory RWLayers
  imports LayerStore
begin

text \<open>
  The read-write half of \<open>layerStore\<close> (\<open>layer_store.go\<close>, \<open>CreateRWLayer\<close> to
  \<open>initMount\<close>): creating a named mount on a read-only parent, optionally with an
  \<open>-init\<close> layer seeded by the caller's callback; taking and releasing handles on it; and
  persisting its metadata. A mount holds one reference on its parent node, taken by
  \<open>get\<close> in \<open>CreateRWLayer\<close> and given back by \<open>ReleaseRWLayer\<close>, so the
  invariant \<open>wf_store\<close> of \<open>Layers\<close> counts the mounts among a node's holders.
\<close>

section \<open>Operations\<close>

text \<open>
  The caller's \<open>MountInit\<close> callback, run on the init layer's path; \<open>False\<close> is a
  callback that returns an error (reported as \<open>EInit\<close>).
\<close>

type_synonym mountInit = "string \<Rightarrow> bool"

text \<open>\<open>ls.mountID(name)\<close>: on Linux a fresh random ID, whatever the name.\<close>

definition mountID_of :: "mount_name \<Rightarrow> layerStore \<Rightarrow> cache_id \<times> layerStore" where
  "mountID_of n s = (stringid (nextRandom s), s\<lparr>nextRandom := Suc (nextRandom s)\<rparr>)"

text \<open>
  \<open>initMount\<close>: create \<open><mountID>-init\<close> on the parent's store, mount it, run the
  callback, unmount it. A failing callback still unmounts (dropping \<open>Put\<close>'s error).
\<close>

definition initMount ::
  "cache_id \<Rightarrow> cache_id \<Rightarrow> mountInit \<Rightarrow> layerStore \<Rightarrow> cache_id result" where
  "initMount graphID pid initFunc s =
     (let initID = graphID @ ''-init'' in
      case drv_createRW initID pid (driver s) of
        Inl e \<Rightarrow> (Inl e, s)
      | Inr d1 \<Rightarrow>
      case drv_get initID d1 of
        Inl e \<Rightarrow> (Inl e, s\<lparr>driver := d1\<rparr>)
      | Inr (p, d2) \<Rightarrow>
          if \<not> initFunc p then (Inl EInit, s\<lparr>driver := drv_put_ignore initID d2\<rparr>)
          else case drv_put initID d2 of
                 Inl e \<Rightarrow> (Inl e, s\<lparr>driver := d2\<rparr>)
               | Inr d3 \<Rightarrow> (Inr initID, s\<lparr>driver := d3\<rparr>))"

text \<open>
  \<open>saveMount\<close> writes the mount's files one by one (the init ID and the parent only
  when present) and, once all are written, publishes the mount in \<open>mounts\<close>. A
  failure leaves the files already written.
\<close>

definition saveMount :: "mountedLayer \<Rightarrow> layerStore \<Rightarrow> unit result" where
  "saveMount m s =
     (case ms_setMountID (name m) (mountID m) (store s) of
        Inl e \<Rightarrow> (Inl e, s)
      | Inr ms1 \<Rightarrow>
      case (if initID m \<noteq> '''' then ms_setInitID (name m) (initID m) ms1 else Inr ms1) of
        Inl e \<Rightarrow> (Inl e, s\<lparr>store := ms1\<rparr>)
      | Inr ms2 \<Rightarrow>
      case (case mparent m of None \<Rightarrow> Inr ms2 | Some p \<Rightarrow> ms_setMountParent (name m) p ms2) of
        Inl e \<Rightarrow> (Inl e, s\<lparr>store := ms2\<rparr>)
      | Inr ms3 \<Rightarrow> (Inr (), s\<lparr>store := ms3, mounts := (mounts s)(name m \<mapsto> m)\<rparr>))"

text \<open>
  The tail of \<open>CreateRWLayer\<close> after the optional init layer: create the writable
  store on \<open>pid\<close> (the init layer, or the parent's cache ID), save the mount and hand
  out the first handle.
\<close>

definition createRW_finish :: "mountedLayer \<Rightarrow> cache_id \<Rightarrow> layerStore \<Rightarrow> rwHandle result" where
  "createRW_finish m pid s =
     (case drv_createRW (mountID m) pid (driver s) of
        Inl e \<Rightarrow> (Inl e, s)
      | Inr d \<Rightarrow>
      case saveMount m (s\<lparr>driver := d\<rparr>) of
        (Inl e, s1) \<Rightarrow> (Inl e, s1)
      | (Inr _, s1) \<Rightarrow> (case ml_getReference (name m) s1 of (h, s2) \<Rightarrow> (Inr h, s2)))"

text \<open>The body of \<open>CreateRWLayer\<close> once the parent \<open>p\<close> (if any) is resolved and held.\<close>

definition createRW_body ::
  "mount_name \<Rightarrow> roLayer option \<Rightarrow> cache_id \<Rightarrow> mountInit option \<Rightarrow> layerStore \<Rightarrow> rwHandle result" where
  "createRW_body n p pid initFunc s =
     (case mountID_of n s of
        (mid, s0) \<Rightarrow>
          let m = \<lparr>name = n, mountID = mid, initID = '''', mparent = map_option chainID p,
                   mreferences = {}\<rparr>
          in case initFunc of
               None \<Rightarrow> createRW_finish m pid s0
             | Some f \<Rightarrow>
                 (case initMount mid pid f s0 of
                    (Inl e, s1) \<Rightarrow> (Inl e, s1)
                  | (Inr i, s1) \<Rightarrow> createRW_finish (m\<lparr>initID := i\<rparr>) i s1))"

text \<open>
  \<open>CreateRWLayer\<close>: a name already mounted is a conflict; a named parent must exist and
  is held (\<open>get\<close>) for the mount; on any later failure the deferred closure releases
  that hold again (\<open>release_parent_on_error\<close>, shared with \<open>Register\<close>). The
  deferred release is the only step that is undone.
\<close>

definition CreateRWLayer ::
  "mount_name \<Rightarrow> chain_id \<Rightarrow> mountInit option \<Rightarrow> layerStore \<Rightarrow> rwHandle result option" where
  "CreateRWLayer n pc initFunc s =
     (if mounts s n \<noteq> None then Some (Inl ErrMountNameConflict, s)
      else if pc = '''' then Some (createRW_body n None '''' initFunc s)
      else case get pc s of
        (None, s1) \<Rightarrow> Some (Inl ErrLayerDoesNotExist, s1)
      | (Some p, s1) \<Rightarrow>
          (let r = createRW_body n (Some p) (cacheID p) initFunc s1
           in release_parent_on_error (Some pc) (case fst r of Inl e \<Rightarrow> Some e | Inr _ \<Rightarrow> None) r))"

definition GetRWLayer :: "mount_name \<Rightarrow> layerStore \<Rightarrow> rwHandle result" where
  "GetRWLayer n s =
     (case mounts s n of
        None \<Rightarrow> (Inl ErrMountDoesNotExist, s)
      | Some _ \<Rightarrow> (case ml_getReference n s of (h, s1) \<Rightarrow> (Inr h, s1)))"

definition GetMountID :: "mount_name \<Rightarrow> layerStore \<Rightarrow> error + cache_id" where
  "GetMountID n s =
     (case mounts s n of
        None \<Rightarrow> Inl ErrMountDoesNotExist
      | Some m \<Rightarrow> Inr (mountID m))"

text \<open>
  \<open>ReleaseRWLayer\<close>: drop the handle; when it was the last, remove the writable store,
  the init store and the mount's files, in that order, retaking the handle if one of
  them fails; then forget the mount and release its parent.
\<close>

definition ReleaseRWLayer :: "rwHandle \<Rightarrow> layerStore \<Rightarrow> (metadata list) result option" where
  "ReleaseRWLayer h s =
     (let n = rwref_name h in
      case mounts s n of
        None \<Rightarrow> Some (Inr [], s)
      | Some m \<Rightarrow>
      case ml_deleteReference h m of
        Inl e \<Rightarrow> Some (Inl e, s)
      | Inr m1 \<Rightarrow>
      let s1 = s\<lparr>mounts := (mounts s)(n \<mapsto> m1)\<rparr>;
          retake = (\<lambda>t. t\<lparr>mounts := (mounts t)(n \<mapsto> ml_retakeReference h m1)\<rparr>)
      in if mreferences m1 \<noteq> {} then Some (Inr [], s1)
      else case drv_remove (mountID m1) (driver s1) of
        Inl e \<Rightarrow> Some (Inl e, retake s1)
      | Inr d1 \<Rightarrow>
      case (if initID m1 \<noteq> '''' then drv_remove (initID m1) d1 else Inr d1) of
        Inl e \<Rightarrow> Some (Inl e, retake (s1\<lparr>driver := d1\<rparr>))
      | Inr d2 \<Rightarrow>
      case ms_removeMount n (store s1) of
        Inl e \<Rightarrow> Some (Inl e, retake (s1\<lparr>driver := d2\<rparr>))
      | Inr ms \<Rightarrow>
      let s4 = s1\<lparr>driver := d2, store := ms, mounts := (mounts s1)(n := None)\<rparr>
      in case mparent m1 of
           None \<Rightarrow> Some (Inr [], s4)
         | Some p \<Rightarrow> releaseLayer 0 [] p s4)"

section \<open>An example store with a mount\<close>

text \<open>
  The chain of \<open>demo_chain\<close> with a mount \<open>m\<close> on \<open>b\<close> (mount ID \<open>r0\<close>, no init
  layer, one handle with serial 2); \<open>b\<close> is held by its caller handle and by the mount.
\<close>

definition demo_mounted :: layerStore where
  "demo_mounted =
     demo_chain\<lparr>
       driver := demo_driver\<lparr>drv_layers := (drv_layers demo_driver)(''r0'' \<mapsto> ''rb'')\<rparr>,
       layerMap := (layerMap demo_chain)(''b'' \<mapsto>
          \<lparr>chainID = ''b'', diffID = ''db'', parent = Some ''a'', cacheID = ''rb'',
           rsize = 4, referenceCount = 2, references = {1}\<rparr>),
       mounts := [''m'' \<mapsto> \<lparr>name = ''m'', mountID = ''r0'', initID = '''', mparent = Some ''b'',
                             mreferences = {2}\<rparr>],
       nextRef := 3, nextRandom := 1\<rparr>"

lemmas rwlayer_defs [store_simps] =
  mountID_of_def initMount_def saveMount_def createRW_finish_def createRW_body_def
  CreateRWLayer_def GetRWLayer_def GetMountID_def ReleaseRWLayer_def

section \<open>The example store with a mount is well formed\<close>

lemma demo_mounted_wf: "wf_store demo_mounted"
proof -
  have d: "depth (layerMap demo_mounted) l \<noteq> None" if "layerMap demo_mounted k = Some l" for k l
    using that by (auto simp: demo_mounted_def demo_chain_def depth.simps split: if_splits)
  show ?thesis using d
    by (auto simp: wf_store_def layer_ok_def mount_ok_def holders_def children_def mchildren_def
        count_where_upd demo_mounted_def demo_chain_def split: if_splits)
qed

section \<open>Mounts and the invariant\<close>

lemma mchildren_upd_new:
  "finite (dom ms) \<Longrightarrow> ms n = None \<Longrightarrow>
   mchildren (ms(n \<mapsto> m)) c = (if mparent m = Some c then Suc (mchildren ms c) else mchildren ms c)"
  unfolding mchildren_def by (rule count_where_upd_new)

lemma mchildren_upd_same:
  "finite (dom ms) \<Longrightarrow> ms n = Some m \<Longrightarrow> mparent m' = mparent m \<Longrightarrow>
   mchildren (ms(n \<mapsto> m')) c = mchildren ms c"
  unfolding mchildren_def by (rule count_where_upd_same) auto

lemma mchildren_delete:
  "finite (dom ms) \<Longrightarrow> ms n = Some m \<Longrightarrow>
   mchildren (ms(n := None)) c = (if mparent m = Some c then mchildren ms c - 1 else mchildren ms c)"
  unfolding mchildren_def by (rule count_where_delete)

text \<open>Handles are numbered from \<open>nextRef\<close> on; moving the counter forward is harmless.\<close>

lemma wf_nextRef:
  assumes "wf_store s" "nextRef s \<le> k"
  shows "wf_store (s\<lparr>nextRef := k\<rparr>)"
  using assms by (fastforce simp: wf_store_def layer_ok_def mount_ok_def holders_def)

text \<open>Replacing a mount by one with the same name and parent (its handles changed).\<close>

lemma wf_upd_mount:
  assumes wf: "wf_store s" and nm: "mounts s n = Some m"
    and same: "name m' = n" "mparent m' = mparent m"
    and refs: "finite (mreferences m')" "\<forall>h \<in> mreferences m'. h < nextRef s"
  shows "wf_store (s\<lparr>mounts := (mounts s)(n \<mapsto> m')\<rparr>)"
proof -
  have fin: "finite (dom (mounts s))" using wf by (simp add: wf_store_def)
  have mc: "\<And>c. mchildren ((mounts s)(n \<mapsto> m')) c = mchildren (mounts s) c"
    using fin nm same(2) by (rule mchildren_upd_same)
  have "mount_ok s n m" using wf nm by (rule wf_store_mount_ok)
  then have "mount_ok s n m'" using same refs by (simp add: mount_ok_def)
  moreover have "dom ((mounts s)(n \<mapsto> m')) = dom (mounts s)" using nm by auto
  ultimately show ?thesis using wf mc
    by (auto simp: wf_store_def layer_ok_def mount_ok_def holders_def)
qed

text \<open>Publishing a new mount: its parent must already be held for it.\<close>

lemma wf_add_mount:
  assumes wf: "wf_store s" and nm: "mounts s n = None" and mok: "mount_ok s n m"
    and held: "\<forall>p pl. mparent m = Some p \<longrightarrow> layerMap s p = Some pl \<longrightarrow> Suc (holders s p pl) \<le> referenceCount pl"
  shows "wf_store (s\<lparr>mounts := (mounts s)(n \<mapsto> m)\<rparr>)"
proof -
  let ?s = "s\<lparr>mounts := (mounts s)(n \<mapsto> m)\<rparr>"
  have fin: "finite (dom (mounts s))" using wf by (simp add: wf_store_def)
  have ok: "layer_ok ?s c l" if lc: "layerMap s c = Some l" for c l
  proof -
    have lok: "layer_ok s c l" using wf lc by (rule wf_store_layer_ok)
    have "holders ?s c l \<le> referenceCount l"
      using mchildren_upd_new [OF fin nm, of m c] held lc lok
      by (auto simp: holders_def layer_ok_def split: if_splits)
    with lok show ?thesis by (simp add: layer_ok_def holders_def)
  qed
  have "mount_ok ?s k x" if "((mounts s)(n \<mapsto> m)) k = Some x" for k x
    using that mok wf_store_mount_ok [OF wf, of k x] by (auto simp: mount_ok_def split: if_splits)
  then show ?thesis using wf ok by (simp add: wf_store_def)
qed

text \<open>Forgetting a mount keeps the store well formed and gives its parent's hold back.\<close>

lemma wf_delete_mount:
  assumes wf: "wf_store s" and nm: "mounts s n = Some m"
  shows "wf_store (s\<lparr>mounts := (mounts s)(n := None)\<rparr>)"
    and "\<forall>p pl. mparent m = Some p \<longrightarrow> layerMap s p = Some pl \<longrightarrow>
           Suc (holders (s\<lparr>mounts := (mounts s)(n := None)\<rparr>) p pl) \<le> referenceCount pl"
proof -
  let ?s = "s\<lparr>mounts := (mounts s)(n := None)\<rparr>"
  have fin: "finite (dom (mounts s))" using wf by (simp add: wf_store_def)
  have ok: "layer_ok ?s c l" if lc: "layerMap s c = Some l" for c l
  proof -
    have lok: "layer_ok s c l" using wf lc by (rule wf_store_layer_ok)
    have "mchildren ((mounts s)(n := None)) c \<le> mchildren (mounts s) c"
      using mchildren_delete [OF fin nm, of c] by simp
    with lok show ?thesis by (auto simp: layer_ok_def holders_def)
  qed
  have "mount_ok ?s k x" if "((mounts s)(n := None)) k = Some x" for k x
    using that wf_store_mount_ok [OF wf, of k x] by (auto simp: mount_ok_def split: if_splits)
  then show "wf_store ?s" using wf ok by (simp add: wf_store_def)
  show "\<forall>p pl. mparent m = Some p \<longrightarrow> layerMap s p = Some pl \<longrightarrow>
          Suc (holders ?s p pl) \<le> referenceCount pl"
  proof (intro allI impI)
    fix p pl assume mp: "mparent m = Some p" and lp: "layerMap s p = Some pl"
    have "0 < mchildren (mounts s) p"
      unfolding mchildren_def using fin nm mp by (rule count_where_pos)
    moreover have "mchildren ((mounts s)(n := None)) p = mchildren (mounts s) p - 1"
      using mchildren_delete [OF fin nm, of p] mp by simp
    moreover have "holders s p pl \<le> referenceCount pl"
      using wf_store_layer_ok [OF wf lp] by (simp add: layer_ok_def)
    ultimately show "Suc (holders ?s p pl) \<le> referenceCount pl" by (simp add: holders_def)
  qed
qed

section \<open>What each step changes\<close>

lemma initMount_frame:
  "initMount g pid f s = (r, t) \<Longrightarrow>
     layerMap t = layerMap s \<and> mounts t = mounts s \<and> nextRef t = nextRef s \<and> store t = store s
     \<and> nextRandom t = nextRandom s \<and> drv_faults (driver t) = drv_faults (driver s)
     \<and> (\<forall>e. r = Inl e \<longrightarrow> \<not> is_panic e)"
  by (auto simp: initMount_def Let_def driver_defs split: sum.splits if_splits prod.splits)

lemma saveMount_Inl:
  "saveMount m s = (Inl e, t) \<Longrightarrow>
     layerMap t = layerMap s \<and> mounts t = mounts s \<and> nextRef t = nextRef s \<and> \<not> is_panic e"
  by (auto simp: saveMount_def meta_defs split: sum.splits if_splits option.splits)

lemma saveMount_Inr:
  "saveMount m s = (Inr u, t) \<Longrightarrow>
     layerMap t = layerMap s \<and> mounts t = (mounts s)(name m \<mapsto> m) \<and> nextRef t = nextRef s"
  by (auto simp: saveMount_def meta_defs split: sum.splits if_splits option.splits)

lemma createRW_finish_Inl:
  "createRW_finish m pid s = (Inl e, t) \<Longrightarrow>
     layerMap t = layerMap s \<and> mounts t = mounts s \<and> nextRef t = nextRef s \<and> \<not> is_panic e"
  by (auto simp: createRW_finish_def driver_defs dest!: saveMount_Inl split: sum.splits prod.splits
      if_splits)

lemma createRW_finish_Inr:
  "createRW_finish m pid s = (Inr h, t) \<Longrightarrow>
     layerMap t = layerMap s \<and> mounts t = (mounts s)(name m \<mapsto> m\<lparr>mreferences := insert (nextRef s) (mreferences m)\<rparr>)
     \<and> nextRef t = Suc (nextRef s) \<and> h = RWRef (name m) (nextRef s)"
  by (auto simp: createRW_finish_def ml_getReference_def Let_def dest!: saveMount_Inr
      split: sum.splits prod.splits)

lemma createRW_body_Inl:
  assumes "createRW_body n p pid f s = (Inl e, t)"
  shows "layerMap t = layerMap s \<and> mounts t = mounts s \<and> nextRef t = nextRef s \<and> \<not> is_panic e"
proof (cases f)
  case None
  then show ?thesis using assms createRW_finish_Inl
    by (fastforce simp: createRW_body_def mountID_of_def Let_def)
next
  case (Some g)
  let ?s0 = "s\<lparr>nextRandom := Suc (nextRandom s)\<rparr>"
  obtain r1 s1 where im: "initMount (stringid (nextRandom s)) pid g ?s0 = (r1, s1)" by fastforce
  note fr = initMount_frame [OF im]
  show ?thesis
  proof (cases r1)
    case (Inl e1)
    then show ?thesis using assms Some im fr by (auto simp: createRW_body_def mountID_of_def Let_def)
  next
    case (Inr i)
    then have "createRW_finish \<lparr>name = n, mountID = stringid (nextRandom s), initID = i,
        mparent = map_option chainID p, mreferences = {}\<rparr> i s1 = (Inl e, t)"
      using assms Some im by (simp add: createRW_body_def mountID_of_def Let_def)
    then show ?thesis using createRW_finish_Inl fr by fastforce
  qed
qed

lemma createRW_body_Inr:
  assumes "createRW_body n p pid f s = (Inr h, t)"
  shows "\<exists>m. layerMap t = layerMap s \<and> mounts t = (mounts s)(n \<mapsto> m) \<and> nextRef t = Suc (nextRef s)
       \<and> name m = n \<and> mparent m = map_option chainID p \<and> mreferences m = {nextRef s}
       \<and> h = RWRef n (nextRef s)"
proof (cases f)
  case None
  then show ?thesis using assms createRW_finish_Inr
    by (fastforce simp: createRW_body_def mountID_of_def Let_def)
next
  case (Some g)
  let ?s0 = "s\<lparr>nextRandom := Suc (nextRandom s)\<rparr>"
  obtain r1 s1 where im: "initMount (stringid (nextRandom s)) pid g ?s0 = (r1, s1)" by fastforce
  note fr = initMount_frame [OF im]
  show ?thesis
  proof (cases r1)
    case (Inl e1)
    then show ?thesis using assms Some im by (simp add: createRW_body_def mountID_of_def Let_def)
  next
    case (Inr i)
    then have "createRW_finish \<lparr>name = n, mountID = stringid (nextRandom s), initID = i,
        mparent = map_option chainID p, mreferences = {}\<rparr> i s1 = (Inr h, t)"
      using assms Some im by (simp add: createRW_body_def mountID_of_def Let_def)
    then show ?thesis using createRW_finish_Inr fr by fastforce
  qed
qed

section \<open>Creating a mount keeps the store well formed\<close>

lemma createRW_body_wf:
  assumes wf: "wf_store s" and nm: "mounts s n = None"
    and held: "\<forall>c pl. map_option chainID p = Some c \<longrightarrow> layerMap s c = Some pl \<longrightarrow>
                 Suc (holders s c pl) \<le> referenceCount pl"
    and pin: "\<forall>c. map_option chainID p = Some c \<longrightarrow> c \<in> dom (layerMap s)"
    and r: "createRW_body n p pid f s = (Inr h, t)"
  shows "wf_store t"
proof -
  obtain m where t: "layerMap t = layerMap s" "mounts t = (mounts s)(n \<mapsto> m)" "nextRef t = Suc (nextRef s)"
    and m: "name m = n" "mparent m = map_option chainID p" "mreferences m = {nextRef s}"
    using createRW_body_Inr [OF r] by blast
  let ?s1 = "s\<lparr>nextRef := Suc (nextRef s)\<rparr>"
  have wf1: "wf_store ?s1" using wf by (rule wf_nextRef) simp
  have "mount_ok ?s1 n m" using m pin by (auto simp: mount_ok_def)
  moreover have "\<forall>c pl. mparent m = Some c \<longrightarrow> layerMap ?s1 c = Some pl \<longrightarrow>
                   Suc (holders ?s1 c pl) \<le> referenceCount pl"
    using held m by (simp add: holders_def)
  ultimately have "wf_store (?s1\<lparr>mounts := (mounts ?s1)(n \<mapsto> m)\<rparr>)"
    using wf1 nm by (intro wf_add_mount) simp_all
  then show ?thesis using wf_store_frame [of t "?s1\<lparr>mounts := (mounts ?s1)(n \<mapsto> m)\<rparr>"] t by simp
qed



section \<open>Releasing a mount\<close>

text \<open>Retaking the dropped handle gives the mount back as it was.\<close>

lemma retake_restores:
  "rwref_id h \<in> mreferences m \<Longrightarrow>
   ml_retakeReference h (m\<lparr>mreferences := mreferences m - {rwref_id h}\<rparr>) = m"
  by (simp add: ml_retakeReference_def insert_absorb)

text \<open>
  The shape of a release that finds the last handle: each failure after the handle is
  dropped leaves the store as it was but for the driver, and a release that gets past
  the three removals forgets the mount and releases its parent.
\<close>

lemma ReleaseRWLayer_last:
  assumes nm: "mounts s (rwref_name h) = Some m" and hm: "mreferences m = {rwref_id h}"
  shows "(\<exists>e d. ReleaseRWLayer h s = Some (Inl e, s\<lparr>driver := d\<rparr>) \<and> \<not> is_panic e)
       \<or> (\<exists>d ms. ReleaseRWLayer h s =
            (let s4 = s\<lparr>driver := d, store := ms, mounts := (mounts s)(rwref_name h := None)\<rparr>
             in case mparent m of None \<Rightarrow> Some (Inr [], s4) | Some p \<Rightarrow> releaseLayer 0 [] p s4))"
proof -
  let ?n = "rwref_name h"
  let ?m1 = "m\<lparr>mreferences := mreferences m - {rwref_id h}\<rparr>"
  have rt: "ml_retakeReference h ?m1 = m" using hm by (intro retake_restores) simp
  have upd_back: "(mounts s)(?n \<mapsto> ?m1, ?n \<mapsto> m) = mounts s" using nm by (simp add: fun_upd_idem)
  have triv: "\<exists>d. s = s\<lparr>driver := d\<rparr>" by (rule exI [of _ "driver s"]) simp
  show ?thesis
    using nm hm rt upd_back triv
    by (auto simp: ReleaseRWLayer_def ml_deleteReference_def Let_def driver_defs meta_defs
        split: sum.splits if_splits)
qed







text \<open>
  C6. Creating a mount on an existing parent, with no collaborator failing and an init
  callback (if any) that succeeds, returns the first handle on the new mount; the
  mount is published under its name with a fresh mount ID, its \<open>-init\<close> layer when a
  callback was given, and the parent; the parent's count rises by exactly one; the
  driver holds the writable store on the init layer or on the parent's store; and a
  second \<open>CreateRWLayer\<close> under the same name fails with \<open>ErrMountNameConflict\<close>.
\<close>

theorem CreateRWLayer_ok:
  assumes wf: "wf_store s" and nm: "mounts s n = None" and lc: "layerMap s pc = Some l" "pc \<noteq> ''''"
    and nf: "drv_faults (driver s) = {}" "ms_faults (store s) = {}"
    and fi: "\<forall>g. f = Some g \<longrightarrow> (\<forall>p. g p)"
  shows "\<exists>t. CreateRWLayer n pc f s = Some (Inr (RWRef n (nextRef s)), t)
           \<and> mounts t n = Some \<lparr>name = n, mountID = stringid (nextRandom s),
                 initID = (case f of None \<Rightarrow> '''' | Some _ \<Rightarrow> stringid (nextRandom s) @ ''-init''),
                 mparent = Some pc, mreferences = {nextRef s}\<rparr>
           \<and> layerMap t = (layerMap s)(pc \<mapsto> l\<lparr>referenceCount := Suc (referenceCount l)\<rparr>)
           \<and> drv_layers (driver t) (stringid (nextRandom s)) =
               Some (case f of None \<Rightarrow> cacheID l | Some _ \<Rightarrow> stringid (nextRandom s) @ ''-init'')
           \<and> CreateRWLayer n pc' f' t = Some (Inl ErrMountNameConflict, t)"
proof -
  have cid: "chainID l = pc" using wf_store_layer_ok [OF wf lc(1)] by (simp add: layer_ok_def)
  show ?thesis
  proof (cases f)
    case None
    with nm lc nf cid show ?thesis
      by (simp add: CreateRWLayer_def get_def createRW_body_def mountID_of_def createRW_finish_def
          saveMount_def ml_getReference_def release_parent_on_error_def driver_defs meta_defs Let_def)
  next
    case (Some g)
    with nm lc nf cid fi show ?thesis
      by (simp add: CreateRWLayer_def get_def createRW_body_def mountID_of_def createRW_finish_def
          initMount_def saveMount_def ml_getReference_def release_parent_on_error_def driver_defs
          meta_defs Let_def)
  qed
qed

theorem CreateRWLayer_ok_witness:
  "\<exists>t. CreateRWLayer ''m'' ''b'' (Some (\<lambda>_. True)) demo_chain = Some (Inr (RWRef ''m'' 2), t)
      \<and> mounts t ''m'' = Some \<lparr>name = ''m'', mountID = ''r0'', initID = ''r0-init'',
                               mparent = Some ''b'', mreferences = {2}\<rparr>
      \<and> drv_layers (driver t) ''r0'' = Some ''r0-init''
      \<and> CreateRWLayer ''m'' ''a'' None t = Some (Inl ErrMountNameConflict, t)"
proof -
  have lc: "layerMap demo_chain ''b'' = Some \<lparr>chainID = ''b'', diffID = ''db'', parent = Some ''a'',
      cacheID = ''rb'', rsize = 4, referenceCount = 1, references = {1}\<rparr>"
    by (simp add: demo_chain_def)
  have nm: "mounts demo_chain ''m'' = None" by (simp add: demo_chain_def)
  have nf: "drv_faults (driver demo_chain) = {}" "ms_faults (store demo_chain) = {}"
    by (simp_all add: demo_chain_def demo_driver_def demo_meta_def)
  have fi: "\<forall>g. Some (\<lambda>_. True) = Some g \<longrightarrow> (\<forall>p. g p)" by simp
  have r0: "stringid (nextRandom demo_chain) = ''r0''" "nextRef demo_chain = 2"
    by (simp_all add: demo_chain_def stringid_eval)
  show ?thesis
    using CreateRWLayer_ok [OF demo_chain_wf nm lc _ nf fi, of "''a''" None] unfolding r0 by auto
qed


text \<open>
  C7. \<open>CreateRWLayer\<close> does not roll back its init layer. When the writable store cannot
  be created after the \<open>-init\<close> layer was made and seeded, the call fails and gives
  the parent's hold back, so the mounts and the layers are as before, but the
  \<open><mountID>-init\<close> store stays in the graph driver, on the parent's store, with
  nothing left that refers to it. The specification promises that a failure undoes
  exactly the prior steps' side effects.
\<close>

theorem CreateRWLayer_init_leak:
  assumes nm: "mounts s n = None" and lc: "layerMap s pc = Some l" "pc \<noteq> ''''"
    and pos: "0 < referenceCount l"
    and flt: "drv_faults (driver s) = {FCreateRW (stringid (nextRandom s))}" and g: "\<forall>p. g p"
  shows "\<exists>e t. CreateRWLayer n pc (Some g) s = Some (Inl e, t) \<and> mounts t = mounts s
           \<and> layerMap t = layerMap s
           \<and> drv_layers (driver t) (stringid (nextRandom s) @ ''-init'') = Some (cacheID l)"
proof -
  let ?mid = "stringid (nextRandom s)"
  let ?l' = "l\<lparr>referenceCount := Suc (referenceCount l)\<rparr>"
  let ?d = "(driver s)\<lparr>drv_layers := (drv_layers (driver s))(?mid @ ''-init'' \<mapsto> cacheID l)\<rparr>"
  let ?d2 = "?d\<lparr>drv_gets := (drv_gets ?d)(?mid @ ''-init'' := Suc (drv_gets ?d (?mid @ ''-init'')))\<rparr>"
  let ?d3 = "?d2\<lparr>drv_gets := (drv_gets ?d2)(?mid @ ''-init'' := drv_gets ?d2 (?mid @ ''-init'') - 1)\<rparr>"
  let ?t1 = "s\<lparr>layerMap := (layerMap s)(pc \<mapsto> ?l'), nextRandom := Suc (nextRandom s), driver := ?d3\<rparr>"
  have body: "CreateRWLayer n pc (Some g) s =
                release_parent_on_error (Some pc) (Some (EDriver ''create-rw'' ?mid))
                  (Inl (EDriver ''create-rw'' ?mid), ?t1)"
    using nm lc flt g
    by (simp add: CreateRWLayer_def get_def createRW_body_def mountID_of_def createRW_finish_def
        initMount_def driver_defs Let_def)
  have "releaseLayer 0 [] pc ?t1 =
          Some (Inr [], ?t1\<lparr>layerMap := (layerMap ?t1)(pc \<mapsto> ?l'\<lparr>referenceCount := referenceCount ?l' - 1\<rparr>)\<rparr>)"
    using pos by (intro releaseLayer_nonzero) simp_all
  moreover have "(layerMap s)(pc \<mapsto> ?l', pc \<mapsto> ?l'\<lparr>referenceCount := referenceCount ?l' - 1\<rparr>) = layerMap s"
    using lc(1) by (auto simp: fun_eq_iff)
  ultimately show ?thesis using body by (simp add: release_parent_on_error_def)
qed

theorem CreateRWLayer_init_leak_witness:
  "\<exists>e t. CreateRWLayer ''m'' ''b'' (Some (\<lambda>_. True))
            (demo_chain\<lparr>driver := demo_driver\<lparr>drv_faults := {FCreateRW ''r0''}\<rparr>\<rparr>) = Some (Inl e, t)
        \<and> mounts t = Map.empty \<and> layerMap t = layerMap demo_chain
        \<and> drv_layers (driver t) ''r0-init'' = Some ''rb''"
proof -
  let ?s = "demo_chain\<lparr>driver := demo_driver\<lparr>drv_faults := {FCreateRW ''r0''}\<rparr>\<rparr>"
  have lc: "layerMap ?s ''b'' = Some \<lparr>chainID = ''b'', diffID = ''db'', parent = Some ''a'',
      cacheID = ''rb'', rsize = 4, referenceCount = 1, references = {1}\<rparr>"
    by (simp add: demo_chain_def)
  have nm: "mounts ?s ''m'' = None" by (simp add: demo_chain_def)
  have r0: "stringid (nextRandom ?s) = ''r0''" by (simp add: demo_chain_def stringid_eval)
  have flt: "drv_faults (driver ?s) = {FCreateRW (stringid (nextRandom ?s))}" using r0 by simp
  show ?thesis
    using CreateRWLayer_init_leak [OF nm lc _ _ flt, of "\<lambda>_. True"] r0 by (simp add: demo_chain_def)
qed


end
