(* ===== verification/Restore.thy ===== *)
theory Restore
  imports RWLayers
begin

text \<open>
  Restart and clean-up of the layer store (\<open>layer_store.go\<close>: \<open>newStoreFromGraphDriver\<close>,
  \<open>loadLayer\<close>, \<open>loadMount\<close>, \<open>Cleanup\<close>). Reference counts are never written to
  disk: a restart rebuilds them from the parent links of the committed records, one per
  child layer and one per mount. \<open>loadLayer\<close> follows the parent links recursively,
  so on a cycle of records it never returns; it is a partial function, \<open>None\<close> being
  that divergence. The list of committed layers and mounts (\<open>List\<close>) is an input.
\<close>

section \<open>Loading layers and mounts\<close>

text \<open>The node built from a committed record: no count and no handle yet.\<close>

definition layer_of_rec :: "chain_id \<Rightarrow> layerRec \<Rightarrow> chain_id option \<Rightarrow> roLayer" where
  "layer_of_rec c r p =
     \<lparr>chainID = c, diffID = lr_diffID r, parent = p, cacheID = lr_cacheID r, rsize = lr_size r,
      referenceCount = 0, references = {}\<rparr>"

partial_function (option) loadLayer :: "chain_id \<Rightarrow> layerStore \<Rightarrow> (roLayer result) option" where
  "loadLayer c s =
     (case layerMap s c of
        Some l \<Rightarrow> Some (Inr l, s)
      | None \<Rightarrow>
      case ms_getLayer c (store s) of
        Inl e \<Rightarrow> Some (Inl e, s)
      | Inr r \<Rightarrow>
          if lr_parent r = '''' then
            (let l = layer_of_rec c r None in Some (Inr l, s\<lparr>layerMap := (layerMap s)(c \<mapsto> l)\<rparr>))
          else
            do { (rp, s1) \<leftarrow> loadLayer (lr_parent r) s;
                 case rp of
                   Inl e \<Rightarrow> Some (Inl e, s1)
                 | Inr p \<Rightarrow>
                     (let l = layer_of_rec c r (Some (chainID p))
                      in Some (Inr l, s1\<lparr>layerMap := (layerMap s1)(c \<mapsto> l)\<rparr>)) })"

declare loadLayer.simps [code]

text \<open>\<open>l.parent.referenceCount++\<close> on the node a parent link names.\<close>

definition bump :: "chain_id \<Rightarrow> layerStore \<Rightarrow> layerStore" where
  "bump p s =
     (case layerMap s p of
        None \<Rightarrow> s
      | Some pl \<Rightarrow> s\<lparr>layerMap := (layerMap s)(p \<mapsto> pl\<lparr>referenceCount := Suc (referenceCount pl)\<rparr>)\<rparr>)"

definition loadMount :: "mount_name \<Rightarrow> layerStore \<Rightarrow> (unit result) option" where
  "loadMount n s =
     (if mounts s n \<noteq> None then Some (Inr (), s)
      else case ms_getMount n (store s) of
        Inl e \<Rightarrow> Some (Inl e, s)
      | Inr (mid, iid, pc) \<Rightarrow>
          (let ml = \<lparr>name = n, mountID = mid, initID = iid, mparent = None, mreferences = {}\<rparr> in
           if pc = '''' then Some (Inr (), s\<lparr>mounts := (mounts s)(n \<mapsto> ml)\<rparr>)
           else do { (rp, s1) \<leftarrow> loadLayer pc s;
                     case rp of
                       Inl e \<Rightarrow> Some (Inl e, s1)
                     | Inr p \<Rightarrow>
                         (let s2 = bump (chainID p) s1
                          in Some (Inr (), s2\<lparr>mounts := (mounts s2)(n \<mapsto> ml\<lparr>mparent := Some (chainID p)\<rparr>)\<rparr>)) }))"

text \<open>The two loops of \<open>newStoreFromGraphDriver\<close>; a failed load is logged and skipped.\<close>

fun load_layers :: "chain_id list \<Rightarrow> layerStore \<Rightarrow> layerStore option" where
  "load_layers [] s = Some s"
| "load_layers (c # cs) s =
     do { (r, s1) \<leftarrow> loadLayer c s;
          case r of
            Inl _ \<Rightarrow> load_layers cs s1
          | Inr l \<Rightarrow> load_layers cs (case parent l of None \<Rightarrow> s1 | Some p \<Rightarrow> bump p s1) }"

fun load_mounts :: "mount_name list \<Rightarrow> layerStore \<Rightarrow> layerStore option" where
  "load_mounts [] s = Some s"
| "load_mounts (n # ns) s = do { (_, s1) \<leftarrow> loadMount n s; load_mounts ns s1 }"

text \<open>
  \<open>newStoreFromGraphDriver\<close>, from the metadata store and the driver: an empty store,
  then every listed layer, then every listed mount.
\<close>

definition empty_store :: "metaStore \<Rightarrow> graphDriver \<Rightarrow> layerStore" where
  "empty_store ms d =
     \<lparr>store = ms, driver = d, layerMap = Map.empty, mounts = Map.empty, nextRef = 0, nextRandom = 0\<rparr>"

definition newStoreFromGraphDriver ::
  "metaStore \<Rightarrow> graphDriver \<Rightarrow> chain_id list \<Rightarrow> mount_name list \<Rightarrow> (error + layerStore) option" where
  "newStoreFromGraphDriver ms d ids mnts =
     (if FList \<in> ms_faults ms then Some (Inl (EMeta ''list'' ''''))
      else do { s1 \<leftarrow> load_layers ids (empty_store ms d);
                s2 \<leftarrow> load_mounts mnts s1;
                Some (Inr s2) })"

section \<open>Clean-up of orphans\<close>

text \<open>
  Each orphan: remove its backing store (a failure other than \<open>IsNotExist\<close> skips it),
  then its directories (a failure is logged). Errors are not returned.
\<close>

fun cleanup_orphans :: "(chain_id \<times> cache_id) list \<Rightarrow> layerStore \<Rightarrow> layerStore" where
  "cleanup_orphans [] s = s"
| "cleanup_orphans ((c, cid) # os) s =
     (case drv_remove cid (driver s) of
        Inl _ \<Rightarrow> cleanup_orphans os s
      | Inr d \<Rightarrow>
          (let s1 = s\<lparr>driver := d\<rparr> in
           case ms_remove c cid (store s1) of
             Inl _ \<Rightarrow> cleanup_orphans os s1
           | Inr ms \<Rightarrow> cleanup_orphans os (s1\<lparr>store := ms\<rparr>)))"

definition Cleanup :: "layerStore \<Rightarrow> unit result" where
  "Cleanup s =
     (let s1 = cleanup_orphans (ms_getOrphan (store s)) s
      in (drv_cleanup (driver s1), s1))"

section \<open>Consistent metadata on disk\<close>

text \<open>
  The length of the parent chain of a committed record, following the parent links on
  disk; \<open>None\<close> on a cycle. A missing record ends the chain.
\<close>

partial_function (option) disk_depth :: "(chain_id \<rightharpoonup> layerRec) \<Rightarrow> chain_id \<Rightarrow> nat option" where
  "disk_depth D c =
     (case D c of
        None \<Rightarrow> Some 0
      | Some r \<Rightarrow> if lr_parent r = '''' then Some 1 else do { d \<leftarrow> disk_depth D (lr_parent r); Some (Suc d) })"

declare disk_depth.simps [code]

text \<open>
  Metadata a store could have written: no record is named \<open>''''\<close> (the name of no
  parent), every parent link names a committed record, and no chain is cyclic.
\<close>

definition disk_ok :: "(chain_id \<rightharpoonup> layerRec) \<Rightarrow> bool" where
  "disk_ok D \<longleftrightarrow> D '''' = None
     \<and> (\<forall>c r. D c = Some r \<longrightarrow> lr_parent r \<noteq> '''' \<longrightarrow> lr_parent r \<in> dom D)
     \<and> (\<forall>c \<in> dom D. disk_depth D c \<noteq> None)"

text \<open>The parent a committed record names, as a node's \<open>parent\<close> field.\<close>

definition rec_parent :: "layerRec \<Rightarrow> chain_id option" where
  "rec_parent r = (if lr_parent r = '''' then None else Some (lr_parent r))"

text \<open>Every node loaded so far mirrors its record, and its parent is loaded too.\<close>

definition loaded_ok :: "(chain_id \<rightharpoonup> layerRec) \<Rightarrow> (chain_id \<rightharpoonup> roLayer) \<Rightarrow> bool" where
  "loaded_ok D m \<longleftrightarrow>
     (\<forall>c l. m c = Some l \<longrightarrow> chainID l = c \<and> references l = {}
        \<and> (\<exists>r. D c = Some r \<and> parent l = rec_parent r) \<and> (\<forall>p. parent l = Some p \<longrightarrow> p \<in> dom m))"

text \<open>Whether node \<open>k\<close> names \<open>c\<close> as its parent.\<close>

definition haspar :: "(chain_id \<rightharpoonup> roLayer) \<Rightarrow> chain_id \<Rightarrow> chain_id \<Rightarrow> bool" where
  "haspar m c k = (case m k of None \<Rightarrow> False | Some lk \<Rightarrow> parent lk = Some c)"

text \<open>
  The invariant of the first loop of \<open>newStoreFromGraphDriver\<close> after the listed IDs
  \<open>P\<close>: each node's count is the number of its children among \<open>P\<close>.
\<close>

definition layers_inv :: "(chain_id \<rightharpoonup> layerRec) \<Rightarrow> chain_id list \<Rightarrow> layerStore \<Rightarrow> bool" where
  "layers_inv D P s \<longleftrightarrow> loaded_ok D (layerMap s) \<and> set P \<subseteq> dom (layerMap s)
     \<and> (\<forall>c l. layerMap s c = Some l \<longrightarrow> referenceCount l = length (filter (haspar (layerMap s) c) P))"

text \<open>Every mount parent on disk names a committed record.\<close>

definition mounts_disk_ok :: "(chain_id \<rightharpoonup> layerRec) \<Rightarrow> metaStore \<Rightarrow> bool" where
  "mounts_disk_ok D ms \<longleftrightarrow> (\<forall>n p. ms_mountParents ms n = Some p \<longrightarrow> p \<noteq> '''' \<longrightarrow> p \<in> dom D)"

text \<open>
  The invariant of the second loop: all committed layers are loaded, each count is the
  number of its children plus the number of mounts on it.
\<close>

definition mounts_inv :: "(chain_id \<rightharpoonup> layerRec) \<Rightarrow> chain_id list \<Rightarrow> layerStore \<Rightarrow> bool" where
  "mounts_inv D ids s \<longleftrightarrow> loaded_ok D (layerMap s) \<and> dom (layerMap s) = dom D \<and> finite (dom (mounts s))
     \<and> (\<forall>c l. layerMap s c = Some l \<longrightarrow>
           referenceCount l = length (filter (haspar (layerMap s) c) ids) + mchildren (mounts s) c)
     \<and> (\<forall>n mm. mounts s n = Some mm \<longrightarrow> name mm = n \<and> mreferences mm = {}
           \<and> (\<forall>p. mparent mm = Some p \<longrightarrow> p \<in> dom (layerMap s)))"

section \<open>Example metadata\<close>

text \<open>
  Three committed layers \<open>a \<leftarrow> b\<close>, \<open>a \<leftarrow> c\<close>, a mount \<open>m\<close> on \<open>b\<close>, and one
  orphan directory left by an interrupted deletion.
\<close>

definition demo_disk :: metaStore where
  "demo_disk =
     \<lparr>ms_layers = [''a'' \<mapsto> \<lparr>lr_diffID = ''da'', lr_size = 3, lr_cacheID = ''ra'', lr_parent = '''', lr_tarsplit = ''''\<rparr>,
                   ''b'' \<mapsto> \<lparr>lr_diffID = ''db'', lr_size = 4, lr_cacheID = ''rb'', lr_parent = ''a'', lr_tarsplit = ''''\<rparr>,
                   ''c'' \<mapsto> \<lparr>lr_diffID = ''dc'', lr_size = 5, lr_cacheID = ''rc'', lr_parent = ''a'', lr_tarsplit = ''''\<rparr>],
      ms_removing = [(''x-r1-removing'', ''x'',
                      \<lparr>lr_diffID = ''dx'', lr_size = 1, lr_cacheID = ''rx'', lr_parent = '''', lr_tarsplit = ''''\<rparr>)],
      ms_mountIDs = [''m'' \<mapsto> ''r9''], ms_initIDs = Map.empty, ms_mountParents = [''m'' \<mapsto> ''b''],
      ms_faults = {}\<rparr>"

text \<open>Two committed records naming each other as parent.\<close>

definition demo_cycle :: metaStore where
  "demo_cycle =
     demo_disk\<lparr>ms_layers := [''x'' \<mapsto> \<lparr>lr_diffID = ''dx'', lr_size = 1, lr_cacheID = ''rx'', lr_parent = ''y'', lr_tarsplit = ''''\<rparr>,
                              ''y'' \<mapsto> \<lparr>lr_diffID = ''dy'', lr_size = 1, lr_cacheID = ''ry'', lr_parent = ''x'', lr_tarsplit = ''''\<rparr>]\<rparr>"

lemmas restore_defs [store_simps] =
  layer_of_rec_def bump_def loadMount_def empty_store_def newStoreFromGraphDriver_def Cleanup_def


section \<open>Loading terminates exactly on acyclic metadata\<close>

lemma disk_depth_parent:
  "disk_depth D c = Some d \<Longrightarrow> D c = Some r \<Longrightarrow> lr_parent r \<noteq> '''' \<Longrightarrow>
   \<exists>d'. disk_depth D (lr_parent r) = Some d' \<and> d = Suc d'"
  by (subst (asm) disk_depth.simps) (auto simp: bind_eq_Some_conv)

lemma ms_getLayer_Inr: "ms_getLayer c ms = Inr r \<Longrightarrow> ms_layers ms c = Some r"
  by (auto simp: ms_getLayer_def split: if_splits option.splits)

lemma ms_getLayer_ok: "ms_faults ms = {} \<Longrightarrow> ms_layers ms c = Some r \<Longrightarrow> ms_getLayer c ms = Inr r"
  by (simp add: ms_getLayer_def)

lemma ex_layerMap_self [simp]: "\<exists>m. s = s\<lparr>layerMap := m\<rparr>"
  by (rule exI [of _ "layerMap s"]) simp

lemma ex_layerMap_upd [simp]: "\<exists>m. s\<lparr>layerMap := m'\<rparr> = s\<lparr>layerMap := m\<rparr>"
  by blast

text \<open>
  C9. Loading a layer terminates on metadata whose parent chain from it is finite: a
  chain of committed records that ends at a root or at a missing record, whatever
  faults the reads meet. Loading changes nothing but the loaded nodes.
\<close>

theorem loadLayer_returns:
  assumes "disk_depth (ms_layers (store s)) c = Some d"
  shows "\<exists>r m. loadLayer c s = Some (r, s\<lparr>layerMap := m\<rparr>)"
  using assms
proof (induction d arbitrary: c rule: less_induct)
  case (less d)
  show ?case
  proof (cases "layerMap s c")
    case (Some l)
    then show ?thesis by (subst loadLayer.simps) simp
  next
    case None
    show ?thesis
    proof (cases "ms_getLayer c (store s)")
      case (Inl e)
      with None show ?thesis by (subst loadLayer.simps) simp
    next
      case (Inr r)
      note rc = ms_getLayer_Inr [OF Inr]
      show ?thesis
      proof (cases "lr_parent r = ''''")
        case True
        with None Inr show ?thesis by (subst loadLayer.simps) (simp add: Let_def)
      next
        case False
        obtain d' where "disk_depth (ms_layers (store s)) (lr_parent r) = Some d'" "d = Suc d'"
          using disk_depth_parent [OF less.prems rc False] by blast
        then obtain rp m1 where rec: "loadLayer (lr_parent r) s = Some (rp, s\<lparr>layerMap := m1\<rparr>)"
          using less.IH [of d'] by blast
        show ?thesis using None Inr False rec
          by (subst loadLayer.simps) (auto simp: Let_def split: sum.splits)
      qed
    qed
  qed
qed

text \<open>
  C10. Loading does not terminate on a cycle of parent links. When the committed records
  of a set \<open>C\<close> all name a parent in \<open>C\<close> and none of them is loaded yet, loading
  any of them never returns: \<open>loadLayer\<close> recurses into the parent before it
  records the node, and nothing on the way detects the cycle. (Fixpoint induction.)
\<close>

theorem loadLayer_cycle_None:
  assumes cyc: "\<forall>c \<in> C. layerMap s c = None \<and>
                  (\<exists>r. ms_getLayer c (store s) = Inr r \<and> lr_parent r \<noteq> '''' \<and> lr_parent r \<in> C)"
    and c: "c \<in> C"
  shows "loadLayer c s = None"
proof -
  have "\<forall>c y. c \<in> C \<longrightarrow> loadLayer c s = Some y \<longrightarrow> False"
  proof (induction rule: loadLayer.fixp_induct)
    case 1
    have adm: "option.admissible (\<lambda>f. \<forall>x y. f x = Some y \<longrightarrow> \<not> (fst x \<in> C \<and> snd x = s))"
      by (rule option_admissible)
    show ?case by (rule back_subst [where P = option.admissible, OF adm]) (auto simp: fun_eq_iff)
  next
    case 2
    then show ?case by simp
  next
    case (3 f)
    show ?case
    proof (intro allI impI)
      fix c y assume "c \<in> C" and fy: "(case layerMap s c of Some l \<Rightarrow> Some (Inr l, s) | None \<Rightarrow>
          case ms_getLayer c (store s) of Inl e \<Rightarrow> Some (Inl e, s)
          | Inr r \<Rightarrow> if lr_parent r = '''' then (let l = layer_of_rec c r None in Some (Inr l, s\<lparr>layerMap := (layerMap s)(c \<mapsto> l)\<rparr>))
                   else f (lr_parent r) s \<bind> (\<lambda>(rp, s1). case rp of Inl e \<Rightarrow> Some (Inl e, s1)
                       | Inr p \<Rightarrow> (let l = layer_of_rec c r (Some (chainID p)) in Some (Inr l, s1\<lparr>layerMap := (layerMap s1)(c \<mapsto> l)\<rparr>)))) = Some y"
      obtain r where "layerMap s c = None" "ms_getLayer c (store s) = Inr r" "lr_parent r \<noteq> ''''" "lr_parent r \<in> C"
        using cyc \<open>c \<in> C\<close> by blast
      with fy 3 show False by (auto simp: bind_eq_Some_conv)
    qed
  qed
  with c show ?thesis by (cases "loadLayer c s") auto
qed

section \<open>Loading rebuilds the nodes\<close>

lemma loaded_ok_parent:
  "loaded_ok D m \<Longrightarrow> m c = Some l \<Longrightarrow> D c = Some r \<Longrightarrow> parent l = rec_parent r"
  by (fastforce simp: loaded_ok_def)

text \<open>The chain of a loaded node is as long as its chain on disk.\<close>

lemma depth_of_loaded:
  assumes ok: "loaded_ok D m" and dok: "disk_ok D"
  shows "m c = Some l \<Longrightarrow> disk_depth D c = Some d \<Longrightarrow> depth m l = Some d"
proof (induction d arbitrary: c l rule: less_induct)
  case (less d)
  obtain r where r: "D c = Some r" "parent l = rec_parent r"
    using ok less.prems(1) unfolding loaded_ok_def by blast
  show ?case
  proof (cases "lr_parent r = ''''")
    case True
    then have "d = 1" using less.prems(2) r(1) by (subst (asm) disk_depth.simps) simp
    with True r show ?thesis by (simp add: depth_root rec_parent_def)
  next
    case False
    obtain d' where d': "disk_depth D (lr_parent r) = Some d'" "d = Suc d'"
      using disk_depth_parent [OF less.prems(2) r(1) False] by blast
    have "lr_parent r \<in> dom m" using ok less.prems(1) r(2) False by (auto simp: loaded_ok_def rec_parent_def)
    then obtain pl where pl: "m (lr_parent r) = Some pl" by blast
    have "depth m pl = Some d'" using less.IH [OF _ pl d'(1)] d'(2) by simp
    then show ?thesis using r(2) False pl d'(2) depth_parent_Some [of l "lr_parent r" m pl d']
      by (simp add: rec_parent_def)
  qed
qed


lemma loaded_ok_upd:
  assumes "loaded_ok D m" "D c = Some r" "chainID l = c" "references l = {}" "parent l = rec_parent r"
    "\<forall>p. parent l = Some p \<longrightarrow> p \<in> dom m"
  shows "loaded_ok D (m(c \<mapsto> l))"
  using assms unfolding loaded_ok_def by auto

text \<open>
  Loading a committed layer into a store whose nodes mirror the metadata: the load
  succeeds, keeps every node already there, and adds only nodes with no count yet,
  each mirroring its record.
\<close>

lemma loadLayer_loaded:
  assumes ok: "loaded_ok D (layerMap s)" and D: "ms_layers (store s) = D" "ms_faults (store s) = {}"
    and dok: "disk_ok D" and cD: "c \<in> dom D"
  shows "\<exists>l m. loadLayer c s = Some (Inr l, s\<lparr>layerMap := m\<rparr>) \<and> m c = Some l \<and> loaded_ok D m
           \<and> (\<forall>k. layerMap s k \<noteq> None \<longrightarrow> m k = layerMap s k)
           \<and> (\<forall>k lk. layerMap s k = None \<longrightarrow> m k = Some lk \<longrightarrow> referenceCount lk = 0)"
proof -
  obtain d where "disk_depth D c = Some d" using dok cD unfolding disk_ok_def by blast
  then show ?thesis using cD
  proof (induction d arbitrary: c rule: less_induct)
    case (less d)
    obtain r where r: "D c = Some r" using less.prems(2) by blast
    have gl: "ms_getLayer c (store s) = Inr r" using D r by (simp add: ms_getLayer_ok)
    show ?case
    proof (cases "layerMap s c")
      case (Some l)
      then have "loadLayer c s = Some (Inr l, s\<lparr>layerMap := layerMap s\<rparr>)" by (subst loadLayer.simps) simp
      then show ?thesis using ok Some by (intro exI [of _ l] exI [of _ "layerMap s"]) auto
    next
      case None
      show ?thesis
      proof (cases "lr_parent r = ''''")
        case True
        let ?l = "layer_of_rec c r None"
        let ?M = "(layerMap s)(c \<mapsto> ?l)"
        have A: "loaded_ok D ?M"
          by (rule loaded_ok_upd [OF ok r]) (use True in \<open>simp_all add: layer_of_rec_def rec_parent_def\<close>)
        have B: "loadLayer c s = Some (Inr ?l, s\<lparr>layerMap := ?M\<rparr>)"
          using None gl True by (subst loadLayer.simps) (simp add: Let_def)
        have C: "\<forall>k. layerMap s k \<noteq> None \<longrightarrow> ?M k = layerMap s k" using None by auto
        have E: "\<forall>k lk. layerMap s k = None \<longrightarrow> ?M k = Some lk \<longrightarrow> referenceCount lk = 0"
          by (auto simp: layer_of_rec_def)
        have "?M c = Some ?l" by simp
        with A B C E show ?thesis by blast
      next
        case False
        let ?p = "lr_parent r"
        have pD: "?p \<in> dom D" using dok r False by (auto simp: disk_ok_def)
        obtain d' where d': "disk_depth D ?p = Some d'" "d = Suc d'"
          using disk_depth_parent [OF less.prems(1) r False] by blast
        obtain lp m1 where rec: "loadLayer ?p s = Some (Inr lp, s\<lparr>layerMap := m1\<rparr>)" and m1p: "m1 ?p = Some lp"
          and ok1: "loaded_ok D m1" and keep1: "\<forall>k. layerMap s k \<noteq> None \<longrightarrow> m1 k = layerMap s k"
          and new1: "\<forall>k lk. layerMap s k = None \<longrightarrow> m1 k = Some lk \<longrightarrow> referenceCount lk = 0"
          using less.IH [OF _ d'(1) pD] d'(2) by blast
        have cp: "chainID lp = ?p" using ok1 m1p by (simp add: loaded_ok_def)
        let ?l = "layer_of_rec c r (Some ?p)"
        have ok2: "loaded_ok D (m1(c \<mapsto> ?l))"
          by (rule loaded_ok_upd [OF ok1 r]) (use False m1p in \<open>auto simp: layer_of_rec_def rec_parent_def\<close>)
        have "loadLayer c s = Some (Inr ?l, s\<lparr>layerMap := m1(c \<mapsto> ?l)\<rparr>)"
          using None gl False rec cp by (subst loadLayer.simps) (simp add: Let_def)
        moreover have "\<forall>k. layerMap s k \<noteq> None \<longrightarrow> (m1(c \<mapsto> ?l)) k = layerMap s k" using keep1 None by auto
        moreover have "\<forall>k lk. layerMap s k = None \<longrightarrow> (m1(c \<mapsto> ?l)) k = Some lk \<longrightarrow> referenceCount lk = 0"
          using new1 by (auto simp: layer_of_rec_def)
        ultimately show ?thesis using ok2 by auto
      qed
    qed
  qed
qed


section \<open>Restart rebuilds the counts\<close>

lemma haspar_same:
  "\<forall>k \<in> set P. m' k = m k \<Longrightarrow> filter (haspar m' x) P = filter (haspar m x) P"
  by (rule filter_cong) (auto simp: haspar_def)

lemma haspar_new:
  assumes "loaded_ok D m" "set P \<subseteq> dom m" "m x = None"
  shows "filter (haspar m x) P = []"
proof -
  have "\<not> haspar m x k" if "k \<in> set P" for k
  proof
    assume "haspar m x k"
    then obtain lk where "m k = Some lk" "parent lk = Some x" by (auto simp: haspar_def split: option.splits)
    with assms(1) have "x \<in> dom m" by (auto simp: loaded_ok_def)
    with assms(3) show False by auto
  qed
  then show ?thesis by (simp add: filter_empty_conv)
qed

lemma bump_Some:
  "m p = Some pl \<Longrightarrow>
   bump p (s\<lparr>layerMap := m\<rparr>) = s\<lparr>layerMap := m(p \<mapsto> pl\<lparr>referenceCount := Suc (referenceCount pl)\<rparr>)\<rparr>"
  by (simp add: bump_def)

lemma haspar_bump:
  "m p = Some pl \<Longrightarrow> haspar (m(p \<mapsto> pl\<lparr>referenceCount := n\<rparr>)) = haspar m"
  by (auto simp: haspar_def fun_eq_iff)

lemma loaded_ok_bump:
  "loaded_ok D m \<Longrightarrow> m p = Some pl \<Longrightarrow> loaded_ok D (m(p \<mapsto> pl\<lparr>referenceCount := n\<rparr>))"
  by (auto simp: loaded_ok_def)

lemma layers_inv_upd:
  "layers_inv D P (s\<lparr>layerMap := m\<rparr>) \<longleftrightarrow> loaded_ok D m \<and> set P \<subseteq> dom m
     \<and> (\<forall>c l. m c = Some l \<longrightarrow> referenceCount l = length (filter (haspar m c) P))"
  by (simp add: layers_inv_def)

lemma count_bump:
  assumes mp: "m p = Some pl"
    and cnt: "\<forall>x lx. m x = Some lx \<longrightarrow> referenceCount lx = length (filter (haspar m x) P)"
    and hc: "\<forall>x. haspar m x c \<longleftrightarrow> x = p"
  shows "\<forall>x lx. (m(p \<mapsto> pl\<lparr>referenceCount := Suc (referenceCount pl)\<rparr>)) x = Some lx \<longrightarrow>
           referenceCount lx = length (filter (haspar (m(p \<mapsto> pl\<lparr>referenceCount := Suc (referenceCount pl)\<rparr>)) x) (P @ [c]))"
proof -
  have hb: "haspar (m(p \<mapsto> pl\<lparr>referenceCount := Suc (referenceCount pl)\<rparr>)) = haspar m"
    using haspar_bump [of m p pl] mp by simp
  have cp: "referenceCount pl = length (filter (haspar m p) P)" using cnt mp by blast
  show ?thesis unfolding hb using cnt hc cp by auto
qed

text \<open>One turn of the first loop: load the next listed ID and count it at its parent.\<close>

lemma layers_step:
  assumes inv: "layers_inv D P s" and D: "ms_layers (store s) = D" "ms_faults (store s) = {}"
    and dok: "disk_ok D" and cD: "c \<in> dom D" and cP: "c \<notin> set P"
  shows "\<exists>m. load_layers (c # cs) s = load_layers cs (s\<lparr>layerMap := m\<rparr>)
             \<and> layers_inv D (P @ [c]) (s\<lparr>layerMap := m\<rparr>)"
proof -
  have ok: "loaded_ok D (layerMap s)" and sub: "set P \<subseteq> dom (layerMap s)"
    and cnt: "\<forall>x l. layerMap s x = Some l \<longrightarrow> referenceCount l = length (filter (haspar (layerMap s) x) P)"
    using inv by (simp_all add: layers_inv_def)
  obtain l m where ld: "loadLayer c s = Some (Inr l, s\<lparr>layerMap := m\<rparr>)" and mc: "m c = Some l"
    and okm: "loaded_ok D m" and keep: "\<forall>k. layerMap s k \<noteq> None \<longrightarrow> m k = layerMap s k"
    and new: "\<forall>k lk. layerMap s k = None \<longrightarrow> m k = Some lk \<longrightarrow> referenceCount lk = 0"
    using loadLayer_loaded [OF ok D dok cD] by blast
  have subm: "set P \<subseteq> dom m" using sub keep by auto
  have same: "filter (haspar m x) P = filter (haspar (layerMap s) x) P" for x
    using sub keep by (intro haspar_same) auto
  have cntm: "referenceCount lx = length (filter (haspar m x) P)" if "m x = Some lx" for x lx
  proof (cases "layerMap s x")
    case None
    then show ?thesis using new that haspar_new [OF ok sub None] same by simp
  next
    case (Some lx')
    then show ?thesis using keep that cnt same by auto
  qed
  have hc: "haspar m x c \<longleftrightarrow> parent l = Some x" for x using mc by (simp add: haspar_def)
  show ?thesis
  proof (cases "parent l")
    case None
    have c3: "\<forall>x lx. m x = Some lx \<longrightarrow> referenceCount lx = length (filter (haspar m x) (P @ [c]))"
      using cntm hc None by simp
    have "c \<in> dom m" using mc by blast
    have "layers_inv D (P @ [c]) (s\<lparr>layerMap := m\<rparr>)"
      using okm subm c3 \<open>c \<in> dom m\<close> by (simp add: layers_inv_def)
    moreover have "load_layers (c # cs) s = load_layers cs (s\<lparr>layerMap := m\<rparr>)" using ld None by simp
    ultimately show ?thesis by blast
  next
    case (Some p)
    have "p \<in> dom m" using okm mc Some unfolding loaded_ok_def by blast
    then obtain pl where mp: "m p = Some pl" by blast
    let ?m' = "m(p \<mapsto> pl\<lparr>referenceCount := Suc (referenceCount pl)\<rparr>)"
    have hb: "haspar ?m' = haspar m" using haspar_bump [of m p pl] mp by simp
    have c1: "loaded_ok D ?m'" using loaded_ok_bump [of D m p pl] okm mp by simp
    have c2: "set (P @ [c]) \<subseteq> dom ?m'" using subm mc by auto
    have cntA: "\<forall>x lx. m x = Some lx \<longrightarrow> referenceCount lx = length (filter (haspar m x) P)"
      using cntm by blast
    have hcA: "\<forall>x. haspar m x c \<longleftrightarrow> x = p" using hc Some by auto
    have c3: "\<forall>x lx. ?m' x = Some lx \<longrightarrow> referenceCount lx = length (filter (haspar ?m' x) (P @ [c]))"
      by (rule count_bump [of m p pl, OF mp cntA hcA])
    have "layers_inv D (P @ [c]) (s\<lparr>layerMap := ?m'\<rparr>)"
      unfolding layers_inv_upd using c1 c2 c3 by blast
    moreover have "load_layers (c # cs) s = load_layers cs (s\<lparr>layerMap := ?m'\<rparr>)"
      using ld Some mp by (simp add: bump_Some)
    ultimately show ?thesis by blast
  qed
qed


lemma load_layers_inv:
  assumes "layers_inv D P s" "ms_layers (store s) = D" "ms_faults (store s) = {}" "disk_ok D"
    "set cs \<subseteq> dom D" "distinct (P @ cs)"
  shows "\<exists>m. load_layers cs s = Some (s\<lparr>layerMap := m\<rparr>) \<and> layers_inv D (P @ cs) (s\<lparr>layerMap := m\<rparr>)"
  using assms
proof (induction cs arbitrary: P s)
  case Nil
  then show ?case by (intro exI [of _ "layerMap s"]) simp
next
  case (Cons c cs)
  obtain m1 where st: "load_layers (c # cs) s = load_layers cs (s\<lparr>layerMap := m1\<rparr>)"
    and inv1: "layers_inv D (P @ [c]) (s\<lparr>layerMap := m1\<rparr>)"
    using layers_step [OF Cons.prems(1-4), of c cs] Cons.prems(5,6) by auto
  obtain m2 where "load_layers cs (s\<lparr>layerMap := m1\<rparr>) = Some (s\<lparr>layerMap := m2\<rparr>)"
    "layers_inv D ((P @ [c]) @ cs) (s\<lparr>layerMap := m2\<rparr>)"
    using Cons.IH [OF inv1] Cons.prems(2-6) by fastforce
  with st show ?case by auto
qed


lemma mounts_inv_upd:
  "mounts_inv D ids (s\<lparr>layerMap := m, mounts := ms\<rparr>) \<longleftrightarrow>
     loaded_ok D m \<and> dom m = dom D \<and> finite (dom ms)
     \<and> (\<forall>c l. m c = Some l \<longrightarrow> referenceCount l = length (filter (haspar m c) ids) + mchildren ms c)
     \<and> (\<forall>n mm. ms n = Some mm \<longrightarrow> name mm = n \<and> mreferences mm = {} \<and> (\<forall>p. mparent mm = Some p \<longrightarrow> p \<in> dom m))"
  by (simp add: mounts_inv_def)

text \<open>One turn of the second loop: a mount is loaded at most once and counted at its parent.\<close>

lemma loadMount_inv:
  assumes inv: "mounts_inv D ids s" and ms: "ms_faults (store s) = {}" "mounts_disk_ok D (store s)"
  shows "\<exists>r t. loadMount n s = Some (r, t) \<and> mounts_inv D ids t \<and> store t = store s
           \<and> dom (mounts t) = dom (mounts s) \<union> (if ms_mountIDs (store s) n = None then {} else {n})"
proof -
  have okl: "loaded_ok D (layerMap s)" and dl: "dom (layerMap s) = dom D" and fin: "finite (dom (mounts s))"
    and cnt: "\<forall>c l. layerMap s c = Some l \<longrightarrow>
                referenceCount l = length (filter (haspar (layerMap s) c) ids) + mchildren (mounts s) c"
    and mok: "\<forall>n mm. mounts s n = Some mm \<longrightarrow> name mm = n \<and> mreferences mm = {}
                \<and> (\<forall>p. mparent mm = Some p \<longrightarrow> p \<in> dom (layerMap s))"
    using inv unfolding mounts_inv_def by blast+
  consider (known) "mounts s n \<noteq> None" | (noid) "mounts s n = None" "ms_mountIDs (store s) n = None"
    | (new) mid where "mounts s n = None" "ms_mountIDs (store s) n = Some mid" by fastforce
  then show ?thesis
  proof cases
    case known
    with inv show ?thesis by (auto simp: loadMount_def)
  next
    case noid
    with inv ms show ?thesis by (simp add: loadMount_def ms_getMount_def)
  next
    case new
    let ?iid = "case ms_initIDs (store s) n of None \<Rightarrow> '''' | Some x \<Rightarrow> x"
    let ?pc = "case ms_mountParents (store s) n of None \<Rightarrow> '''' | Some x \<Rightarrow> x"
    let ?ml = "\<lparr>name = n, mountID = mid, initID = ?iid, mparent = None, mreferences = {}\<rparr>"
    have gm: "ms_getMount n (store s) = Inr (mid, ?iid, ?pc)" using new ms by (simp add: ms_getMount_def)
    show ?thesis
    proof (cases "?pc = ''''")
      case True
      let ?ms = "(mounts s)(n \<mapsto> ?ml)"
      have "mchildren ?ms c = mchildren (mounts s) c" for c
        using mchildren_upd_new [OF fin new(1), of ?ml c] by simp
      then have "mounts_inv D ids (s\<lparr>layerMap := layerMap s, mounts := ?ms\<rparr>)"
        unfolding mounts_inv_upd using okl dl fin cnt mok by auto
      moreover have "loadMount n s = Some (Inr (), s\<lparr>mounts := ?ms\<rparr>)"
        using new gm True by (simp add: loadMount_def Let_def)
      ultimately show ?thesis using new by auto
    next
      case False
      have "?pc \<in> dom D" using ms(2) False by (auto simp: mounts_disk_ok_def split: option.splits)
      then obtain l where pl: "layerMap s ?pc = Some l" using dl by auto
      have cid: "chainID l = ?pc" using okl pl by (simp add: loaded_ok_def)
      have ld: "loadLayer ?pc s = Some (Inr l, s)" using pl by (subst loadLayer.simps) simp
      let ?l' = "l\<lparr>referenceCount := Suc (referenceCount l)\<rparr>"
      let ?m = "(layerMap s)(?pc \<mapsto> ?l')"
      let ?ms = "(mounts s)(n \<mapsto> ?ml\<lparr>mparent := Some ?pc\<rparr>)"
      have hb: "haspar ?m = haspar (layerMap s)" using haspar_bump [of "layerMap s" ?pc l] pl by simp
      have mc: "mchildren ?ms c = (if c = ?pc then Suc (mchildren (mounts s) c) else mchildren (mounts s) c)" for c
        using mchildren_upd_new [OF fin new(1), of "?ml\<lparr>mparent := Some ?pc\<rparr>" c] by auto
      have c4: "\<forall>c l'. ?m c = Some l' \<longrightarrow>
                  referenceCount l' = length (filter (haspar ?m c) ids) + mchildren ?ms c"
        unfolding hb using cnt pl mc by auto
      have okm: "loaded_ok D ?m" using loaded_ok_bump [of D "layerMap s" ?pc l] okl pl by simp
      have domm: "dom ?m = dom (layerMap s)" using pl by auto
      have finm: "finite (dom ?ms)" using fin by simp
      have "?pc \<in> dom (layerMap s)" using pl by blast
      then have mokm: "\<forall>n' mm. ?ms n' = Some mm \<longrightarrow> name mm = n' \<and> mreferences mm = {}
                        \<and> (\<forall>p. mparent mm = Some p \<longrightarrow> p \<in> dom ?m)"
        using mok domm by auto
      have "mounts_inv D ids (s\<lparr>layerMap := ?m, mounts := ?ms\<rparr>)"
        using domm dl unfolding mounts_inv_upd by (intro conjI okm finm c4 mokm) simp
      moreover have "loadMount n s = Some (Inr (), s\<lparr>layerMap := ?m, mounts := ?ms\<rparr>)"
        using new gm False ld cid pl by (simp add: loadMount_def Let_def bump_def)
      ultimately show ?thesis using new by auto
    qed
  qed
qed


lemma load_mounts_inv:
  assumes "mounts_inv D ids s" "ms_faults (store s) = {}" "mounts_disk_ok D (store s)"
  shows "\<exists>t. load_mounts ns s = Some t \<and> mounts_inv D ids t \<and> store t = store s
           \<and> dom (mounts t) = dom (mounts s) \<union> {n \<in> set ns. ms_mountIDs (store s) n \<noteq> None}"
  using assms
proof (induction ns arbitrary: s)
  case Nil
  then show ?case by simp
next
  case (Cons n ns)
  obtain r t where lm: "loadMount n s = Some (r, t)" and inv: "mounts_inv D ids t" and st: "store t = store s"
    and dm: "dom (mounts t) = dom (mounts s) \<union> (if ms_mountIDs (store s) n = None then {} else {n})"
    using loadMount_inv [OF Cons.prems] by blast
  obtain u where "load_mounts ns t = Some u" "mounts_inv D ids u" "store u = store t"
    "dom (mounts u) = dom (mounts t) \<union> {n \<in> set ns. ms_mountIDs (store t) n \<noteq> None}"
    using Cons.IH [OF inv] Cons.prems(2,3) st by auto
  with lm st dm show ?case by (auto split: if_splits)
qed

text \<open>Over a duplicate-free list of all keys, counting the children of \<open>c\<close> is \<open>children\<close>.\<close>

lemma children_ids:
  assumes "distinct ids" "set ids = dom m"
  shows "children m c = length (filter (haspar m c) ids)"
proof -
  have "{k. \<exists>v. m k = Some v \<and> parent v = Some c} = set (filter (haspar m c) ids)"
    using assms(2) by (auto simp: haspar_def split: option.splits)
  moreover have "card (set (filter (haspar m c) ids)) = length (filter (haspar m c) ids)"
    using assms(1) by (intro distinct_card) simp
  ultimately show ?thesis by (simp only: children_def count_where_def)
qed

lemma empty_store_layers_inv: "layers_inv D [] (empty_store ms d)"
  by (simp add: layers_inv_def loaded_ok_def empty_store_def)


text \<open>
  C8. Restart reconstruction. On metadata a store could have written (no dangling or
  cyclic parent link, every mount parent committed), with the list of committed layers
  given by \<open>List\<close> without repetition and no read failing, \<open>newStoreFromGraphDriver\<close>
  returns a store that holds every committed layer and every listed mount with a mount
  ID, is well formed, and whose counts are exact: each node is held exactly by its
  children and the mounts on it, as before the restart with no caller handles.
\<close>

theorem newStore_restores_counts:
  assumes dok: "disk_ok (ms_layers ms)" and nf: "ms_faults ms = {}" and mdo: "mounts_disk_ok (ms_layers ms) ms"
    and ids: "set ids = dom (ms_layers ms)" "distinct ids"
  shows "\<exists>s. newStoreFromGraphDriver ms d ids mnts = Some (Inr s) \<and> wf_store s \<and> refs_exact s
           \<and> dom (layerMap s) = dom (ms_layers ms)
           \<and> dom (mounts s) = {n \<in> set mnts. ms_mountIDs ms n \<noteq> None}"
proof -
  let ?D = "ms_layers ms"
  let ?s0 = "empty_store ms d"
  obtain m1 where ll: "load_layers ids ?s0 = Some (?s0\<lparr>layerMap := m1\<rparr>)"
    and inv1: "layers_inv ?D ids (?s0\<lparr>layerMap := m1\<rparr>)"
    using load_layers_inv [of ?D "[]" ?s0 ids, OF empty_store_layers_inv] dok nf ids
    by (auto simp: empty_store_def)
  have ok1: "loaded_ok ?D m1" and sub1: "set ids \<subseteq> dom m1"
    and cnt1: "\<forall>c l. m1 c = Some l \<longrightarrow> referenceCount l = length (filter (haspar m1 c) ids)"
    using inv1 unfolding layers_inv_upd by blast+
  have "dom m1 \<subseteq> dom ?D" using ok1 unfolding loaded_ok_def by blast
  then have dm1: "dom m1 = dom ?D" using sub1 ids(1) by blast
  have minv: "mounts_inv ?D ids (?s0\<lparr>layerMap := m1\<rparr>)"
    unfolding mounts_inv_def using ok1 dm1 cnt1 by (simp add: empty_store_def mchildren_def)
  obtain t where lm: "load_mounts mnts (?s0\<lparr>layerMap := m1\<rparr>) = Some t" and inv: "mounts_inv ?D ids t"
    and st: "store t = ms" and dmt: "dom (mounts t) = {n \<in> set mnts. ms_mountIDs ms n \<noteq> None}"
    using load_mounts_inv [OF minv, of mnts] nf mdo by (auto simp: empty_store_def)
  have okt: "loaded_ok ?D (layerMap t)" and dt: "dom (layerMap t) = dom ?D" and fint: "finite (dom (mounts t))"
    and cntt: "\<forall>c l. layerMap t c = Some l \<longrightarrow>
                 referenceCount l = length (filter (haspar (layerMap t) c) ids) + mchildren (mounts t) c"
    and mokt: "\<forall>n mm. mounts t n = Some mm \<longrightarrow> name mm = n \<and> mreferences mm = {}
                 \<and> (\<forall>p. mparent mm = Some p \<longrightarrow> p \<in> dom (layerMap t))"
    using inv unfolding mounts_inv_def by blast+
  have ch: "children (layerMap t) c = length (filter (haspar (layerMap t) c) ids)" for c
    using ids dt by (intro children_ids) auto
  have exact: "referenceCount l = holders t c l" if "layerMap t c = Some l" for c l
    using cntt that okt ch by (auto simp: holders_def loaded_ok_def)
  have lok: "layer_ok t c l" if lc: "layerMap t c = Some l" for c l
  proof -
    have "c \<in> dom ?D" using dt lc by blast
    then obtain dd where "disk_depth ?D c = Some dd" using dok unfolding disk_ok_def by blast
    then have "depth (layerMap t) l = Some dd" using depth_of_loaded [OF okt dok lc] by simp
    then show ?thesis using okt lc exact [OF lc] by (auto simp: layer_ok_def loaded_ok_def)
  qed
  have "finite (dom (layerMap t))" using dt ids(1) by (metis finite_set)
  then have "wf_store t"
    unfolding wf_store_def using fint lok mokt by (auto simp: mount_ok_def)
  moreover have "refs_exact t" using exact by (simp add: refs_exact_def)
  moreover have "newStoreFromGraphDriver ms d ids mnts = Some (Inr t)"
    using nf ll lm by (simp add: newStoreFromGraphDriver_def)
  ultimately show ?thesis using dt dmt by blast
qed


theorem loadLayer_returns_witness:
  "\<exists>r m. loadLayer ''b'' (empty_store demo_disk demo_driver) = Some (r, (empty_store demo_disk demo_driver)\<lparr>layerMap := m\<rparr>)"
proof -
  have "disk_depth (ms_layers (store (empty_store demo_disk demo_driver))) ''b'' = Some 2"
    by (simp add: empty_store_def demo_disk_def disk_depth.simps)
  then show ?thesis by (rule loadLayer_returns)
qed

theorem loadLayer_cycle_None_witness:
  "loadLayer ''x'' (empty_store demo_cycle demo_driver) = None"
proof -
  have "\<forall>c \<in> {''x'', ''y''}. layerMap (empty_store demo_cycle demo_driver) c = None \<and>
          (\<exists>r. ms_getLayer c (store (empty_store demo_cycle demo_driver)) = Inr r \<and> lr_parent r \<noteq> ''''
               \<and> lr_parent r \<in> {''x'', ''y''})"
    by (simp add: empty_store_def demo_cycle_def demo_disk_def ms_getLayer_def)
  then show ?thesis by (rule loadLayer_cycle_None) simp
qed

theorem newStore_restores_counts_witness:
  "\<exists>s. newStoreFromGraphDriver demo_disk demo_driver [''b'', ''c'', ''a''] [''m''] = Some (Inr s)
       \<and> wf_store s \<and> refs_exact s \<and> dom (layerMap s) = {''a'', ''b'', ''c''} \<and> dom (mounts s) = {''m''}"
proof -
  have dok: "disk_ok (ms_layers demo_disk)"
    by (auto simp: disk_ok_def demo_disk_def disk_depth.simps)
  have nf: "ms_faults demo_disk = {}" by (simp add: demo_disk_def)
  have mdo: "mounts_disk_ok (ms_layers demo_disk) demo_disk" by (simp add: mounts_disk_ok_def demo_disk_def)
  have ids: "set [''b'', ''c'', ''a''] = dom (ms_layers demo_disk)" "distinct [''b'', ''c'', ''a'']"
    by (auto simp: demo_disk_def)
  have "{n \<in> set [''m'']. ms_mountIDs demo_disk n \<noteq> None} = {''m''}" by (auto simp: demo_disk_def)
  moreover have "dom (ms_layers demo_disk) = {''a'', ''b'', ''c''}" by (auto simp: demo_disk_def)
  ultimately show ?thesis
    using newStore_restores_counts [OF dok nf mdo ids, of demo_driver "[''m'']"] by simp
qed


section \<open>Clean-up removes every orphan\<close>

text \<open>A removed backing store stays removed.\<close>

lemma cleanup_orphans_keeps_removed:
  "drv_layers (driver u) cid = None \<Longrightarrow> drv_layers (driver (cleanup_orphans os u)) cid = None"
  by (induction os arbitrary: u) (auto simp: drv_remove_def ms_remove_def Let_def split: sum.splits if_splits)

lemma cleanup_orphans_ok:
  assumes "drv_faults (driver s) = {}" "ms_faults (store s) = {}"
  shows "layerMap (cleanup_orphans os s) = layerMap s \<and> mounts (cleanup_orphans os s) = mounts s
     \<and> drv_faults (driver (cleanup_orphans os s)) = {} \<and> ms_faults (store (cleanup_orphans os s)) = {}
     \<and> ms_removing (store (cleanup_orphans os s)) =
          filter (\<lambda>(dir, c, r). (c, lr_cacheID r) \<notin> set os) (ms_removing (store s))
     \<and> (\<forall>cid \<in> snd ` set os. drv_layers (driver (cleanup_orphans os s)) cid = None)"
  using assms
proof (induction os arbitrary: s)
  case Nil
  then show ?case by simp
next
  case (Cons x os)
  obtain c cid where o: "x = (c, cid)" by fastforce
  let ?s1 = "s\<lparr>driver := (driver s)\<lparr>drv_layers := (drv_layers (driver s))(cid := None)\<rparr>,
              store := (store s)\<lparr>ms_removing := filter (\<lambda>(d, c', r). \<not> (c' = c \<and> lr_cacheID r = cid))
                                                       (ms_removing (store s))\<rparr>\<rparr>"
  have step: "cleanup_orphans ((c, cid) # os) s = cleanup_orphans os ?s1"
    using Cons.prems by (simp add: drv_remove_def ms_remove_def)
  have ih: "layerMap (cleanup_orphans os ?s1) = layerMap s \<and> mounts (cleanup_orphans os ?s1) = mounts s
     \<and> drv_faults (driver (cleanup_orphans os ?s1)) = {} \<and> ms_faults (store (cleanup_orphans os ?s1)) = {}
     \<and> ms_removing (store (cleanup_orphans os ?s1)) =
          filter (\<lambda>(dir, c, r). (c, lr_cacheID r) \<notin> set os) (ms_removing (store ?s1))
     \<and> (\<forall>cid \<in> snd ` set os. drv_layers (driver (cleanup_orphans os ?s1)) cid = None)"
    using Cons.IH [of ?s1] Cons.prems by simp
  have keep: "drv_layers (driver (cleanup_orphans os ?s1)) cid = None"
    by (rule cleanup_orphans_keeps_removed) simp
  show ?case unfolding o step using ih keep by (auto simp: filter_filter intro!: filter_cong)
qed

text \<open>
  C11. Orphan sweep. With no collaborator failing, \<open>Cleanup\<close> returns without error,
  removes every directory left by an interrupted deletion (\<open>getOrphan\<close>) from the
  metadata store and the backing store each names from the graph driver, and leaves the
  layers and mounts of the store alone.
\<close>

theorem Cleanup_removes_orphans:
  assumes "drv_faults (driver s) = {}" "ms_faults (store s) = {}"
  shows "\<exists>t. Cleanup s = (Inr (), t) \<and> ms_removing (store t) = []
           \<and> (\<forall>(c, cid) \<in> set (ms_getOrphan (store s)). drv_layers (driver t) cid = None)
           \<and> layerMap t = layerMap s \<and> mounts t = mounts s"
proof -
  let ?t = "cleanup_orphans (ms_getOrphan (store s)) s"
  note ok = cleanup_orphans_ok [OF assms, of "ms_getOrphan (store s)"]
  have "\<forall>e \<in> set (ms_removing (store s)). (\<lambda>(dir, c, r). (c, lr_cacheID r)) e \<in> set (ms_getOrphan (store s))"
    by (auto simp: ms_getOrphan_def)
  then have "filter (\<lambda>(dir, c, r). (c, lr_cacheID r) \<notin> set (ms_getOrphan (store s))) (ms_removing (store s)) = []"
    by (auto simp: filter_empty_conv split: prod.splits)
  then have "ms_removing (store ?t) = []" using ok by simp
  moreover have "Cleanup s = (Inr (), ?t)" using ok by (simp add: Cleanup_def drv_cleanup_def)
  moreover have "\<forall>(c, cid) \<in> set (ms_getOrphan (store s)). drv_layers (driver ?t) cid = None"
    using ok by force
  ultimately show ?thesis using ok by blast
qed

theorem Cleanup_removes_orphans_witness:
  "\<exists>t. Cleanup (empty_store demo_disk demo_driver) = (Inr (), t) \<and> ms_removing (store t) = []
       \<and> drv_layers (driver t) ''rx'' = None"
proof -
  have nf: "drv_faults (driver (empty_store demo_disk demo_driver)) = {}"
    "ms_faults (store (empty_store demo_disk demo_driver)) = {}"
    by (simp_all add: empty_store_def demo_disk_def demo_driver_def)
  have o: "(''x'', ''rx'') \<in> set (ms_getOrphan (store (empty_store demo_disk demo_driver)))"
    by (simp add: empty_store_def demo_disk_def ms_getOrphan_def)
  show ?thesis using Cleanup_removes_orphans [OF nf] o by fastforce
qed

end
