(* ===== verification/Iptables.thy ===== *)
theory Iptables
  imports Prelude
begin

text \<open>
  The iptables front end of the bridge driver (package \<open>iptables\<close>, staged as the
  second part of \<open>src/daemon/libnetwork/drivers/bridge/setup_ipv4_linux.go\<close>, lines
  92--603). The Go code builds argument vectors and runs the \<open>iptables\<close> binary, or
  hands them to firewalld. The binary and the kernel tables are outside the sources;
  they are modelled as an interpreter \<open>xt_exec\<close> over an explicit state
  \<open>xtables\<close>: per IP version, table and chain, the list of rules, each rule being its
  argument vector. The Go operations are translated on top of it, with their
  existence checks, their error values and the filtering of the xtables lock warning.
\<close>

section \<open>Names\<close>

text \<open>\<open>IPVersion\<close>, \<open>Table\<close>, \<open>Action\<close> and \<open>Policy\<close> are string types in the code.\<close>

type_synonym IPVersion = string
type_synonym Table = string
type_synonym Action = string

definition IPv4 :: IPVersion where "IPv4 = ''ipv4''"
definition IPv6 :: IPVersion where "IPv6 = ''ipv6''"
definition Nat :: Table where "Nat = ''nat''"
definition Filter :: Table where "Filter = ''filter''"
definition Append :: Action where "Append = ''-A''"
definition Delete :: Action where "Delete = ''-D''"
definition Insert :: Action where "Insert = ''-I''"

lemmas ipt_names = IPv4_def IPv6_def Nat_def Filter_def Append_def Delete_def Insert_def

definition xLockWaitMsg :: string where
  "xLockWaitMsg = ''Another app is currently holding the xtables lock''"

text \<open>An error value of the package, or a Go \<open>panic\<close>.\<close>

datatype ipt_err = Err string | Panic string

section \<open>The kernel tables and the iptables binary\<close>

text \<open>
  The state outside the process: the chains and their rules, the policies of the
  built-in chains, whether the \<open>iptables\<close> and \<open>ip6tables\<close> binaries were found,
  whether firewalld is running (and whether it lacks the direct interface), and whether
  another process holds the xtables lock, so that every command prints the lock warning.
\<close>

type_synonym chain_key = "IPVersion \<times> Table \<times> string"

record xtables =
  xt_chains :: "chain_key \<rightharpoonup> string list list"
  xt_policy :: "chain_key \<rightharpoonup> string"
  xt_iptables :: bool
  xt_ip6tables :: bool
  xt_firewalld :: bool
  xt_fw_noservice :: bool
  xt_contention :: bool

definition xt_out :: "xtables \<Rightarrow> string" where
  "xt_out k = (if xt_contention k then xLockWaitMsg else '''')"

text \<open>
  One command on one chain's rule list (\<open>None\<close>: no such chain): append (\<open>-A\<close>),
  insert at the head (\<open>-I\<close>), delete the first equal rule (\<open>-D\<close>), check (\<open>-C\<close>),
  flush (\<open>-F\<close>), delete the chain (\<open>-X\<close>) and create it (\<open>-N\<close>). The result is the
  chain's new entry, or the binary's error message.
\<close>

definition chain_edit :: "string \<Rightarrow> string list \<Rightarrow> string list list option \<Rightarrow> string + string list list option" where
  "chain_edit op rule e =
     (case e of
        None \<Rightarrow> if op = ''-N'' \<and> rule = [] then Inr (Some []) else Inl ''No chain/target/match by that name.''
      | Some rs \<Rightarrow>
          if op = ''-A'' then Inr (Some (rs @ [rule]))
          else if op = ''-I'' then Inr (Some (rule # rs))
          else if op = ''-D'' then
            (if rule \<in> set rs then Inr (Some (remove1 rule rs))
             else Inl ''Bad rule (does a matching rule exist in that chain?).'')
          else if op = ''-C'' then
            (if rule \<in> set rs then Inr (Some rs)
             else Inl ''Bad rule (does a matching rule exist in that chain?).'')
          else if op = ''-F'' \<and> rule = [] then Inr (Some [])
          else if op = ''-X'' \<and> rule = [] then Inr None
          else if op = ''-N'' then Inl ''Chain already exists.''
          else Inl ''Bad argument.'')"

definition xt_chain_op ::
  "IPVersion \<Rightarrow> Table \<Rightarrow> string \<Rightarrow> string \<Rightarrow> string list \<Rightarrow> xtables \<Rightarrow> (string + string) \<times> xtables" where
  "xt_chain_op v t op c rule k =
     (case chain_edit op rule (xt_chains k (v, t, c)) of
        Inl e \<Rightarrow> (Inl e, k)
      | Inr e' \<Rightarrow> (Inr (xt_out k), k\<lparr>xt_chains := (xt_chains k)((v, t, c) := e')\<rparr>))"

text \<open>
  A command line \<open>-t <table> <op> <chain> ...\<close>, parsed into a listing (\<open>-n -L\<close>,
  \<open>-nL\<close>), a policy change (\<open>-P\<close>) or a command on one chain.
\<close>

datatype xt_command = ListChain string | SetPolicy string string | ChainOp string string "string list"

fun xt_parse :: "string list \<Rightarrow> string + (Table \<times> xt_command)" where
  "xt_parse (t1 # t # op # c # rest) =
     (if t1 \<noteq> ''-t'' then Inl ''Bad argument.''
      else if t = '''' then Inl ''can't initialize iptables table: Table does not exist.''
      else if op = ''-n'' \<and> c = ''-L'' then
        (case rest of [n] \<Rightarrow> Inr (t, ListChain n) | _ \<Rightarrow> Inl ''Bad argument.'')
      else if op = ''-nL'' \<and> rest = [] then Inr (t, ListChain c)
      else if op = ''-P'' then
        (case rest of [p] \<Rightarrow> Inr (t, SetPolicy c p) | _ \<Rightarrow> Inl ''Bad argument.'')
      else Inr (t, ChainOp op c rest))"
| "xt_parse _ = Inl ''Bad argument.''"

definition xt_run :: "IPVersion \<Rightarrow> Table \<Rightarrow> xt_command \<Rightarrow> xtables \<Rightarrow> (string + string) \<times> xtables" where
  "xt_run v t cmd k =
     (case cmd of
        ListChain n \<Rightarrow>
          (if xt_chains k (v, t, n) = None then (Inl ''No chain/target/match by that name.'', k)
           else (Inr (xt_out k), k))
      | SetPolicy c p \<Rightarrow>
          (if xt_chains k (v, t, c) = None then (Inl ''Bad built-in chain name.'', k)
           else (Inr (xt_out k), k\<lparr>xt_policy := (xt_policy k)((v, t, c) \<mapsto> p)\<rparr>))
      | ChainOp op c rest \<Rightarrow> xt_chain_op v t op c rest k)"

definition xt_cmd :: "IPVersion \<Rightarrow> string list \<Rightarrow> xtables \<Rightarrow> (string + string) \<times> xtables" where
  "xt_cmd v args k = (case xt_parse args of Inl e \<Rightarrow> (Inl e, k) | Inr (t, cmd) \<Rightarrow> xt_run v t cmd k)"

text \<open>The binary: \<open>--wait\<close> (wait for the xtables lock) is accepted in front.\<close>

fun xt_exec :: "IPVersion \<Rightarrow> string list \<Rightarrow> xtables \<Rightarrow> (string + string) \<times> xtables" where
  "xt_exec v [] k = (Inl ''Bad argument.'', k)"
| "xt_exec v (w # args) k = (if w = ''--wait'' then xt_cmd v args k else xt_cmd v (w # args) k)"

text \<open>firewalld's direct passthrough runs the same command, unless it lacks the interface.\<close>

definition passthrough :: "IPVersion \<Rightarrow> string list \<Rightarrow> xtables \<Rightarrow> (string + string) \<times> xtables" where
  "passthrough v args k =
     (if xt_fw_noservice k then (Inl ''direct.passthrough was not provided by any .service files'', k)
      else xt_cmd v args k)"


section \<open>Running commands\<close>

text \<open>\<open>strings.Contains\<close>.\<close>

fun contains_str :: "string \<Rightarrow> string \<Rightarrow> bool" where
  "contains_str p [] = (p = [])"
| "contains_str p (c # cs) = (take (length p) (c # cs) = p \<or> contains_str p cs)"

text \<open>\<open>strings.Join(xs, " ")\<close>.\<close>

fun join_space :: "string list \<Rightarrow> string" where
  "join_space [] = []"
| "join_space [x] = x"
| "join_space (x # y # ys) = x @ '' '' @ join_space (y # ys)"

text \<open>\<open>strconv.Itoa\<close>.\<close>

definition itoa :: "int \<Rightarrow> string" where
  "itoa i = (if i < 0 then ''-'' @ nat_digits (nat (- i)) else nat_digits (nat i))"

record IPTable =
  ipVersion :: IPVersion

record ChainInfo =
  ci_Name :: string
  ci_Table :: Table
  ci_IPVersion :: IPVersion

definition loopbackAddress :: "IPVersion \<Rightarrow> ipt_err + string" where
  "loopbackAddress v =
     (if v = IPv4 \<or> v = '''' then Inr ''127.0.0.0/8''
      else if v = IPv6 then Inr ''::1/128''
      else Inl (Panic (''unknown IP version: '' @ v)))"

definition initCheck :: "xtables \<Rightarrow> ipt_err option" where
  "initCheck k = (if xt_iptables k then None else Some (Err ''iptables not found''))"

text \<open>
  The one-time initialisation \<open>initCheck\<close> runs first (\<open>initOnce.Do(initDependencies)\<close>):
  whether \<open>exec.LookPath\<close> finds the two binaries, and whether \<open>firewalldInit\<close> reaches
  firewalld, are its inputs; rootless mode skips firewalld.
\<close>

definition detectIptables :: "bool \<Rightarrow> bool \<Rightarrow> xtables \<Rightarrow> xtables" where
  "detectIptables found4 found6 k =
     (if \<not> found4 then k else k\<lparr>xt_iptables := True, xt_ip6tables := (found6 \<or> xt_ip6tables k)\<rparr>)"

definition initFirewalld :: "bool \<Rightarrow> bool \<Rightarrow> xtables \<Rightarrow> xtables" where
  "initFirewalld rootless fwInit k = (if rootless then k else k\<lparr>xt_firewalld := fwInit\<rparr>)"

definition initDependencies :: "bool \<Rightarrow> bool \<Rightarrow> bool \<Rightarrow> bool \<Rightarrow> xtables \<Rightarrow> xtables" where
  "initDependencies rootless fwInit found4 found6 k = detectIptables found4 found6 (initFirewalld rootless fwInit k)"

definition GetIptable :: "IPVersion \<Rightarrow> ipt_err + IPTable" where
  "GetIptable v =
     (if v = IPv4 \<or> v = IPv6 then Inr \<lparr>ipVersion = v\<rparr>
      else if v = '''' then Inr \<lparr>ipVersion = IPv4\<rparr>
      else Inl (Panic (''unknown IP version: '' @ v)))"

text \<open>The lock warning is not an error: \<open>filterOutput\<close> drops it.\<close>

definition filterOutput :: "string \<Rightarrow> string" where
  "filterOutput out = (if contains_str xLockWaitMsg out then '''' else out)"

definition raw :: "IPTable \<Rightarrow> string list \<Rightarrow> xtables \<Rightarrow> (ipt_err + string) \<times> xtables" where
  "raw it args k =
     (case initCheck k of
        Some e \<Rightarrow> (Inl e, k)
      | None \<Rightarrow>
          if ipVersion it = IPv6 \<and> \<not> xt_ip6tables k then (Inl (Err ''ip6tables is missing''), k)
          else
            (let cmd = (if ipVersion it = IPv6 then ''ip6tables'' else ''iptables'') in
             case xt_exec (ipVersion it) (''--wait'' # args) k of
               (Inl out, k') \<Rightarrow> (Inl (Err (''iptables failed: '' @ cmd @ '' '' @ join_space (''--wait'' # args) @ '': '' @ out)), k')
             | (Inr out, k') \<Rightarrow> (Inr (filterOutput out), k')))"

text \<open>\<open>Raw\<close>: through firewalld when it runs, falling back to the binary when it lacks the interface.\<close>

definition Raw :: "IPTable \<Rightarrow> string list \<Rightarrow> xtables \<Rightarrow> (ipt_err + string) \<times> xtables" where
  "Raw it args k =
     (if xt_firewalld k then
        (case passthrough (ipVersion it) args k of
           (Inr out, k') \<Rightarrow> (Inr (filterOutput out), k')
         | (Inl e, k') \<Rightarrow>
             if contains_str ''was not provided by any .service files'' e then raw it args k'
             else (Inl (Err e), k'))
      else raw it args k)"

definition RawCombinedOutput :: "IPTable \<Rightarrow> string list \<Rightarrow> xtables \<Rightarrow> (ipt_err + unit) \<times> xtables" where
  "RawCombinedOutput it args k =
     (case Raw it args k of
        (Inl e, k') \<Rightarrow> (Inl e, k')
      | (Inr out, k') \<Rightarrow> if out \<noteq> '''' then (Inl (Err out), k') else (Inr (), k'))"

definition RawCombinedOutputNative :: "IPTable \<Rightarrow> string list \<Rightarrow> xtables \<Rightarrow> (ipt_err + unit) \<times> xtables" where
  "RawCombinedOutputNative it args k =
     (case raw it args k of
        (Inl e, k') \<Rightarrow> (Inl e, k')
      | (Inr out, k') \<Rightarrow> if out \<noteq> '''' then (Inl (Err out), k') else (Inr (), k'))"

text \<open>
  \<open>exists\<close>: without the binary it answers \<open>False\<close> at once; otherwise it runs
  \<open>-C\<close>, which reads the tables only, so the state it returns is dropped.
\<close>

definition exists :: "bool \<Rightarrow> IPTable \<Rightarrow> Table \<Rightarrow> string \<Rightarrow> string list \<Rightarrow> xtables \<Rightarrow> bool" where
  "exists native it t chain rule k =
     (case initCheck k of
        Some _ \<Rightarrow> False
      | None \<Rightarrow>
          (let t' = (if t = '''' then Filter else t);
               args = [''-t'', t', ''-C'', chain] @ rule
           in \<not> isl (fst (if native then raw it args k else Raw it args k))))"

definition Exists :: "IPTable \<Rightarrow> Table \<Rightarrow> string \<Rightarrow> string list \<Rightarrow> xtables \<Rightarrow> bool" where
  "Exists it t chain rule k = exists False it t chain rule k"

definition ExistsNative :: "IPTable \<Rightarrow> Table \<Rightarrow> string \<Rightarrow> string list \<Rightarrow> xtables \<Rightarrow> bool" where
  "ExistsNative it t chain rule k = exists True it t chain rule k"

text \<open>Sequencing of operations that stop at the first error, and dropping a non-fatal one.\<close>

definition ibind ::
  "(ipt_err + 'a) \<times> xtables \<Rightarrow> ('a \<Rightarrow> xtables \<Rightarrow> (ipt_err + 'b) \<times> xtables) \<Rightarrow> (ipt_err + 'b) \<times> xtables" where
  "ibind m f = (case m of (Inl e, k) \<Rightarrow> (Inl e, k) | (Inr a, k) \<Rightarrow> f a k)"

definition ignore_err :: "(ipt_err + 'a) \<times> xtables \<Rightarrow> (ipt_err + unit) \<times> xtables" where
  "ignore_err m = (case m of (Inl (Panic p), k) \<Rightarrow> (Inl (Panic p), k) | (_, k) \<Rightarrow> (Inr (), k))"

definition wrap_err :: "string \<Rightarrow> (ipt_err + 'a) \<times> xtables \<Rightarrow> (ipt_err + 'a) \<times> xtables" where
  "wrap_err msg m = (case m of (Inl (Err e), k) \<Rightarrow> (Inl (Err (msg @ e)), k) | _ \<Rightarrow> m)"


section \<open>Rules and chains\<close>

text \<open>\<open>ProgramRule\<close>: add the rule only if absent, remove it only if present.\<close>

definition ProgramRule ::
  "IPTable \<Rightarrow> Table \<Rightarrow> string \<Rightarrow> Action \<Rightarrow> string list \<Rightarrow> xtables \<Rightarrow> (ipt_err + unit) \<times> xtables" where
  "ProgramRule it t chain action args k =
     (if Exists it t chain args k \<noteq> (action = Delete) then (Inr (), k)
      else RawCombinedOutput it ([''-t'', t, action, chain] @ args) k)"

definition NewChain :: "IPTable \<Rightarrow> string \<Rightarrow> Table \<Rightarrow> xtables \<Rightarrow> (ipt_err + ChainInfo) \<times> xtables" where
  "NewChain it name t k =
     (let ci = \<lparr>ci_Name = name, ci_Table = t, ci_IPVersion = ipVersion it\<rparr> in
      if name = '''' then (Inl (Err ''could not create chain: chain name is empty''), k)
      else if t = '''' then (Inl (Err (''could not create chain '' @ name @ '': invalid table name: table name is empty'')), k)
      else case Raw it [''-t'', t, ''-n'', ''-L'', name] k of
             (Inr _, k1) \<Rightarrow> (Inr ci, k1)
           | (Inl _, k1) \<Rightarrow>
               (case Raw it [''-t'', t, ''-N'', name] k1 of
                  (Inl e, k2) \<Rightarrow> (Inl e, k2)
                | (Inr out, k2) \<Rightarrow>
                    if out \<noteq> '''' then (Inl (Err (''could not create '' @ t @ ''/'' @ name @ '' chain: '' @ out)), k2)
                    else (Inr ci, k2)))"

definition chainError :: "string \<Rightarrow> string \<Rightarrow> ipt_err" where
  "chainError c out = Err (''error iptables '' @ c @ '': '' @ out)"

definition Prerouting :: "ChainInfo \<Rightarrow> Action \<Rightarrow> string list \<Rightarrow> xtables \<Rightarrow> (ipt_err + unit) \<times> xtables" where
  "Prerouting c action args k =
     (case GetIptable (ci_IPVersion c) of
        Inl e \<Rightarrow> (Inl e, k)
      | Inr it \<Rightarrow>
          (case Raw it ([''-t'', Nat, action, ''PREROUTING''] @ args) k of
             (Inl e, k') \<Rightarrow> (Inl e, k')
           | (Inr out, k') \<Rightarrow> if out \<noteq> '''' then (Inl (chainError ''PREROUTING'' out), k') else (Inr (), k')))"

definition Output :: "ChainInfo \<Rightarrow> Action \<Rightarrow> string list \<Rightarrow> xtables \<Rightarrow> (ipt_err + unit) \<times> xtables" where
  "Output c action args k =
     (case GetIptable (ci_IPVersion c) of
        Inl e \<Rightarrow> (Inl e, k)
      | Inr it \<Rightarrow>
          (case Raw it ([''-t'', ci_Table c, action, ''OUTPUT''] @ args) k of
             (Inl e, k') \<Rightarrow> (Inl e, k')
           | (Inr out, k') \<Rightarrow> if out \<noteq> '''' then (Inl (chainError ''OUTPUT'' out), k') else (Inr (), k')))"

text \<open>\<open>Remove\<close>: unhook a NAT chain, then flush and delete it; every error but a panic is dropped.\<close>

definition Remove :: "ChainInfo \<Rightarrow> xtables \<Rightarrow> (ipt_err + unit) \<times> xtables" where
  "Remove c k =
     ibind
       (if ci_Table c = Nat then
          ibind (ignore_err (Prerouting c Delete [''-m'', ''addrtype'', ''--dst-type'', ''LOCAL'', ''-j'', ci_Name c] k))
          (\<lambda>_ k1. case loopbackAddress (ci_IPVersion c) of
             Inl e \<Rightarrow> (Inl e, k1)
           | Inr lo \<Rightarrow>
               ibind (ignore_err (Output c Delete [''-m'', ''addrtype'', ''--dst-type'', ''LOCAL'', ''!'', ''--dst'', lo,
                                                  ''-j'', ci_Name c] k1))
               (\<lambda>_ k2. ibind (ignore_err (Output c Delete [''-m'', ''addrtype'', ''--dst-type'', ''LOCAL'', ''-j'', ci_Name c] k2))
               (\<lambda>_ k3. ibind (ignore_err (Prerouting c Delete [] k3))
               (\<lambda>_ k4. ignore_err (Output c Delete [] k4)))))
        else (Inr (), k))
       (\<lambda>_ k5. case GetIptable (ci_IPVersion c) of
          Inl e \<Rightarrow> (Inl e, k5)
        | Inr it \<Rightarrow>
            ibind (ignore_err (Raw it [''-t'', ci_Table c, ''-F'', ci_Name c] k5))
            (\<lambda>_ k6. ignore_err (Raw it [''-t'', ci_Table c, ''-X'', ci_Name c] k6)))"

definition RemoveExistingChain :: "IPTable \<Rightarrow> string \<Rightarrow> Table \<Rightarrow> xtables \<Rightarrow> (ipt_err + unit) \<times> xtables" where
  "RemoveExistingChain it name t k =
     (if name = '''' then (Inl (Err ''could not remove chain: chain name is empty''), k)
      else if t = '''' then (Inl (Err (''could not remove chain '' @ name @ '': invalid table name: table name is empty'')), k)
      else Remove \<lparr>ci_Name = name, ci_Table = t, ci_IPVersion = ipVersion it\<rparr> k)"

text \<open>
  \<open>Link\<close>: accept traffic from \<open>ip1\<close> to \<open>ip2\<close> on the port and back; the reverse
  rule swaps the addresses (the slice's elements 7 and 9) and matches the source port.
\<close>

definition Link ::
  "ChainInfo \<Rightarrow> Action \<Rightarrow> string \<Rightarrow> string \<Rightarrow> int \<Rightarrow> string \<Rightarrow> string \<Rightarrow> xtables \<Rightarrow> (ipt_err + unit) \<times> xtables" where
  "Link c action ip1 ip2 port proto bridgeName k =
     (case GetIptable (ci_IPVersion c) of
        Inl e \<Rightarrow> (Inl e, k)
      | Inr it \<Rightarrow>
          (let args = [''-i'', bridgeName, ''-o'', bridgeName, ''-p'', proto, ''-s'', ip1, ''-d'', ip2,
                       ''--dport'', itoa port, ''-j'', ''ACCEPT'']
           in ibind (ProgramRule it Filter (ci_Name c) action args k)
                (\<lambda>_ k1. ProgramRule it Filter (ci_Name c) action (args[7 := args ! 9, 9 := args ! 7, 10 := ''--sport'']) k1)))"

definition ExistChain :: "IPTable \<Rightarrow> string \<Rightarrow> Table \<Rightarrow> xtables \<Rightarrow> bool" where
  "ExistChain it chain t k = (\<not> isl (fst (Raw it [''-t'', t, ''-nL'', chain] k)))"

definition FlushChain :: "IPTable \<Rightarrow> Table \<Rightarrow> string \<Rightarrow> xtables \<Rightarrow> (ipt_err + unit) \<times> xtables" where
  "FlushChain it t chain k =
     (if \<not> ExistChain it chain t k then (Inr (), k) else RawCombinedOutput it [''-t'', t, ''-F'', chain] k)"

definition SetDefaultPolicy :: "IPTable \<Rightarrow> Table \<Rightarrow> string \<Rightarrow> string \<Rightarrow> xtables \<Rightarrow> (ipt_err + unit) \<times> xtables" where
  "SetDefaultPolicy it t chain policy k =
     wrap_err (''setting default policy to '' @ policy @ '' in '' @ chain @ '' chain failed: '')
       (RawCombinedOutput it [''-t'', t, ''-P'', chain, policy] k)"

definition AddReturnRule :: "IPTable \<Rightarrow> Table \<Rightarrow> string \<Rightarrow> xtables \<Rightarrow> (ipt_err + unit) \<times> xtables" where
  "AddReturnRule it t chain k =
     (if Exists it t chain [''-j'', ''RETURN''] k then (Inr (), k)
      else wrap_err (''unable to add return rule in '' @ chain @ '' chain: '')
             (RawCombinedOutput it [''-t'', t, ''-A'', chain, ''-j'', ''RETURN''] k))"

definition DeleteJumpRule ::
  "IPTable \<Rightarrow> Table \<Rightarrow> string \<Rightarrow> string \<Rightarrow> string list \<Rightarrow> xtables \<Rightarrow> (ipt_err + unit) \<times> xtables" where
  "DeleteJumpRule it t fromChain toChain rule k =
     (let rule' = rule @ [''-j'', toChain] in
      if Exists it t fromChain rule' k then
        wrap_err (''unable to remove jump to '' @ toChain @ '' rule in '' @ fromChain @ '' chain: '')
          (RawCombinedOutput it ([''-t'', t, ''-D'', fromChain] @ rule') k)
      else (Inr (), k))"

definition EnsureJumpRule ::
  "IPTable \<Rightarrow> Table \<Rightarrow> string \<Rightarrow> string \<Rightarrow> string list \<Rightarrow> xtables \<Rightarrow> (ipt_err + unit) \<times> xtables" where
  "EnsureJumpRule it t fromChain toChain rule k =
     ibind (DeleteJumpRule it t fromChain toChain rule k)
       (\<lambda>_ k1. wrap_err (''unable to insert jump to '' @ toChain @ '' rule in '' @ fromChain @ '' chain: '')
                 (RawCombinedOutput it ([''-t'', t, ''-I'', fromChain] @ rule @ [''-j'', toChain]) k1))"

section \<open>The \<open>Rule\<close> type\<close>

record Rule =
  IPVer :: IPVersion
  rTable :: Table
  rChain :: string
  rArgs :: "string list"

definition Rule_Exists :: "Rule \<Rightarrow> xtables \<Rightarrow> ipt_err + bool" where
  "Rule_Exists r k =
     (case GetIptable (IPVer r) of Inl e \<Rightarrow> Inl e | Inr it \<Rightarrow> Inr (Exists it (rTable r) (rChain r) (rArgs r) k))"

definition cmdArgs :: "Rule \<Rightarrow> Action \<Rightarrow> string list" where
  "cmdArgs r op = [''-t'', rTable r, op, rChain r] @ rArgs r"

definition Rule_exec :: "Rule \<Rightarrow> Action \<Rightarrow> xtables \<Rightarrow> (ipt_err + unit) \<times> xtables" where
  "Rule_exec r op k =
     (case GetIptable (IPVer r) of Inl e \<Rightarrow> (Inl e, k) | Inr it \<Rightarrow> RawCombinedOutput it (cmdArgs r op) k)"

definition WithChain :: "Rule \<Rightarrow> string \<Rightarrow> Rule" where
  "WithChain r chain = r\<lparr>rChain := chain\<rparr>"

definition ensure :: "Rule \<Rightarrow> Action \<Rightarrow> xtables \<Rightarrow> (ipt_err + unit) \<times> xtables" where
  "ensure r op k =
     (case Rule_Exists r k of
        Inl e \<Rightarrow> (Inl e, k)
      | Inr True \<Rightarrow> (Inr (), k)
      | Inr False \<Rightarrow> Rule_exec r op k)"

definition Rule_Append :: "Rule \<Rightarrow> xtables \<Rightarrow> (ipt_err + unit) \<times> xtables" where
  "Rule_Append r = ensure r Append"

definition Rule_Insert :: "Rule \<Rightarrow> xtables \<Rightarrow> (ipt_err + unit) \<times> xtables" where
  "Rule_Insert r = ensure r Insert"

definition Rule_Delete :: "Rule \<Rightarrow> xtables \<Rightarrow> (ipt_err + unit) \<times> xtables" where
  "Rule_Delete r k =
     (case Rule_Exists r k of
        Inl e \<Rightarrow> (Inl e, k)
      | Inr False \<Rightarrow> (Inr (), k)
      | Inr True \<Rightarrow> Rule_exec r Delete k)"

definition Rule_String :: "Rule \<Rightarrow> string" where
  "Rule_String r =
     (let cmd = ''iptables'' # cmdArgs r ''-A''
      in join_space (if IPVer r = IPv6 then cmd[0 := ''ip6tables''] else cmd))"

lemmas ipt_defs =
  xt_out_def chain_edit_def xt_chain_op_def xt_run_def xt_cmd_def passthrough_def loopbackAddress_def initCheck_def detectIptables_def initFirewalld_def initDependencies_def GetIptable_def
  filterOutput_def raw_def Raw_def RawCombinedOutput_def RawCombinedOutputNative_def exists_def Exists_def ExistsNative_def ibind_def ignore_err_def
  wrap_err_def ProgramRule_def NewChain_def chainError_def Prerouting_def Output_def Remove_def
  RemoveExistingChain_def Link_def ExistChain_def FlushChain_def SetDefaultPolicy_def AddReturnRule_def
  DeleteJumpRule_def EnsureJumpRule_def Rule_Exists_def cmdArgs_def Rule_exec_def WithChain_def
  ensure_def Rule_Append_def Rule_Insert_def Rule_Delete_def Rule_String_def


section \<open>The Go layer runs the binary's semantics\<close>

text \<open>
  When a command is carried out at all: through firewalld's passthrough, or by a
  binary that was found for the IP version.
\<close>

definition runs :: "xtables \<Rightarrow> IPVersion \<Rightarrow> bool" where
  "runs k v \<longleftrightarrow> (xt_firewalld k \<and> \<not> xt_fw_noservice k) \<or> (xt_iptables k \<and> (v = IPv6 \<longrightarrow> xt_ip6tables k))"

text \<open>A rule is in a chain of the tables.\<close>

definition rule_in :: "xtables \<Rightarrow> chain_key \<Rightarrow> string list \<Rightarrow> bool" where
  "rule_in k key rule \<longleftrightarrow> (\<exists>rs. xt_chains k key = Some rs \<and> rule \<in> set rs)"

text \<open>Every chain is free of duplicate rules.\<close>

definition xt_distinct :: "xtables \<Rightarrow> bool" where
  "xt_distinct k \<longleftrightarrow> (\<forall>key rs. xt_chains k key = Some rs \<longrightarrow> distinct rs)"

lemma xt_out_filtered [simp]: "filterOutput (xt_out k) = ''''"
  by (simp add: filterOutput_def xt_out_def xLockWaitMsg_def)

lemma xt_chain_op_out: "fst (xt_chain_op v t op c rule k) = Inr out \<Longrightarrow> out = xt_out k"
  by (auto simp: xt_chain_op_def split: sum.splits)

lemma xt_cmd_out: "fst (xt_cmd v args k) = Inr out \<Longrightarrow> out = xt_out k"
  by (auto simp: xt_cmd_def xt_run_def dest: xt_chain_op_out split: sum.splits prod.splits xt_command.splits if_splits)

text \<open>A command changes the chains and the policies only.\<close>

lemma xt_cmd_frame:
  "snd (xt_cmd v args k) = k\<lparr>xt_chains := xt_chains (snd (xt_cmd v args k)), xt_policy := xt_policy (snd (xt_cmd v args k))\<rparr>"
  by (auto simp: xt_cmd_def xt_run_def xt_chain_op_def split: sum.splits prod.splits xt_command.splits)

lemma xt_cmd_state: "\<exists>cs p. snd (xt_cmd v args k) = k\<lparr>xt_chains := cs, xt_policy := p\<rparr>"
  using xt_cmd_frame by blast

lemma xt_cmd_flags:
  "xt_iptables (snd (xt_cmd v args k)) = xt_iptables k \<and> xt_ip6tables (snd (xt_cmd v args k)) = xt_ip6tables k
   \<and> xt_firewalld (snd (xt_cmd v args k)) = xt_firewalld k \<and> xt_fw_noservice (snd (xt_cmd v args k)) = xt_fw_noservice k
   \<and> xt_contention (snd (xt_cmd v args k)) = xt_contention k"
  using xt_cmd_state [of v args k] by auto

text \<open>The binary's own error messages never say that firewalld lacks the interface.\<close>

lemma xt_parse_err:
  "xt_parse args = Inl e \<Longrightarrow> e = ''Bad argument.'' \<or> e = ''can't initialize iptables table: Table does not exist.''"
  by (induction args rule: xt_parse.induct) (auto split: if_splits list.splits)

lemma xt_cmd_err:
  "fst (xt_cmd v args k) = Inl e \<Longrightarrow>
   e \<in> {''Bad argument.'', ''can't initialize iptables table: Table does not exist.'',
        ''No chain/target/match by that name.'', ''Bad built-in chain name.'',
        ''Bad rule (does a matching rule exist in that chain?).'', ''Chain already exists.''}"
  by (auto simp: xt_cmd_def xt_run_def xt_chain_op_def chain_edit_def dest: xt_parse_err
           split: sum.splits prod.splits xt_command.splits if_splits option.splits)

lemma xt_cmd_err_not_noservice:
  "fst (xt_cmd v args k) = Inl e \<Longrightarrow> \<not> contains_str ''was not provided by any .service files'' e"
  by (drule xt_cmd_err) auto

lemma raw_runs:
  assumes "xt_iptables k" "ipVersion it = IPv6 \<longrightarrow> xt_ip6tables k"
  shows "snd (raw it args k) = snd (xt_cmd (ipVersion it) args k)
         \<and> isl (fst (raw it args k)) = isl (fst (xt_cmd (ipVersion it) args k))
         \<and> (\<forall>out. fst (xt_cmd (ipVersion it) args k) = Inr out \<longrightarrow> fst (raw it args k) = Inr (filterOutput out))"
  using assms by (auto simp: raw_def initCheck_def Let_def split: prod.splits sum.splits)

lemma Raw_runs:
  assumes "runs k (ipVersion it)"
  shows "snd (Raw it args k) = snd (xt_cmd (ipVersion it) args k)
         \<and> isl (fst (Raw it args k)) = isl (fst (xt_cmd (ipVersion it) args k))
         \<and> (\<forall>out. fst (xt_cmd (ipVersion it) args k) = Inr out \<longrightarrow> fst (Raw it args k) = Inr (filterOutput out))"
proof (cases "xt_firewalld k \<and> \<not> xt_fw_noservice k")
  case True
  then show ?thesis using xt_cmd_err_not_noservice [of "ipVersion it" args k]
    by (auto simp: Raw_def passthrough_def split: prod.splits sum.splits)
next
  case False
  then have r: "Raw it args k = raw it args k"
    by (auto simp: Raw_def passthrough_def)
  from False assms have "xt_iptables k" "ipVersion it = IPv6 \<longrightarrow> xt_ip6tables k" by (auto simp: runs_def)
  then show ?thesis unfolding r by (rule raw_runs)
qed

lemma Raw_not_runs:
  assumes "\<not> runs k (ipVersion it)"
  shows "snd (Raw it args k) = k \<and> isl (fst (Raw it args k))"
  using assms by (auto simp: runs_def Raw_def passthrough_def raw_def initCheck_def)

text \<open>A command succeeds with no output once the lock warning is filtered.\<close>

lemma RawCombinedOutput_runs:
  assumes "runs k (ipVersion it)"
  shows "snd (RawCombinedOutput it args k) = snd (xt_cmd (ipVersion it) args k)
         \<and> isl (fst (RawCombinedOutput it args k)) = isl (fst (xt_cmd (ipVersion it) args k))"
proof (cases "fst (xt_cmd (ipVersion it) args k)")
  case (Inl e)
  with Raw_runs [OF assms, of args] show ?thesis
    by (auto simp: RawCombinedOutput_def split: prod.splits sum.splits)
next
  case (Inr out)
  then have "out = xt_out k" by (rule xt_cmd_out)
  with Inr Raw_runs [OF assms, of args] show ?thesis
    by (auto simp: RawCombinedOutput_def split: prod.splits sum.splits)
qed

lemma RawCombinedOutput_not_runs:
  "\<not> runs k (ipVersion it) \<Longrightarrow> snd (RawCombinedOutput it args k) = k \<and> isl (fst (RawCombinedOutput it args k))"
  using Raw_not_runs [of k it args] by (auto simp: RawCombinedOutput_def split: prod.splits sum.splits)

text \<open>The check command \<open>-C\<close> reads the tables only.\<close>

lemma xt_cmd_check:
  "t \<noteq> '''' \<Longrightarrow> isl (fst (xt_cmd v ([''-t'', t, ''-C'', c] @ rule) k)) \<longleftrightarrow> \<not> rule_in k (v, t, c) rule"
  by (auto simp: xt_cmd_def xt_run_def chain_edit_def xt_chain_op_def rule_in_def Let_def split: option.splits sum.splits)

lemma xt_cmd_check_state: "snd (xt_cmd v ([''-t'', t, ''-C'', c] @ rule) k) = k"
  by (auto simp: xt_cmd_def xt_run_def chain_edit_def xt_chain_op_def Let_def fun_upd_idem split: option.splits sum.splits)

lemma Exists_iff:
  assumes "xt_iptables k" "runs k (ipVersion it)"
  shows "Exists it t c rule k \<longleftrightarrow> rule_in k (ipVersion it, if t = '''' then Filter else t, c) rule"
proof -
  have "(if t = '''' then Filter else t) \<noteq> ''''" by (simp add: Filter_def)
  then show ?thesis using assms Raw_runs [OF assms(2)] xt_cmd_check
    by (auto simp: Exists_def exists_def initCheck_def Let_def)
qed

end
