(* ===== verification/IptablesProps.thy ===== *)
theory IptablesProps
  imports Iptables
begin

text \<open>
  Properties of the iptables package over the binary's semantics: every exported
  operation keeps the chains free of duplicate rules when the binary is present
  (composed as a sequence of operations \<open>ipt_run\<close>), the functional behaviour of
  the rule and chain operations, their refinement of a set-of-rules view, round trips,
  and what happens when the binary is missing.
\<close>

section \<open>The distinctness invariant\<close>

text \<open>A command that would append or insert a rule already in its chain.\<close>

fun dup_add :: "xtables \<Rightarrow> IPVersion \<Rightarrow> string list \<Rightarrow> bool" where
  "dup_add k v (t1 # t # op # c # rule) =
     (t1 = ''-t'' \<and> t \<noteq> '''' \<and> (op = ''-A'' \<or> op = ''-I'') \<and> rule_in k (v, t, c) rule)"
| "dup_add k v _ = False"

definition ipt_inv :: "xtables \<Rightarrow> bool" where
  "ipt_inv k \<longleftrightarrow> xt_iptables k \<and> xt_distinct k"

text \<open>The operations the package exports, as one step on the tables; the result is dropped.\<close>

datatype ipt_op =
    NewChainOp IPTable string Table
  | RemoveExistingChainOp IPTable string Table
  | RemoveOp ChainInfo
  | ProgramRuleOp IPTable Table string Action "string list"
  | LinkOp ChainInfo Action string string int string string
  | FlushChainOp IPTable Table string
  | SetDefaultPolicyOp IPTable Table string string
  | AddReturnRuleOp IPTable Table string
  | EnsureJumpRuleOp IPTable Table string string "string list"
  | DeleteJumpRuleOp IPTable Table string string "string list"
  | RuleAppendOp Rule
  | RuleInsertOp Rule
  | RuleDeleteOp Rule

fun ipt_step :: "ipt_op \<Rightarrow> xtables \<Rightarrow> xtables" where
  "ipt_step (NewChainOp it n t) k = snd (NewChain it n t k)"
| "ipt_step (RemoveExistingChainOp it n t) k = snd (RemoveExistingChain it n t k)"
| "ipt_step (RemoveOp c) k = snd (Remove c k)"
| "ipt_step (ProgramRuleOp it t c a args) k = snd (ProgramRule it t c a args k)"
| "ipt_step (LinkOp c a ip1 ip2 port proto br) k = snd (Link c a ip1 ip2 port proto br k)"
| "ipt_step (FlushChainOp it t c) k = snd (FlushChain it t c k)"
| "ipt_step (SetDefaultPolicyOp it t c p) k = snd (SetDefaultPolicy it t c p k)"
| "ipt_step (AddReturnRuleOp it t c) k = snd (AddReturnRule it t c k)"
| "ipt_step (EnsureJumpRuleOp it t f to rule) k = snd (EnsureJumpRule it t f to rule k)"
| "ipt_step (DeleteJumpRuleOp it t f to rule) k = snd (DeleteJumpRule it t f to rule k)"
| "ipt_step (RuleAppendOp r) k = snd (Rule_Append r k)"
| "ipt_step (RuleInsertOp r) k = snd (Rule_Insert r k)"
| "ipt_step (RuleDeleteOp r) k = snd (Rule_Delete r k)"

definition ipt_run :: "ipt_op list \<Rightarrow> xtables \<Rightarrow> xtables" where
  "ipt_run ops k = fold ipt_step ops k"

text \<open>Tables with a \<open>DOCKER\<close> chain holding a return rule and an empty \<open>FORWARD\<close> chain.\<close>

definition demo_xt :: xtables where
  "demo_xt = \<lparr>xt_chains = [(IPv4, Filter, ''DOCKER'') \<mapsto> [[''-j'', ''RETURN'']], (IPv4, Filter, ''FORWARD'') \<mapsto> []],
              xt_policy = Map.empty, xt_iptables = True, xt_ip6tables = True, xt_firewalld = False,
              xt_fw_noservice = False, xt_contention = True\<rparr>"

text \<open>The two rules \<open>Link\<close> programs: forward, and the reverse built by swapping slice elements.\<close>

definition link_fwd :: "string \<Rightarrow> string \<Rightarrow> int \<Rightarrow> string \<Rightarrow> string \<Rightarrow> string list" where
  "link_fwd ip1 ip2 port proto br =
     [''-i'', br, ''-o'', br, ''-p'', proto, ''-s'', ip1, ''-d'', ip2, ''--dport'', itoa port, ''-j'', ''ACCEPT'']"

definition link_rev :: "string \<Rightarrow> string \<Rightarrow> int \<Rightarrow> string \<Rightarrow> string \<Rightarrow> string list" where
  "link_rev ip1 ip2 port proto br =
     [''-i'', br, ''-o'', br, ''-p'', proto, ''-s'', ip2, ''-d'', ip1, ''--sport'', itoa port, ''-j'', ''ACCEPT'']"

text \<open>The abstract view of the tables: each chain as the set of its rules.\<close>

definition rule_sets :: "xtables \<Rightarrow> chain_key \<Rightarrow> string list set option" where
  "rule_sets k key = map_option set (xt_chains k key)"

text \<open>Neither the binary nor firewalld's passthrough can carry out a command.\<close>

definition no_engine :: "xtables \<Rightarrow> bool" where
  "no_engine k \<longleftrightarrow> \<not> xt_iptables k \<and> \<not> (xt_firewalld k \<and> \<not> xt_fw_noservice k)"

section \<open>Operations keep the invariant\<close>

lemma chain_edit_distinct:
  "chain_edit op rule e = Inr e' \<Longrightarrow> (\<And>rs. e = Some rs \<Longrightarrow> distinct rs) \<Longrightarrow>
   (\<And>rs. e = Some rs \<Longrightarrow> op = ''-A'' \<or> op = ''-I'' \<Longrightarrow> rule \<notin> set rs) \<Longrightarrow> e' = Some rs' \<Longrightarrow> distinct rs'"
  by (auto simp: chain_edit_def split: option.splits if_splits)

lemma xt_chain_op_distinct:
  assumes "xt_distinct k" "op = ''-A'' \<or> op = ''-I'' \<Longrightarrow> \<not> rule_in k (v, t, c) rule"
  shows "xt_distinct (snd (xt_chain_op v t op c rule k))"
  using assms chain_edit_distinct [of op rule "xt_chains k (v, t, c)"]
  by (auto simp: xt_chain_op_def xt_distinct_def rule_in_def split: sum.splits)

lemma xt_parse_ChainOp:
  "xt_parse args = Inr (t, ChainOp op c rest) \<Longrightarrow> args = ''-t'' # t # op # c # rest \<and> t \<noteq> ''''"
  by (induction args rule: xt_parse.induct) (auto split: if_splits list.splits)

lemma xt_cmd_distinct:
  assumes "xt_distinct k" "\<not> dup_add k v args"
  shows "xt_distinct (snd (xt_cmd v args k))"
proof (cases "xt_parse args")
  case (Inr tc)
  obtain t cmd where tc: "tc = (t, cmd)" by fastforce
  show ?thesis
  proof (cases cmd)
    case (ChainOp op c rest)
    with Inr tc have "args = ''-t'' # t # op # c # rest \<and> t \<noteq> ''''" by (simp add: xt_parse_ChainOp)
    with Inr tc ChainOp assms show ?thesis by (auto simp: xt_cmd_def xt_run_def intro: xt_chain_op_distinct)
  qed (use Inr tc assms in \<open>auto simp: xt_cmd_def xt_run_def xt_distinct_def\<close>)
qed (use assms in \<open>simp add: xt_cmd_def\<close>)

lemma Raw_state:
  "snd (Raw it args k) = (if runs k (ipVersion it) then snd (xt_cmd (ipVersion it) args k) else k)"
  using Raw_runs [of k it args] Raw_not_runs [of k it args] by simp

lemma RawCombinedOutput_state:
  "snd (RawCombinedOutput it args k) = snd (Raw it args k)"
  by (simp add: RawCombinedOutput_def split: prod.splits sum.splits)

lemma RawCombinedOutput_cmd_ok:
  "runs k (ipVersion it) \<Longrightarrow> xt_cmd (ipVersion it) args k = (Inr out, k')
   \<Longrightarrow> RawCombinedOutput it args k = (Inr (), k')"
  using Raw_runs [of k it args] xt_cmd_out [of "ipVersion it" args k out]
  by (auto simp: RawCombinedOutput_def split: prod.splits sum.splits)

lemma RawCombinedOutput_cmd_err:
  "runs k (ipVersion it) \<Longrightarrow> xt_cmd (ipVersion it) args k = (Inl e, k')
   \<Longrightarrow> \<exists>e'. RawCombinedOutput it args k = (Inl e', k')"
  using Raw_runs [of k it args]
  by (auto simp: RawCombinedOutput_def isl_def split: prod.splits sum.splits)

lemma xt_cmd_A:
  "t \<noteq> '''' \<Longrightarrow> xt_chains k (v, t, c) = Some rs \<Longrightarrow>
   xt_cmd v ([''-t'', t, ''-A'', c] @ rule) k = (Inr (xt_out k), k\<lparr>xt_chains := (xt_chains k)((v, t, c) \<mapsto> rs @ [rule])\<rparr>)"
  by (simp add: xt_cmd_def xt_run_def chain_edit_def xt_chain_op_def)

lemma xt_cmd_I:
  "t \<noteq> '''' \<Longrightarrow> xt_chains k (v, t, c) = Some rs \<Longrightarrow>
   xt_cmd v ([''-t'', t, ''-I'', c] @ rule) k = (Inr (xt_out k), k\<lparr>xt_chains := (xt_chains k)((v, t, c) \<mapsto> rule # rs)\<rparr>)"
  by (simp add: xt_cmd_def xt_run_def chain_edit_def xt_chain_op_def)

lemma xt_cmd_D:
  "t \<noteq> '''' \<Longrightarrow> xt_chains k (v, t, c) = Some rs \<Longrightarrow> rule \<in> set rs \<Longrightarrow>
   xt_cmd v ([''-t'', t, ''-D'', c] @ rule) k = (Inr (xt_out k), k\<lparr>xt_chains := (xt_chains k)((v, t, c) \<mapsto> remove1 rule rs)\<rparr>)"
  by (simp add: xt_cmd_def xt_run_def chain_edit_def xt_chain_op_def)

lemma xt_cmd_AID_missing:
  "t \<noteq> '''' \<Longrightarrow> xt_chains k (v, t, c) = None \<Longrightarrow> op = ''-A'' \<or> op = ''-I'' \<or> op = ''-D'' \<Longrightarrow>
   xt_cmd v ([''-t'', t, op, c] @ rule) k = (Inl ''No chain/target/match by that name.'', k)"
  by (auto simp: xt_cmd_def xt_run_def chain_edit_def xt_chain_op_def)

lemma ibind_state:
  "P (snd m) \<Longrightarrow> (\<And>a k. P k \<Longrightarrow> P (snd (f a k))) \<Longrightarrow> P (snd (ibind m f))"
  by (auto simp: ibind_def split: prod.splits sum.splits)

lemma ignore_err_state [simp]: "snd (ignore_err m) = snd m"
  by (auto simp: ignore_err_def split: prod.splits sum.splits ipt_err.splits)

lemma wrap_err_state [simp]: "snd (wrap_err msg m) = snd m"
  by (auto simp: wrap_err_def split: prod.splits sum.splits ipt_err.splits)

lemma Raw_inv:
  "ipt_inv k \<Longrightarrow> (runs k (ipVersion it) \<Longrightarrow> \<not> dup_add k (ipVersion it) args) \<Longrightarrow> ipt_inv (snd (Raw it args k))"
  using xt_cmd_flags [of "ipVersion it" args k] xt_cmd_distinct [of k "ipVersion it" args]
  by (auto simp: Raw_state ipt_inv_def)

lemma Raw_inv_eq:
  "Raw it args k = (r, k') \<Longrightarrow> ipt_inv k \<Longrightarrow> (runs k (ipVersion it) \<Longrightarrow> \<not> dup_add k (ipVersion it) args)
   \<Longrightarrow> ipt_inv k'"
  using Raw_inv [of k it args] by simp

lemma RawCombinedOutput_inv:
  "ipt_inv k \<Longrightarrow> (runs k (ipVersion it) \<Longrightarrow> \<not> dup_add k (ipVersion it) args) \<Longrightarrow> ipt_inv (snd (RawCombinedOutput it args k))"
  by (simp add: RawCombinedOutput_state Raw_inv)

lemma not_Exists_no_dup:
  "ipt_inv k \<Longrightarrow> runs k (ipVersion it) \<Longrightarrow> \<not> Exists it t c rule k \<Longrightarrow>
   \<not> dup_add k (ipVersion it) ([''-t'', t, op, c] @ rule)"
  using Exists_iff [of k it t c rule] by (auto simp: ipt_inv_def)

lemma ProgramRule_inv: "ipt_inv k \<Longrightarrow> ipt_inv (snd (ProgramRule it t c action args k))"
  unfolding ProgramRule_def
  by (auto intro!: RawCombinedOutput_inv dest: not_Exists_no_dup simp: Delete_def)

lemma NewChain_inv: "ipt_inv k \<Longrightarrow> ipt_inv (snd (NewChain it name t k))"
  unfolding NewChain_def Let_def
  by (auto split: prod.splits sum.splits elim!: Raw_inv_eq)

lemma Prerouting_inv: "ipt_inv k \<Longrightarrow> ipt_inv (snd (Prerouting c Delete args k))"
  unfolding Prerouting_def
  by (auto split: prod.splits sum.splits elim!: Raw_inv_eq simp: Delete_def)

lemma Output_inv: "ipt_inv k \<Longrightarrow> ipt_inv (snd (Output c Delete args k))"
  unfolding Output_def
  by (auto split: prod.splits sum.splits elim!: Raw_inv_eq simp: Delete_def)


lemma ibind_inv:
  "ipt_inv (snd m) \<Longrightarrow> (\<And>a k. ipt_inv k \<Longrightarrow> ipt_inv (snd (f a k))) \<Longrightarrow> ipt_inv (snd (ibind m f))"
  by (rule ibind_state)

lemma Remove_inv: "ipt_inv k \<Longrightarrow> ipt_inv (snd (Remove c k))"
  unfolding Remove_def
  by (auto intro!: ibind_inv Prerouting_inv Output_inv Raw_inv split: sum.split)

lemma RemoveExistingChain_inv: "ipt_inv k \<Longrightarrow> ipt_inv (snd (RemoveExistingChain it name t k))"
  unfolding RemoveExistingChain_def by (simp add: Remove_inv)


lemma Link_inv: "ipt_inv k \<Longrightarrow> ipt_inv (snd (Link c action ip1 ip2 port proto bridgeName k))"
  unfolding Link_def Let_def
  by (auto intro!: ibind_inv ProgramRule_inv split: sum.split)

lemma FlushChain_inv: "ipt_inv k \<Longrightarrow> ipt_inv (snd (FlushChain it t chain k))"
  unfolding FlushChain_def by (auto intro!: RawCombinedOutput_inv)

lemma SetDefaultPolicy_inv: "ipt_inv k \<Longrightarrow> ipt_inv (snd (SetDefaultPolicy it t chain policy k))"
  unfolding SetDefaultPolicy_def by (auto intro!: RawCombinedOutput_inv)

lemma AddReturnRule_inv: "ipt_inv k \<Longrightarrow> ipt_inv (snd (AddReturnRule it t chain k))"
  unfolding AddReturnRule_def
  by (auto intro!: RawCombinedOutput_inv dest: not_Exists_no_dup)

lemma DeleteJumpRule_inv: "ipt_inv k \<Longrightarrow> ipt_inv (snd (DeleteJumpRule it t f to rule k))"
  unfolding DeleteJumpRule_def Let_def
  by (auto intro!: RawCombinedOutput_inv)

lemma wrap_err_Inr [simp]: "(wrap_err msg m = (Inr a, k')) = (m = (Inr a, k'))"
  by (auto simp: wrap_err_def split: prod.splits sum.splits ipt_err.splits)

lemma ipt_inv_remove1:
  assumes "ipt_inv k" "xt_chains k key = Some rs"
  shows "ipt_inv (k\<lparr>xt_chains := (xt_chains k)(key \<mapsto> remove1 r rs)\<rparr>)
         \<and> \<not> rule_in (k\<lparr>xt_chains := (xt_chains k)(key \<mapsto> remove1 r rs)\<rparr>) key r"
proof -
  from assms have "distinct rs" unfolding ipt_inv_def xt_distinct_def by blast
  with assms show ?thesis by (auto simp: ipt_inv_def xt_distinct_def rule_in_def)
qed

lemma Exists_runs: "Exists it t c rule k \<Longrightarrow> runs k (ipVersion it)"
  using Raw_not_runs [of k it] by (auto simp: Exists_def exists_def Let_def split: option.splits)

text \<open>After a successful \<open>DeleteJumpRule\<close> the jump is in no chain it named.\<close>

lemma DeleteJumpRule_gone:
  assumes inv: "ipt_inv k" and ok: "DeleteJumpRule it t f to rule k = (Inr u, k1)"
    and r1: "runs k1 (ipVersion it)"
  shows "\<not> dup_add k1 (ipVersion it) ([''-t'', t, ''-I'', f] @ rule @ [''-j'', to])"
proof (cases "Exists it t f (rule @ [''-j'', to]) k")
  case True
  let ?v = "ipVersion it" and ?r = "rule @ [''-j'', to]"
  have r: "runs k ?v" using True by (rule Exists_runs)
  with inv True have "rule_in k (?v, if t = '''' then Filter else t, f) ?r"
    by (simp add: Exists_iff ipt_inv_def)
  then obtain rs where rs: "xt_chains k (?v, if t = '''' then Filter else t, f) = Some rs" "?r \<in> set rs"
    by (auto simp: rule_in_def)
  show ?thesis
  proof (cases "t = ''''")
    case True
    with ok show ?thesis by simp
  next
    case False
    with rs xt_cmd_D [of t k ?v f rs ?r]
    have "xt_cmd ?v ([''-t'', t, ''-D'', f] @ ?r) k
                  = (Inr (xt_out k), k\<lparr>xt_chains := (xt_chains k)((?v, t, f) \<mapsto> remove1 ?r rs)\<rparr>)"
      by simp
    from RawCombinedOutput_cmd_ok [OF r this] True ok
    have "k1 = k\<lparr>xt_chains := (xt_chains k)((?v, t, f) \<mapsto> remove1 ?r rs)\<rparr>"
      by (simp add: DeleteJumpRule_def)
    with ipt_inv_remove1 [OF inv, of _ rs ?r] rs False show ?thesis by simp
  qed
next
  case False
  with ok have "k1 = k" by (simp add: DeleteJumpRule_def)
  with False inv r1 show ?thesis using not_Exists_no_dup [of k it t f "rule @ [''-j'', to]" "''-I''"] by simp
qed


lemma EnsureJumpRule_inv: "ipt_inv k \<Longrightarrow> ipt_inv (snd (EnsureJumpRule it t f to rule k))"
proof -
  assume inv: "ipt_inv k"
  obtain r k1 where d: "DeleteJumpRule it t f to rule k = (r, k1)" by fastforce
  with DeleteJumpRule_inv [OF inv, of it t f to rule] have i1: "ipt_inv k1" by simp
  show ?thesis
  proof (cases r)
    case (Inl e)
    with d i1 show ?thesis by (simp add: EnsureJumpRule_def ibind_def)
  next
    case (Inr u)
    with d DeleteJumpRule_gone [OF inv] have "runs k1 (ipVersion it) \<Longrightarrow>
        \<not> dup_add k1 (ipVersion it) ([''-t'', t, ''-I'', f] @ rule @ [''-j'', to])" by blast
    with RawCombinedOutput_inv [OF i1] Inr d show ?thesis by (simp add: EnsureJumpRule_def ibind_def)
  qed
qed

lemma ensure_inv: "ipt_inv k \<Longrightarrow> ipt_inv (snd (ensure r op k))"
  unfolding ensure_def Rule_Exists_def Rule_exec_def cmdArgs_def
  by (auto intro!: RawCombinedOutput_inv dest: not_Exists_no_dup split: sum.split bool.split)

lemma Rule_Delete_inv: "ipt_inv k \<Longrightarrow> ipt_inv (snd (Rule_Delete r k))"
  unfolding Rule_Delete_def Rule_Exists_def Rule_exec_def cmdArgs_def
  by (auto intro!: RawCombinedOutput_inv split: sum.split bool.split simp: Delete_def)


lemma ipt_step_inv: "ipt_inv k \<Longrightarrow> ipt_inv (ipt_step op k)"
  by (cases op)
     (simp_all add: NewChain_inv RemoveExistingChain_inv Remove_inv ProgramRule_inv Link_inv FlushChain_inv
        SetDefaultPolicy_inv AddReturnRule_inv EnsureJumpRule_inv DeleteJumpRule_inv ensure_inv
        Rule_Delete_inv Rule_Append_def Rule_Insert_def)

lemma ipt_run_inv: "ipt_inv k \<Longrightarrow> ipt_inv (ipt_run ops k)"
  unfolding ipt_run_def by (induction ops arbitrary: k) (simp_all add: ipt_step_inv)

section \<open>Single operations on the tables\<close>

lemma wrap_err_ok [simp]: "wrap_err msg (Inr a, k) = (Inr a, k)"
  by (simp add: wrap_err_def)

lemma RCO_A:
  "runs k (ipVersion it) \<Longrightarrow> t \<noteq> '''' \<Longrightarrow> xt_chains k (ipVersion it, t, c) = Some rs \<Longrightarrow>
   RawCombinedOutput it (''-t'' # t # ''-A'' # c # rule) k
     = (Inr (), k\<lparr>xt_chains := (xt_chains k)((ipVersion it, t, c) \<mapsto> rs @ [rule])\<rparr>)"
  using RawCombinedOutput_cmd_ok xt_cmd_A by simp

lemma RCO_I:
  "runs k (ipVersion it) \<Longrightarrow> t \<noteq> '''' \<Longrightarrow> xt_chains k (ipVersion it, t, c) = Some rs \<Longrightarrow>
   RawCombinedOutput it (''-t'' # t # ''-I'' # c # rule) k
     = (Inr (), k\<lparr>xt_chains := (xt_chains k)((ipVersion it, t, c) \<mapsto> rule # rs)\<rparr>)"
  using RawCombinedOutput_cmd_ok xt_cmd_I by simp

lemma RCO_D:
  "runs k (ipVersion it) \<Longrightarrow> t \<noteq> '''' \<Longrightarrow> xt_chains k (ipVersion it, t, c) = Some rs \<Longrightarrow> rule \<in> set rs \<Longrightarrow>
   RawCombinedOutput it (''-t'' # t # ''-D'' # c # rule) k
     = (Inr (), k\<lparr>xt_chains := (xt_chains k)((ipVersion it, t, c) \<mapsto> remove1 rule rs)\<rparr>)"
  using RawCombinedOutput_cmd_ok xt_cmd_D by simp

lemma Exists_chain:
  "xt_iptables k \<Longrightarrow> runs k (ipVersion it) \<Longrightarrow> t \<noteq> '''' \<Longrightarrow> xt_chains k (ipVersion it, t, c) = Some rs \<Longrightarrow>
   Exists it t c rule k = (rule \<in> set rs)"
  by (simp add: Exists_iff rule_in_def)

lemma ProgramRule_Append:
  "xt_iptables k \<Longrightarrow> runs k (ipVersion it) \<Longrightarrow> t \<noteq> '''' \<Longrightarrow> xt_chains k (ipVersion it, t, c) = Some rs \<Longrightarrow>
   ProgramRule it t c Append args k
     = (Inr (), if args \<in> set rs then k else k\<lparr>xt_chains := (xt_chains k)((ipVersion it, t, c) \<mapsto> rs @ [args])\<rparr>)"
  by (simp add: ProgramRule_def Exists_chain RCO_A ipt_names)

lemma ProgramRule_Delete:
  "xt_iptables k \<Longrightarrow> runs k (ipVersion it) \<Longrightarrow> t \<noteq> '''' \<Longrightarrow> xt_chains k (ipVersion it, t, c) = Some rs \<Longrightarrow>
   ProgramRule it t c Delete args k
     = (Inr (), if args \<in> set rs then k\<lparr>xt_chains := (xt_chains k)((ipVersion it, t, c) \<mapsto> remove1 args rs)\<rparr> else k)"
  by (simp add: ProgramRule_def Exists_chain RCO_D ipt_names)

lemma runs_upd [simp]: "runs (k\<lparr>xt_chains := cs\<rparr>) v = runs k v"
  by (simp add: runs_def)

lemma ProgramRule_Insert:
  "xt_iptables k \<Longrightarrow> runs k (ipVersion it) \<Longrightarrow> t \<noteq> '''' \<Longrightarrow> xt_chains k (ipVersion it, t, c) = Some rs \<Longrightarrow>
   ProgramRule it t c Insert args k
     = (Inr (), if args \<in> set rs then k else k\<lparr>xt_chains := (xt_chains k)((ipVersion it, t, c) \<mapsto> args # rs)\<rparr>)"
  by (simp add: ProgramRule_def Exists_chain RCO_I ipt_names)

lemma GetIptable_valid: "v = IPv4 \<or> v = IPv6 \<Longrightarrow> GetIptable v = Inr \<lparr>ipVersion = v\<rparr>"
  by (auto simp: GetIptable_def)

lemma ensure_ProgramRule:
  "GetIptable (IPVer r) = Inr it \<Longrightarrow> op \<noteq> Delete \<Longrightarrow>
   ensure r op k = ProgramRule it (rTable r) (rChain r) op (rArgs r) k"
  by (simp add: ensure_def Rule_Exists_def Rule_exec_def cmdArgs_def ProgramRule_def)

lemma Rule_Delete_ProgramRule:
  "GetIptable (IPVer r) = Inr it \<Longrightarrow> Rule_Delete r k = ProgramRule it (rTable r) (rChain r) Delete (rArgs r) k"
  by (simp add: Rule_Delete_def Rule_Exists_def Rule_exec_def cmdArgs_def ProgramRule_def)

lemma Link_rules:
  "GetIptable (ci_IPVersion c) = Inr it \<Longrightarrow>
   Link c action ip1 ip2 port proto br k =
     ibind (ProgramRule it Filter (ci_Name c) action (link_fwd ip1 ip2 port proto br) k)
       (\<lambda>_ k1. ProgramRule it Filter (ci_Name c) action (link_rev ip1 ip2 port proto br) k1)"
  by (simp add: Link_def link_fwd_def link_rev_def)

lemma link_fwd_rev: "link_fwd ip1 ip2 port proto br \<noteq> link_rev ip1 ip2 port proto br"
  by (simp add: link_fwd_def link_rev_def)

lemma Raw_no_panic: "Raw it args k \<noteq> (Inl (Panic p), k')"
  by (auto simp: Raw_def raw_def passthrough_def initCheck_def Let_def split: prod.splits sum.splits option.splits if_splits)

lemma Prerouting_no_panic:
  "ci_IPVersion c = IPv4 \<or> ci_IPVersion c = IPv6 \<Longrightarrow> fst (Prerouting c action args k) \<noteq> Inl (Panic p)"
  using Raw_no_panic by (auto simp: Prerouting_def GetIptable_valid chainError_def split: prod.splits sum.splits)

lemma Output_no_panic:
  "ci_IPVersion c = IPv4 \<or> ci_IPVersion c = IPv6 \<Longrightarrow> fst (Output c action args k) \<noteq> Inl (Panic p)"
  using Raw_no_panic by (auto simp: Output_def GetIptable_valid chainError_def split: prod.splits sum.splits)

lemma ignore_err_ok: "(\<forall>p. fst m \<noteq> Inl (Panic p)) \<Longrightarrow> ignore_err m = (Inr (), snd m)"
  by (cases m) (force simp: ignore_err_def split: sum.splits ipt_err.splits)

lemma xt_distinct_chain: "xt_distinct k \<Longrightarrow> xt_chains k key = Some rs \<Longrightarrow> distinct rs"
  unfolding xt_distinct_def by blast

lemma chain_upd_same [simp]: "xt_chains k key = Some rs \<Longrightarrow> k\<lparr>xt_chains := (xt_chains k)(key \<mapsto> rs)\<rparr> = k"
  by (simp add: fun_upd_idem)

lemma Filter_ne [simp]: "Filter \<noteq> ''''"
  by (simp add: Filter_def)

lemma Raw_ok:
  "runs k (ipVersion it) \<Longrightarrow> xt_cmd (ipVersion it) args k = (Inr out, k') \<Longrightarrow> Raw it args k = (Inr '''', k')"
  using Raw_runs [of k it args] xt_cmd_out [of "ipVersion it" args k out] by (cases "Raw it args k") auto

lemma Raw_err:
  "runs k (ipVersion it) \<Longrightarrow> xt_cmd (ipVersion it) args k = (Inl e, k') \<Longrightarrow> \<exists>e'. Raw it args k = (Inl e', k')"
  using Raw_runs [of k it args] by (cases "Raw it args k") (auto simp: isl_def)

lemma Raw_off: "no_engine k \<Longrightarrow> Raw it args k = (Inl (Err ''iptables not found''), k)"
  by (auto simp: no_engine_def Raw_def raw_def passthrough_def initCheck_def)

lemma Exists_off: "no_engine k \<Longrightarrow> \<not> Exists it t c rule k"
  by (simp add: no_engine_def Exists_def exists_def initCheck_def)

lemma RCO_off: "no_engine k \<Longrightarrow> RawCombinedOutput it args k = (Inl (Err ''iptables not found''), k)"
  by (simp add: RawCombinedOutput_def Raw_off)

lemma ibind_off: "snd m = k \<Longrightarrow> (\<And>a. snd (f a k) = k) \<Longrightarrow> snd (ibind m f) = k"
  by (auto simp: ibind_def split: prod.splits sum.splits)

lemma Prerouting_off: "no_engine k \<Longrightarrow> snd (Prerouting c a args k) = k"
  by (simp add: Prerouting_def Raw_off split: sum.split)

lemma Output_off: "no_engine k \<Longrightarrow> snd (Output c a args k) = k"
  by (simp add: Output_def Raw_off split: sum.split)

lemma Remove_off: "no_engine k \<Longrightarrow> snd (Remove c k) = k"
  unfolding Remove_def
  by (auto intro!: ibind_off simp: Prerouting_off Output_off Raw_off split: sum.split)

lemma ipt_step_off: "no_engine k \<Longrightarrow> ipt_step op k = k"
  by (cases op)
     (auto simp: NewChain_def RemoveExistingChain_def Remove_off ProgramRule_def Link_def FlushChain_def
        ExistChain_def SetDefaultPolicy_def AddReturnRule_def EnsureJumpRule_def DeleteJumpRule_def
        Rule_Append_def Rule_Insert_def Rule_Delete_def ensure_def Rule_Exists_def Rule_exec_def
        Let_def Raw_off Exists_off RCO_off ibind_def
        split: sum.split)

lemma runs_Raw [simp]: "runs (snd (Raw it args k)) v = runs k v"
  using xt_cmd_flags [of "ipVersion it" args k] by (simp add: Raw_state runs_def)

lemma runs_Raw_eq: "Raw it args k = (r, k') \<Longrightarrow> runs k' v = runs k v"
  using runs_Raw [of it args k v] by simp

lemma runs_Prerouting [simp]: "runs (snd (Prerouting c a args k)) v = runs k v"
  by (auto simp: Prerouting_def split: sum.split prod.split dest: runs_Raw_eq)

lemma runs_Output [simp]: "runs (snd (Output c a args k)) v = runs k v"
  by (auto simp: Output_def split: sum.split prod.split dest: runs_Raw_eq)

lemma Raw_no_panic_fst: "\<forall>p. fst (Raw it args k) \<noteq> Inl (Panic p)"
  using Raw_no_panic by (metis prod.collapse)

lemma ignore_err_Raw [simp]: "ignore_err (Raw it args k) = (Inr (), snd (Raw it args k))"
  by (rule ignore_err_ok [OF Raw_no_panic_fst])

lemma ignore_err_Prerouting [simp]:
  "ci_IPVersion c = IPv4 \<or> ci_IPVersion c = IPv6 \<Longrightarrow> ignore_err (Prerouting c a args k) = (Inr (), snd (Prerouting c a args k))"
  by (rule ignore_err_ok) (simp add: Prerouting_no_panic)

lemma ignore_err_Output [simp]:
  "ci_IPVersion c = IPv4 \<or> ci_IPVersion c = IPv6 \<Longrightarrow> ignore_err (Output c a args k) = (Inr (), snd (Output c a args k))"
  by (rule ignore_err_ok) (simp add: Output_no_panic)

lemma Nat_ne [simp]: "Nat \<noteq> ''''"
  by (simp add: Nat_def)

lemma flush_delete_chain:
  assumes "runs k (ipVersion it)" "t \<noteq> ''''"
  shows "xt_chains (snd (Raw it [''-t'', t, ''-X'', n] (snd (Raw it [''-t'', t, ''-F'', n] k)))) (ipVersion it, t, n) = None"
  using assms
  by (cases "xt_chains k (ipVersion it, t, n)")
     (simp_all add: Raw_state xt_cmd_def xt_run_def xt_chain_op_def chain_edit_def)

lemma loopbackAddress_valid: "v = IPv4 \<or> v = IPv6 \<Longrightarrow> \<exists>lo. loopbackAddress v = Inr lo"
  by (auto simp: loopbackAddress_def ipt_names)

lemma xt_cmd_contention:
  "xt_cmd v args (k\<lparr>xt_contention := b\<rparr>) =
     (case xt_cmd v args k of (r, k') \<Rightarrow> (map_sum id (\<lambda>_. xt_out (k\<lparr>xt_contention := b\<rparr>)) r, k'\<lparr>xt_contention := b\<rparr>))"
  by (auto simp: xt_cmd_def xt_run_def xt_chain_op_def split: sum.splits prod.splits xt_command.splits)

lemma xt_cmd_out_eq: "xt_cmd v args k = (Inr out, k') \<Longrightarrow> out = xt_out k"
  using xt_cmd_out [of v args k out] by simp

lemma xt_cmd_err_eq: "xt_cmd v args k = (Inl e, k') \<Longrightarrow> \<not> contains_str ''was not provided by any .service files'' e"
  using xt_cmd_err_not_noservice [of v args k e] by simp

lemma Raw_contention:
  "Raw it args (k\<lparr>xt_contention := b\<rparr>) = (fst (Raw it args k), (snd (Raw it args k))\<lparr>xt_contention := b\<rparr>)"
  by (auto simp: Raw_def raw_def passthrough_def initCheck_def xt_cmd_contention Let_def
           dest: xt_cmd_out_eq xt_cmd_err_eq split: sum.splits prod.splits)

section \<open>The claims\<close>

text \<open>
  C12. Whatever sequence of the exported operations runs, with the \<open>iptables\<close> binary
  present no chain ever holds the same rule twice.
\<close>

theorem ipt_run_distinct:
  "xt_iptables k \<Longrightarrow> xt_distinct k \<Longrightarrow> xt_distinct (ipt_run ops k)"
  using ipt_run_inv [of k ops] by (simp add: ipt_inv_def)

theorem ipt_run_distinct_witness:
  "xt_iptables demo_xt \<and> xt_distinct demo_xt \<and>
   xt_distinct (ipt_run [RuleAppendOp \<lparr>IPVer = IPv4, rTable = Filter, rChain = ''DOCKER'', rArgs = [''-j'', ''RETURN'']\<rparr>,
                         EnsureJumpRuleOp \<lparr>ipVersion = IPv4\<rparr> Filter ''FORWARD'' ''DOCKER'' []] demo_xt)"
proof -
  have h: "xt_iptables demo_xt \<and> xt_distinct demo_xt"
    by (simp add: demo_xt_def xt_distinct_def ipt_names)
  then show ?thesis using ipt_run_distinct by blast
qed

text \<open>
  C13. Refinement: on a chain that exists, with the binary present and the chains free of duplicates, \<open>Rule.Append\<close> and \<open>Rule.Insert\<close> act on the set of rules of the chain as insertion of the rule, and \<open>Rule.Delete\<close> as its removal; no other chain changes.
\<close>

theorem Rule_refines_sets:
  assumes "xt_iptables k" "xt_distinct k" "runs k (IPVer r)" "IPVer r = IPv4 \<or> IPVer r = IPv6" "rTable r \<noteq> ''''"
    "xt_chains k (IPVer r, rTable r, rChain r) = Some rs"
  shows "rule_sets (snd (Rule_Append r k)) = (rule_sets k)((IPVer r, rTable r, rChain r) \<mapsto> insert (rArgs r) (set rs))
       \<and> rule_sets (snd (Rule_Insert r k)) = (rule_sets k)((IPVer r, rTable r, rChain r) \<mapsto> insert (rArgs r) (set rs))
       \<and> rule_sets (snd (Rule_Delete r k)) = (rule_sets k)((IPVer r, rTable r, rChain r) \<mapsto> set rs - {rArgs r})"
proof -
  let ?it = "\<lparr>ipVersion = IPVer r\<rparr>" and ?key = "(IPVer r, rTable r, rChain r)"
  have g: "GetIptable (IPVer r) = Inr ?it" using assms(4) by (rule GetIptable_valid)
  have d: "distinct rs" using assms(2,6) by (rule xt_distinct_chain)
  have s: "rule_sets k ?key = Some (set rs)" using assms(6) by (simp add: rule_sets_def)
  note pr = ProgramRule_Append [of k ?it, simplified, OF assms(1,3,5,6)]
            ProgramRule_Insert [of k ?it, simplified, OF assms(1,3,5,6)]
            ProgramRule_Delete [of k ?it, simplified, OF assms(1,3,5,6)]
  have nd: "Append \<noteq> Delete" "Insert \<noteq> Delete" by (simp_all add: ipt_names)
  show ?thesis
    using s d
    by (auto simp: Rule_Append_def Rule_Insert_def ensure_ProgramRule [OF g] Rule_Delete_ProgramRule [OF g] pr nd
             rule_sets_def fun_eq_iff insert_absorb)
qed

theorem Rule_refines_sets_witness:
  "rule_sets (snd (Rule_Append \<lparr>IPVer = IPv4, rTable = Filter, rChain = ''DOCKER'', rArgs = [''-j'', ''ACCEPT'']\<rparr> demo_xt))
     = (rule_sets demo_xt)((IPv4, Filter, ''DOCKER'') \<mapsto> {[''-j'', ''ACCEPT''], [''-j'', ''RETURN'']})"
proof -
  let ?r = "\<lparr>IPVer = IPv4, rTable = Filter, rChain = ''DOCKER'', rArgs = [''-j'', ''ACCEPT'']\<rparr>"
  have "xt_iptables demo_xt" "xt_distinct demo_xt" "runs demo_xt (IPVer ?r)" "IPVer ?r = IPv4 \<or> IPVer ?r = IPv6"
    "rTable ?r \<noteq> ''''" "xt_chains demo_xt (IPVer ?r, rTable ?r, rChain ?r) = Some [[''-j'', ''RETURN'']]"
    by (simp_all add: demo_xt_def xt_distinct_def runs_def ipt_names)
  from Rule_refines_sets [OF this] show ?thesis by simp
qed

text \<open>
  C14. \<open>EnsureJumpRule\<close> leaves exactly one copy of the jump rule, at the head of the chain, and keeps the other rules in their order.
\<close>

theorem EnsureJumpRule_top:
  assumes "xt_iptables k" "xt_distinct k" "runs k (ipVersion it)" "t \<noteq> ''''"
    "xt_chains k (ipVersion it, t, f) = Some rs"
  shows "EnsureJumpRule it t f to rule k =
    (Inr (), k\<lparr>xt_chains := (xt_chains k)((ipVersion it, t, f) \<mapsto> (rule @ [''-j'', to]) # remove1 (rule @ [''-j'', to]) rs)\<rparr>)"
proof (cases "rule @ [''-j'', to] \<in> set rs")
  case True
  then show ?thesis using assms
    by (simp add: EnsureJumpRule_def DeleteJumpRule_def ibind_def Exists_chain RCO_D RCO_I [where rs = "remove1 _ rs"])
next
  case False
  then show ?thesis using assms
    by (simp add: EnsureJumpRule_def DeleteJumpRule_def ibind_def Exists_chain RCO_I remove1_idem)
qed

theorem EnsureJumpRule_top_witness:
  "EnsureJumpRule \<lparr>ipVersion = IPv4\<rparr> Filter ''FORWARD'' ''DOCKER'' [''-o'', ''br0''] demo_xt =
     (Inr (), demo_xt\<lparr>xt_chains := (xt_chains demo_xt)((IPv4, Filter, ''FORWARD'') \<mapsto> [[''-o'', ''br0'', ''-j'', ''DOCKER'']])\<rparr>)"
proof -
  have "xt_iptables demo_xt" "xt_distinct demo_xt" "runs demo_xt (ipVersion \<lparr>ipVersion = IPv4\<rparr>)"
    "xt_chains demo_xt (ipVersion \<lparr>ipVersion = IPv4\<rparr>, Filter, ''FORWARD'') = Some []"
    by (simp_all add: demo_xt_def xt_distinct_def runs_def ipt_names)
  from EnsureJumpRule_top [OF this(1-3) Filter_ne this(4), of "''DOCKER''" "[''-o'', ''br0'']"] show ?thesis
    by simp
qed

text \<open>
  C15. Round trip: \<open>Link\<close> with \<open>-A\<close> appends the forward rule and the reverse rule (addresses swapped, source port matched), and \<open>Link\<close> with \<open>-D\<close> then restores the tables exactly.
\<close>

theorem Link_roundtrip:
  assumes "xt_iptables k" "runs k (ci_IPVersion c)" "ci_IPVersion c = IPv4 \<or> ci_IPVersion c = IPv6"
    "xt_chains k (ci_IPVersion c, Filter, ci_Name c) = Some rs"
    "link_fwd ip1 ip2 port proto br \<notin> set rs" "link_rev ip1 ip2 port proto br \<notin> set rs"
  shows "\<exists>k1. Link c Append ip1 ip2 port proto br k = (Inr (), k1)
            \<and> xt_chains k1 (ci_IPVersion c, Filter, ci_Name c)
                = Some (rs @ [link_fwd ip1 ip2 port proto br, link_rev ip1 ip2 port proto br])
            \<and> Link c Delete ip1 ip2 port proto br k1 = (Inr (), k)"
proof -
  let ?it = "\<lparr>ipVersion = ci_IPVersion c\<rparr>" and ?key = "(ci_IPVersion c, Filter, ci_Name c)"
    and ?f = "link_fwd ip1 ip2 port proto br" and ?r = "link_rev ip1 ip2 port proto br"
  have g: "GetIptable (ci_IPVersion c) = Inr ?it" using assms(3) by (rule GetIptable_valid)
  have ne: "?f \<noteq> ?r" by (rule link_fwd_rev)
  define k1 where "k1 = k\<lparr>xt_chains := (xt_chains k)(?key \<mapsto> rs @ [?f, ?r])\<rparr>"
  have a: "Link c Append ip1 ip2 port proto br k = (Inr (), k1)"
    using assms ne by (simp add: Link_rules [OF g] ProgramRule_Append ibind_def k1_def)
  have d: "Link c Delete ip1 ip2 port proto br k1 = (Inr (), k)"
    using assms ne by (simp add: Link_rules [OF g] ProgramRule_Delete ibind_def k1_def remove1_append)
  from a d show ?thesis by (auto simp: k1_def)
qed

theorem Link_roundtrip_witness:
  "\<exists>k1. Link \<lparr>ci_Name = ''FORWARD'', ci_Table = Filter, ci_IPVersion = IPv4\<rparr> Append ''172.17.0.2'' ''172.17.0.3'' 80 ''tcp'' ''docker0'' demo_xt = (Inr (), k1)
     \<and> xt_chains k1 (IPv4, Filter, ''FORWARD'')
         = Some ([] @ [link_fwd ''172.17.0.2'' ''172.17.0.3'' 80 ''tcp'' ''docker0'', link_rev ''172.17.0.2'' ''172.17.0.3'' 80 ''tcp'' ''docker0''])
     \<and> Link \<lparr>ci_Name = ''FORWARD'', ci_Table = Filter, ci_IPVersion = IPv4\<rparr> Delete ''172.17.0.2'' ''172.17.0.3'' 80 ''tcp'' ''docker0'' k1 = (Inr (), demo_xt)"
proof -
  let ?c = "\<lparr>ci_Name = ''FORWARD'', ci_Table = Filter, ci_IPVersion = IPv4\<rparr>"
  have "xt_iptables demo_xt" "runs demo_xt (ci_IPVersion ?c)" "ci_IPVersion ?c = IPv4 \<or> ci_IPVersion ?c = IPv6"
    "xt_chains demo_xt (ci_IPVersion ?c, Filter, ci_Name ?c) = Some []"
    "link_fwd ''172.17.0.2'' ''172.17.0.3'' 80 ''tcp'' ''docker0'' \<notin> set []"
    "link_rev ''172.17.0.2'' ''172.17.0.3'' 80 ''tcp'' ''docker0'' \<notin> set []"
    by (simp_all add: demo_xt_def runs_def ipt_names)
  from Link_roundtrip [OF this] show ?thesis by simp
qed

text \<open>
  C16. Equivalence: the methods \<open>Append\<close>, \<open>Insert\<close> and \<open>Delete\<close> of \<open>Rule\<close> behave as \<open>ProgramRule\<close> with the same action on the rule's table, chain and arguments.
\<close>

theorem Rule_ops_ProgramRule:
  "Rule_Append r k = (case GetIptable (IPVer r) of Inl e \<Rightarrow> (Inl e, k)
                      | Inr it \<Rightarrow> ProgramRule it (rTable r) (rChain r) Append (rArgs r) k)
   \<and> Rule_Insert r k = (case GetIptable (IPVer r) of Inl e \<Rightarrow> (Inl e, k)
                      | Inr it \<Rightarrow> ProgramRule it (rTable r) (rChain r) Insert (rArgs r) k)
   \<and> Rule_Delete r k = (case GetIptable (IPVer r) of Inl e \<Rightarrow> (Inl e, k)
                      | Inr it \<Rightarrow> ProgramRule it (rTable r) (rChain r) Delete (rArgs r) k)"
  by (simp add: Rule_Append_def Rule_Insert_def Rule_Delete_def ensure_def Rule_Exists_def Rule_exec_def
                cmdArgs_def ProgramRule_def ipt_names split: sum.split)

text \<open>
  C17. When firewalld runs and the \<open>iptables\<close> binary is missing, \<open>exists\<close> answers false without asking, so \<open>Rule.Append\<close> of a rule already present appends a second copy through firewalld.
\<close>

theorem Rule_Append_firewalld_dup:
  assumes "xt_firewalld k" "\<not> xt_fw_noservice k" "\<not> xt_iptables k" "IPVer r = IPv4 \<or> IPVer r = IPv6"
    "rTable r \<noteq> ''''" "xt_chains k (IPVer r, rTable r, rChain r) = Some rs" "rArgs r \<in> set rs"
  shows "Rule_Append r k = (Inr (), k\<lparr>xt_chains := (xt_chains k)((IPVer r, rTable r, rChain r) \<mapsto> rs @ [rArgs r])\<rparr>)
         \<and> \<not> distinct (rs @ [rArgs r])"
proof -
  let ?it = "\<lparr>ipVersion = IPVer r\<rparr>"
  have g: "GetIptable (IPVer r) = Inr ?it" using assms(4) by (rule GetIptable_valid)
  have "\<not> Exists ?it (rTable r) (rChain r) (rArgs r) k" using assms(3)
    by (simp add: Exists_def exists_def initCheck_def)
  moreover have "runs k (ipVersion ?it)" using assms(1,2) by (simp add: runs_def)
  ultimately show ?thesis using assms(5-7) g
    by (simp add: Rule_Append_def ensure_def Rule_Exists_def Rule_exec_def cmdArgs_def RCO_A ipt_names)
qed

theorem Rule_Append_firewalld_dup_witness:
  "Rule_Append \<lparr>IPVer = IPv4, rTable = Filter, rChain = ''DOCKER'', rArgs = [''-j'', ''RETURN'']\<rparr>
     (demo_xt\<lparr>xt_iptables := False, xt_firewalld := True\<rparr>)
   = (Inr (), demo_xt\<lparr>xt_iptables := False, xt_firewalld := True,
        xt_chains := (xt_chains demo_xt)((IPv4, Filter, ''DOCKER'') \<mapsto> [[''-j'', ''RETURN''], [''-j'', ''RETURN'']])\<rparr>)"
proof -
  let ?k = "demo_xt\<lparr>xt_iptables := False, xt_firewalld := True\<rparr>"
    and ?r = "\<lparr>IPVer = IPv4, rTable = Filter, rChain = ''DOCKER'', rArgs = [''-j'', ''RETURN'']\<rparr>"
  have "xt_firewalld ?k" "\<not> xt_fw_noservice ?k" "\<not> xt_iptables ?k" "IPVer ?r = IPv4 \<or> IPVer ?r = IPv6"
    "rTable ?r \<noteq> ''''" "xt_chains ?k (IPVer ?r, rTable ?r, rChain ?r) = Some [[''-j'', ''RETURN'']]"
    "rArgs ?r \<in> set [[''-j'', ''RETURN'']]"
    by (simp_all add: demo_xt_def ipt_names)
  from Rule_Append_firewalld_dup [OF this] show ?thesis by (simp add: demo_xt_def)
qed

text \<open>
  C18. \<open>NewChain\<close> with a non-empty name and table returns the chain, creating it empty when it is missing and leaving the tables unchanged when it exists.
\<close>

theorem NewChain_ok:
  assumes "runs k (ipVersion it)" "name \<noteq> ''''" "t \<noteq> ''''"
  shows "NewChain it name t k =
    (Inr \<lparr>ci_Name = name, ci_Table = t, ci_IPVersion = ipVersion it\<rparr>,
     if xt_chains k (ipVersion it, t, name) = None
     then k\<lparr>xt_chains := (xt_chains k)((ipVersion it, t, name) \<mapsto> [])\<rparr> else k)"
proof (cases "xt_chains k (ipVersion it, t, name)")
  case None
  from Raw_err [OF assms(1), of "[''-t'', t, ''-n'', ''-L'', name]"] None assms(3)
  obtain e where e: "Raw it [''-t'', t, ''-n'', ''-L'', name] k = (Inl e, k)"
    by (auto simp: xt_cmd_def xt_run_def)
  have n: "Raw it [''-t'', t, ''-N'', name] k = (Inr '''', k\<lparr>xt_chains := (xt_chains k)((ipVersion it, t, name) \<mapsto> [])\<rparr>)"
    using None assms(3) by (intro Raw_ok [OF assms(1)]) (simp add: xt_cmd_def xt_run_def xt_chain_op_def chain_edit_def)
  show ?thesis using None assms e n by (simp add: NewChain_def)
next
  case (Some rs)
  have "Raw it [''-t'', t, ''-n'', ''-L'', name] k = (Inr '''', k)"
    using Some assms(3) by (intro Raw_ok [OF assms(1)]) (simp add: xt_cmd_def xt_run_def)
  with Some assms show ?thesis by (simp add: NewChain_def)
qed

theorem NewChain_ok_witness:
  "NewChain \<lparr>ipVersion = IPv4\<rparr> ''DOCKER-USER'' Filter demo_xt =
    (Inr \<lparr>ci_Name = ''DOCKER-USER'', ci_Table = Filter, ci_IPVersion = IPv4\<rparr>,
     demo_xt\<lparr>xt_chains := (xt_chains demo_xt)((IPv4, Filter, ''DOCKER-USER'') \<mapsto> [])\<rparr>)"
proof -
  have "runs demo_xt (ipVersion \<lparr>ipVersion = IPv4\<rparr>)" "''DOCKER-USER'' \<noteq> ''''" "Filter \<noteq> ''''"
    by (simp_all add: demo_xt_def runs_def)
  from NewChain_ok [OF this] show ?thesis by (simp add: demo_xt_def ipt_names)
qed





text \<open>
  C21. The xtables lock warning printed while another process holds the lock changes no result: \<open>RawCombinedOutput\<close> and \<open>Exists\<close> answer the same with or without it.
\<close>

theorem lock_contention_harmless:
  "RawCombinedOutput it args (k\<lparr>xt_contention := b\<rparr>)
     = (fst (RawCombinedOutput it args k), (snd (RawCombinedOutput it args k))\<lparr>xt_contention := b\<rparr>)
   \<and> Exists it t c rule (k\<lparr>xt_contention := b\<rparr>) = Exists it t c rule k"
  by (simp add: RawCombinedOutput_def Exists_def exists_def initCheck_def Raw_contention Let_def
           split: prod.split sum.split)

end
