(* ===== verification/BridgeIPv4.thy ===== *)
theory BridgeIPv4
  imports Prelude "HOL-Library.Word"
begin

text \<open>
  IPv4 set-up of the bridge driver's interface (package \<open>bridge\<close>, the first part of
  \<open>src/daemon/libnetwork/drivers/bridge/setup_ipv4_linux.go\<close>, lines 16--91):
  choosing the bridge address among the link's addresses (\<open>selectIPv4Address\<close>),
  replacing it by the configured one (\<open>setupBridgeIPv4\<close>), checking and storing the
  default gateway (\<open>setupGatewayIPv4\<close>), and enabling \<open>route_localnet\<close>
  (\<open>setupLoopbackAddressesRouting\<close>). Addresses are 32-bit words and networks an
  address with its mask, as \<open>net.IPNet\<close> holds them for IPv4; the kernel (the link's
  addresses through netlink, and the files under \<open>/proc\<close>) is explicit state with
  injectable failures.
\<close>

unbundle bit_operations_syntax

section \<open>Addresses and networks\<close>

type_synonym ipv4 = "32 word"

text \<open>\<open>net.IPNet\<close> for IPv4: the address and the mask.\<close>

record ipnet =
  nIP :: ipv4
  nMask :: ipv4

text \<open>\<open>net.IPNet.Contains\<close>: the address agrees with the network on the bits of the mask.\<close>

definition Contains :: "ipnet \<Rightarrow> ipv4 \<Rightarrow> bool" where
  "Contains n ip \<longleftrightarrow> (ip AND nMask n) = (nIP n AND nMask n)"

text \<open>\<open>net.CIDRMask(p, 32)\<close>: the top \<open>p\<close> bits set.\<close>

definition CIDRMask :: "nat \<Rightarrow> ipv4" where
  "CIDRMask p = NOT (mask (32 - p))"

text \<open>\<open>types.CompareIPNet\<close>: both absent, or equal address and mask.\<close>

definition CompareIPNet :: "ipnet option \<Rightarrow> ipnet option \<Rightarrow> bool" where
  "CompareIPNet a b =
     (case (a, b) of (None, None) \<Rightarrow> True | (Some x, Some y) \<Rightarrow> nIP x = nIP y \<and> nMask x = nMask y | _ \<Rightarrow> False)"

section \<open>Configuration, interface and kernel\<close>

text \<open>The fields of \<open>networkConfiguration\<close> the set-up reads.\<close>

record networkConfiguration =
  BridgeName :: string
  AddressIPv4 :: "ipnet option"
  DefaultGatewayIPv4 :: "ipv4 option"
  Internal :: bool
  InhibitIPv4 :: bool
  GwModeIsolated :: bool

text \<open>The IPv4 fields of \<open>bridgeInterface\<close>.\<close>

record bridgeInterface =
  bridgeIPv4 :: "ipnet option"
  gatewayIPv4 :: "ipv4 option"

datatype nl_fault = FAddrList | FAddrDel | FAddrAdd | FReadFile | FWriteFile

text \<open>
  The kernel: the IPv4 addresses of the bridge link in netlink's order, the files
  under \<open>/proc\<close>, and the calls that fail.
\<close>

record kernel =
  k_addrs :: "ipnet list"
  k_files :: "string \<rightharpoonup> string"
  k_faults :: "nl_fault set"

datatype br_err = BrErr string | BrPanic string | ErrInvalidGateway | InvalidParameter string

section \<open>Netlink\<close>

text \<open>\<open>bridgeInterface.addresses(FAMILY_V4)\<close>.\<close>

definition addresses :: "kernel \<Rightarrow> string + ipnet list" where
  "addresses kn = (if FAddrList \<in> k_faults kn then Inl ''netlink: address list failed'' else Inr (k_addrs kn))"

text \<open>\<open>AddrDel\<close> removes the address; \<open>AddrAdd\<close> refuses an address the link already has.\<close>

definition AddrDel :: "ipnet \<Rightarrow> kernel \<Rightarrow> (string + unit) \<times> kernel" where
  "AddrDel a kn =
     (if FAddrDel \<in> k_faults kn \<or> a \<notin> set (k_addrs kn) then (Inl ''cannot assign requested address'', kn)
      else (Inr (), kn\<lparr>k_addrs := remove1 a (k_addrs kn)\<rparr>))"

definition AddrAdd :: "ipnet \<Rightarrow> kernel \<Rightarrow> (string + unit) \<times> kernel" where
  "AddrAdd a kn =
     (if FAddrAdd \<in> k_faults kn then (Inl ''operation not permitted'', kn)
      else if a \<in> set (k_addrs kn) then (Inl ''file exists'', kn)
      else (Inr (), kn\<lparr>k_addrs := k_addrs kn @ [a]\<rparr>))"

section \<open>The set-up steps\<close>

definition selectIPv4Address :: "ipnet list \<Rightarrow> ipnet option \<Rightarrow> string + ipnet" where
  "selectIPv4Address addrs selector =
     (if addrs = [] then Inl ''unable to select an address as the address pool is empty''
      else case selector of
             None \<Rightarrow> Inr (hd addrs)
           | Some n \<Rightarrow> (case find (\<lambda>a. Contains n (nIP a)) addrs of Some a \<Rightarrow> Inr a | None \<Rightarrow> Inr (hd addrs)))"

text \<open>
  The body of the \<open>if !config.InhibitIPv4 && !config.GwModeIPv4.isolated()\<close> block:
  replace the selected address by the configured one unless they agree. The error of
  \<open>selectIPv4Address\<close> is dropped, leaving the empty \<open>netlink.Addr\<close>; adding a
  missing configured address dereferences nil (a panic).
\<close>

definition assignIPv4 :: "networkConfiguration \<Rightarrow> kernel \<Rightarrow> (br_err + unit) \<times> kernel" where
  "assignIPv4 config kn =
     (case addresses kn of
        Inl e \<Rightarrow> (Inl (BrErr (''failed to retrieve bridge interface addresses: '' @ e)), kn)
      | Inr addrs \<Rightarrow>
          (let sel = (case selectIPv4Address addrs (AddressIPv4 config) of Inl _ \<Rightarrow> None | Inr a \<Rightarrow> Some a)
           in if CompareIPNet sel (AddressIPv4 config) then (Inr (), kn)
              else
                (case (case sel of None \<Rightarrow> (Inr (), kn) | Some a \<Rightarrow> AddrDel a kn) of
                   (Inl e, kn1) \<Rightarrow> (Inl (BrErr (''failed to remove current ip address from bridge: '' @ e)), kn1)
                 | (Inr _, kn1) \<Rightarrow>
                     (case AddressIPv4 config of
                        None \<Rightarrow> (Inl (BrPanic ''invalid memory address or nil pointer dereference''), kn1)
                      | Some n \<Rightarrow>
                          (case AddrAdd n kn1 of
                             (Inl e, kn2) \<Rightarrow> (Inl (BrErr (''failed to add IPv4 address to bridge: '' @ e)), kn2)
                           | (Inr _, kn2) \<Rightarrow> (Inr (), kn2))))))"

text \<open>
  \<open>setupBridgeIPv4\<close>: record the configured network, assign it to the link unless IPv4
  is inhibited or the gateway mode is isolated, then store the gateway address unless
  the network is internal (a missing configured network is dereferenced: a panic).
\<close>

definition setupBridgeIPv4 ::
  "networkConfiguration \<Rightarrow> bridgeInterface \<Rightarrow> kernel \<Rightarrow> (br_err + unit) \<times> bridgeInterface \<times> kernel" where
  "setupBridgeIPv4 config i kn =
     (let i1 = i\<lparr>bridgeIPv4 := AddressIPv4 config\<rparr> in
      case (if InhibitIPv4 config \<or> GwModeIsolated config then (Inr (), kn) else assignIPv4 config kn) of
        (Inl e, kn') \<Rightarrow> (Inl e, i1, kn')
      | (Inr _, kn') \<Rightarrow>
          if Internal config then (Inr (), i1, kn')
          else case AddressIPv4 config of
                 None \<Rightarrow> (Inl (BrPanic ''invalid memory address or nil pointer dereference''), i1, kn')
               | Some n \<Rightarrow> (Inr (), i1\<lparr>gatewayIPv4 := Some (nIP n)\<rparr>, kn'))"

text \<open>
  The gateway must lie in the bridge's network (a missing bridge network is a nil
  receiver, a panic; a missing gateway is contained in no network) and the network
  must not be internal.
\<close>

definition setupGatewayIPv4 ::
  "networkConfiguration \<Rightarrow> bridgeInterface \<Rightarrow> br_err + bridgeInterface" where
  "setupGatewayIPv4 config i =
     (case bridgeIPv4 i of
        None \<Rightarrow> Inl (BrPanic ''invalid memory address or nil pointer dereference'')
      | Some n \<Rightarrow>
          if \<not> (case DefaultGatewayIPv4 config of None \<Rightarrow> False | Some g \<Rightarrow> Contains n g) then Inl ErrInvalidGateway
          else if Internal config then Inl (InvalidParameter ''no gateway can be set on an internal bridge network'')
          else Inr (i\<lparr>gatewayIPv4 := DefaultGatewayIPv4 config\<rparr>))"

text \<open>\<open>filepath.Join\<close> of the three parts, for a bridge name without separators or dots.\<close>

definition route_localnet_path :: "string \<Rightarrow> string" where
  "route_localnet_path name = ''/proc/sys/net/ipv4/conf/'' @ name @ ''/route_localnet''"

text \<open>Enable routing of loopback addresses unless the file already starts with \<open>1\<close>; an empty file is indexed at 0 (a panic).\<close>

definition setupLoopbackAddressesRouting ::
  "networkConfiguration \<Rightarrow> kernel \<Rightarrow> (br_err + unit) \<times> kernel" where
  "setupLoopbackAddressesRouting config kn =
     (let p = route_localnet_path (BridgeName config) in
      case (if FReadFile \<in> k_faults kn then None else k_files kn p) of
        None \<Rightarrow> (Inl (BrErr ''Cannot read IPv4 local routing setup''), kn)
      | Some d \<Rightarrow>
          if d = [] then (Inl (BrPanic ''index out of range [0] with length 0''), kn)
          else if hd d \<noteq> CHR ''1'' then
            (if FWriteFile \<in> k_faults kn then (Inl (BrErr ''Unable to enable local routing for hairpin mode''), kn)
             else (Inr (), kn\<lparr>k_files := (k_files kn)(p \<mapsto> [CHR ''1'', CHR 0x0A])\<rparr>))
          else (Inr (), kn))"

text \<open>A bridge network \<open>172.17.0.1/16\<close>, another address of it, and a link holding that address.\<close>

definition n0 :: ipnet where "n0 = \<lparr>nIP = 0xAC110001, nMask = CIDRMask 16\<rparr>"

definition a0 :: ipnet where "a0 = \<lparr>nIP = 0xAC110002, nMask = CIDRMask 16\<rparr>"

definition cfg0 :: networkConfiguration where
  "cfg0 = \<lparr>BridgeName = ''docker0'', AddressIPv4 = Some n0, DefaultGatewayIPv4 = None,
           Internal = False, InhibitIPv4 = False, GwModeIsolated = False\<rparr>"

definition kn0 :: kernel where "kn0 = \<lparr>k_addrs = [a0], k_files = Map.empty, k_faults = {}\<rparr>"

lemmas bridge_defs = Contains_def CIDRMask_def CompareIPNet_def addresses_def AddrDel_def AddrAdd_def
  selectIPv4Address_def assignIPv4_def setupBridgeIPv4_def setupGatewayIPv4_def route_localnet_path_def
  setupLoopbackAddressesRouting_def

section \<open>Masks and ranges\<close>

lemma and_not_mask_bits:
  "((x::'a::len word) AND NOT (mask n) = y AND NOT (mask n)) \<longleftrightarrow> (\<forall>i. n \<le> i \<longrightarrow> bit x i = bit y i)"
  unfolding bit_eq_iff by (auto simp: bit_and_iff bit_not_iff bit_mask_iff not_less dest: bit_imp_le_length)

lemma drop_bit_bits:
  "(drop_bit n (x::'a::len word) = drop_bit n y) \<longleftrightarrow> (\<forall>i. n \<le> i \<longrightarrow> bit x i = bit y i)"
proof -
  have "(\<forall>j. bit x (n + j) = bit y (n + j)) \<longleftrightarrow> (\<forall>i. n \<le> i \<longrightarrow> bit x i = bit y i)"
  proof
    assume a: "\<forall>j. bit x (n + j) = bit y (n + j)"
    show "\<forall>i. n \<le> i \<longrightarrow> bit x i = bit y i"
    proof (intro allI impI)
      fix i assume "n \<le> i"
      then have "i = n + (i - n)" by simp
      then show "bit x i = bit y i" using a by metis
    qed
  qed simp
  moreover have "\<forall>j. \<not> j < LENGTH('a) \<longrightarrow> \<not> bit x (n + j) \<and> \<not> bit y (n + j)"
    by (meson bit_imp_le_length le_add2 le_less_trans)
  ultimately show ?thesis unfolding bit_eq_iff by (auto simp add: bit_drop_bit_eq)
qed

lemma unat_drop_bit_div: "unat (drop_bit n (w::'a::len word)) = unat w div 2 ^ n"
  unfolding unat_drop_bit_eq by (simp add: drop_bit_eq_div)

lemma div_eq_range:
  assumes "0 < (m::nat)"
  shows "(b div m = a div m) \<longleftrightarrow> (a div m * m \<le> b \<and> b < a div m * m + m)"
proof
  assume e: "b div m = a div m"
  have "b div m * m + b mod m = b" by (rule div_mult_mod_eq)
  moreover have "b mod m < m" using assms by simp
  ultimately show "a div m * m \<le> b \<and> b < a div m * m + m" unfolding e by linarith
next
  assume "a div m * m \<le> b \<and> b < a div m * m + m"
  then show "b div m = a div m"
    by (intro div_nat_eqI) (simp_all add: mult.commute)
qed

lemma Contains_CIDR_iff:
  "Contains n ip \<longleftrightarrow> unat ip div 2 ^ (32 - p) = unat (nIP n) div 2 ^ (32 - p)" if "nMask n = CIDRMask p"
proof -
  have "Contains n ip \<longleftrightarrow> drop_bit (32 - p) ip = drop_bit (32 - p) (nIP n)"
    using that by (simp add: Contains_def CIDRMask_def and_not_mask_bits drop_bit_bits)
  also have "\<dots> \<longleftrightarrow> unat (drop_bit (32 - p) ip) = unat (drop_bit (32 - p) (nIP n))"
    by (simp add: word_unat_eq_iff)
  finally show ?thesis by (simp add: unat_drop_bit_div)
qed

lemma Contains_CIDR_range:
  assumes "nMask n = CIDRMask p"
  shows "Contains n ip \<longleftrightarrow>
    unat (nIP n) div 2 ^ (32 - p) * 2 ^ (32 - p) \<le> unat ip
    \<and> unat ip < unat (nIP n) div 2 ^ (32 - p) * 2 ^ (32 - p) + 2 ^ (32 - p)"
  using Contains_CIDR_iff [OF assms] div_eq_range [of "2 ^ (32 - p)" "unat ip" "unat (nIP n)"] by simp

lemma Contains_self [simp]: "Contains n (nIP n)"
  by (simp add: Contains_def)

lemma CompareIPNet_Some [simp]: "CompareIPNet (Some a) (Some n) \<longleftrightarrow> a = n"
  by (cases a, cases n) (simp add: CompareIPNet_def)

lemma CompareIPNet_None [simp]: "\<not> CompareIPNet None (Some n)"
  by (simp add: CompareIPNet_def)

lemma select_in: "selectIPv4Address addrs s = Inr a \<Longrightarrow> a \<in> set addrs"
  by (auto simp: selectIPv4Address_def find_Some_iff split: option.splits if_splits)

lemma select_Inl: "selectIPv4Address addrs s = Inl e \<longleftrightarrow> addrs = [] \<and> e = ''unable to select an address as the address pool is empty''"
  by (auto simp: selectIPv4Address_def split: option.splits)

lemma select_unique:
  "n \<in> set addrs \<Longrightarrow> \<forall>a \<in> set addrs. Contains n (nIP a) \<longrightarrow> a = n \<Longrightarrow> selectIPv4Address addrs (Some n) = Inr n"
proof -
  assume "n \<in> set addrs" "\<forall>a \<in> set addrs. Contains n (nIP a) \<longrightarrow> a = n"
  then have "find (\<lambda>a. Contains n (nIP a)) addrs = Some n"
    by (induction addrs) auto
  then show ?thesis by (auto simp: selectIPv4Address_def)
qed

lemma AddrAdd_ok: "AddrAdd a kn = (Inr u, kn') \<Longrightarrow> k_faults kn' = k_faults kn \<and> a \<in> set (k_addrs kn')"
  by (auto simp: AddrAdd_def split: if_splits)

lemma AddrDel_ok: "AddrDel a kn = (Inr u, kn') \<Longrightarrow> k_faults kn' = k_faults kn"
  by (auto simp: AddrDel_def split: if_splits)

lemma assignIPv4_post:
  assumes r: "assignIPv4 config kn = (Inr u, kn')" and n: "AddressIPv4 config = Some n"
  shows "k_faults kn' = k_faults kn \<and> FAddrList \<notin> k_faults kn \<and> n \<in> set (k_addrs kn')"
  using assms
  by (auto simp: assignIPv4_def Let_def AddrAdd_def AddrDel_def addresses_def
           dest: select_in split: if_splits sum.splits option.splits prod.splits)

lemma setupBridgeIPv4_post:
  assumes "setupBridgeIPv4 config i kn = (Inr (), i', kn')" "AddressIPv4 config = Some n"
  shows "i' = i\<lparr>bridgeIPv4 := Some n, gatewayIPv4 := (if Internal config then gatewayIPv4 i else Some (nIP n))\<rparr>
         \<and> k_faults kn' = k_faults kn
         \<and> (\<not> InhibitIPv4 config \<and> \<not> GwModeIsolated config \<longrightarrow> FAddrList \<notin> k_faults kn \<and> n \<in> set (k_addrs kn'))"
  using assms
  by (auto simp: setupBridgeIPv4_def Let_def dest: assignIPv4_post split: if_splits sum.splits prod.splits)

section \<open>The claims\<close>

text \<open>
  C22. Bounds: on a bridge network \<open>a/p\<close> (mask \<open>net.CIDRMask(p, 32)\<close>), \<open>setupGatewayIPv4\<close> accepts exactly the gateways whose value lies in the block of \<open>2^(32-p)\<close> addresses starting at \<open>a\<close> rounded down to a multiple of the block size (the network and broadcast addresses included), unless the network is internal, and then stores the gateway.
\<close>

theorem setupGatewayIPv4_range:
  assumes "bridgeIPv4 i = Some n" "nMask n = CIDRMask p" "DefaultGatewayIPv4 config = Some g"
  shows "setupGatewayIPv4 config i =
    (if \<not> (unat (nIP n) div 2 ^ (32 - p) * 2 ^ (32 - p) \<le> unat g
           \<and> unat g < unat (nIP n) div 2 ^ (32 - p) * 2 ^ (32 - p) + 2 ^ (32 - p)) then Inl ErrInvalidGateway
     else if Internal config then Inl (InvalidParameter ''no gateway can be set on an internal bridge network'')
     else Inr (i\<lparr>gatewayIPv4 := Some g\<rparr>))"
  using assms Contains_CIDR_range [OF assms(2), of g] by (simp add: setupGatewayIPv4_def)

theorem setupGatewayIPv4_range_witness:
  "setupGatewayIPv4 \<lparr>BridgeName = ''docker0'', AddressIPv4 = None, DefaultGatewayIPv4 = Some 0xAC11FFFE,
       Internal = False, InhibitIPv4 = False, GwModeIsolated = False\<rparr>
     \<lparr>bridgeIPv4 = Some \<lparr>nIP = 0xAC110001, nMask = CIDRMask 16\<rparr>, gatewayIPv4 = None\<rparr>
   = Inr \<lparr>bridgeIPv4 = Some \<lparr>nIP = 0xAC110001, nMask = CIDRMask 16\<rparr>, gatewayIPv4 = Some 0xAC11FFFE\<rparr>"
  using setupGatewayIPv4_range [where i = "\<lparr>bridgeIPv4 = Some \<lparr>nIP = 0xAC110001, nMask = CIDRMask 16\<rparr>, gatewayIPv4 = None\<rparr>"
      and n = "\<lparr>nIP = 0xAC110001, nMask = CIDRMask 16\<rparr>" and p = 16
      and config = "\<lparr>BridgeName = ''docker0'', AddressIPv4 = None, DefaultGatewayIPv4 = Some 0xAC11FFFE,
       Internal = False, InhibitIPv4 = False, GwModeIsolated = False\<rparr>" and g = "0xAC11FFFE"]
  by simp

text \<open>
  C23. When the configured network is not yet on the link, \<open>setupBridgeIPv4\<close> removes the address \<open>selectIPv4Address\<close> picks (if any), adds the configured one at the end, and records the network and its address as the gateway.
\<close>

theorem setupBridgeIPv4_installs:
  assumes "k_faults kn = {}" "\<not> InhibitIPv4 config" "\<not> GwModeIsolated config" "\<not> Internal config"
    "AddressIPv4 config = Some n" "n \<notin> set (k_addrs kn)"
  shows "setupBridgeIPv4 config i kn =
    (Inr (), i\<lparr>bridgeIPv4 := Some n, gatewayIPv4 := Some (nIP n)\<rparr>,
     kn\<lparr>k_addrs := (case selectIPv4Address (k_addrs kn) (Some n) of Inl _ \<Rightarrow> k_addrs kn
                    | Inr a \<Rightarrow> remove1 a (k_addrs kn)) @ [n]\<rparr>)"
proof (cases "selectIPv4Address (k_addrs kn) (Some n)")
  case (Inl e)
  then have "k_addrs kn = []" by (simp add: select_Inl)
  with Inl assms show ?thesis
    by (simp add: setupBridgeIPv4_def assignIPv4_def addresses_def AddrAdd_def)
next
  case (Inr a)
  with select_in have "a \<in> set (k_addrs kn)" by blast
  moreover have "n \<notin> set (remove1 a (k_addrs kn))" using assms(6) by (meson notin_set_remove1)
  ultimately show ?thesis using Inr assms
    by (auto simp: setupBridgeIPv4_def assignIPv4_def addresses_def AddrAdd_def AddrDel_def)
qed

theorem setupBridgeIPv4_installs_witness:
  "setupBridgeIPv4 cfg0 \<lparr>bridgeIPv4 = None, gatewayIPv4 = None\<rparr> kn0 =
     (Inr (), \<lparr>bridgeIPv4 = Some n0, gatewayIPv4 = Some 0xAC110001\<rparr>, kn0\<lparr>k_addrs := [n0]\<rparr>)"
proof -
  have "k_faults kn0 = {}" "\<not> InhibitIPv4 cfg0" "\<not> GwModeIsolated cfg0" "\<not> Internal cfg0"
    "AddressIPv4 cfg0 = Some n0" "n0 \<notin> set (k_addrs kn0)"
    by (simp_all add: kn0_def cfg0_def n0_def a0_def CIDRMask_def)
  from setupBridgeIPv4_installs [OF this, of "\<lparr>bridgeIPv4 = None, gatewayIPv4 = None\<rparr>"] show ?thesis
    by (simp add: selectIPv4Address_def kn0_def a0_def n0_def Contains_def CIDRMask_def)
qed

text \<open>
  C24. Once \<open>setupBridgeIPv4\<close> has succeeded, running it again with the same configuration changes nothing, provided the configured network is the only address of the link inside that network.
\<close>

theorem setupBridgeIPv4_idem:
  assumes "setupBridgeIPv4 config i kn = (Inr (), i', kn')" "AddressIPv4 config = Some n"
    "\<forall>a \<in> set (k_addrs kn'). Contains n (nIP a) \<longrightarrow> a = n"
  shows "setupBridgeIPv4 config i' kn' = (Inr (), i', kn')"
proof -
  note p = setupBridgeIPv4_post [OF assms(1,2)]
  show ?thesis
  proof (cases "InhibitIPv4 config \<or> GwModeIsolated config")
    case True
    with p assms(2) show ?thesis by (auto simp: setupBridgeIPv4_def)
  next
    case False
    with p have "FAddrList \<notin> k_faults kn'" "n \<in> set (k_addrs kn')" by auto
    with select_unique [OF _ assms(3)] have "assignIPv4 config kn' = (Inr (), kn')"
      using assms(2) by (simp add: assignIPv4_def addresses_def)
    with False p assms(2) show ?thesis by (auto simp: setupBridgeIPv4_def)
  qed
qed

theorem setupBridgeIPv4_idem_witness:
  "setupBridgeIPv4 cfg0 \<lparr>bridgeIPv4 = Some n0, gatewayIPv4 = Some 0xAC110001\<rparr> (kn0\<lparr>k_addrs := [n0]\<rparr>) =
     (Inr (), \<lparr>bridgeIPv4 = Some n0, gatewayIPv4 = Some 0xAC110001\<rparr>, kn0\<lparr>k_addrs := [n0]\<rparr>)"
proof -
  have r: "setupBridgeIPv4 cfg0 \<lparr>bridgeIPv4 = None, gatewayIPv4 = None\<rparr> kn0 =
     (Inr (), \<lparr>bridgeIPv4 = Some n0, gatewayIPv4 = Some 0xAC110001\<rparr>, kn0\<lparr>k_addrs := [n0]\<rparr>)"
    by (simp add: setupBridgeIPv4_def assignIPv4_def addresses_def selectIPv4Address_def AddrAdd_def AddrDel_def
                  kn0_def cfg0_def n0_def a0_def Contains_def CIDRMask_def)
  have "AddressIPv4 cfg0 = Some n0" "\<forall>a \<in> set (k_addrs (kn0\<lparr>k_addrs := [n0]\<rparr>)). Contains n0 (nIP a) \<longrightarrow> a = n0"
    by (simp_all add: cfg0_def)
  from setupBridgeIPv4_idem [OF r this] show ?thesis .
qed

text \<open>
  C25. When the link already carries the configured network but an address of the same network comes first, \<open>setupBridgeIPv4\<close> deletes that address and then fails, because adding the configured address again is refused as a duplicate.
\<close>

theorem setupBridgeIPv4_dup_fail:
  assumes "k_faults kn = {}" "\<not> InhibitIPv4 config" "\<not> GwModeIsolated config" "AddressIPv4 config = Some n"
    "find (\<lambda>a. Contains n (nIP a)) (k_addrs kn) = Some a" "a \<noteq> n" "n \<in> set (k_addrs kn)"
  shows "setupBridgeIPv4 config i kn =
    (Inl (BrErr ''failed to add IPv4 address to bridge: file exists''), i\<lparr>bridgeIPv4 := Some n\<rparr>,
     kn\<lparr>k_addrs := remove1 a (k_addrs kn)\<rparr>)"
proof -
  have s: "selectIPv4Address (k_addrs kn) (Some n) = Inr a" using assms(5,7)
    by (auto simp: selectIPv4Address_def)
  have "a \<in> set (k_addrs kn)" using assms(5) by (auto simp: find_Some_iff)
  moreover have "n \<in> set (remove1 a (k_addrs kn))" using assms(6,7) by (simp add: in_set_remove1)
  ultimately show ?thesis using assms s
    by (simp add: setupBridgeIPv4_def assignIPv4_def addresses_def AddrAdd_def AddrDel_def)
qed

theorem setupBridgeIPv4_dup_fail_witness:
  "setupBridgeIPv4 cfg0 \<lparr>bridgeIPv4 = None, gatewayIPv4 = None\<rparr> (kn0\<lparr>k_addrs := [a0, n0]\<rparr>) =
     (Inl (BrErr ''failed to add IPv4 address to bridge: file exists''), \<lparr>bridgeIPv4 = Some n0, gatewayIPv4 = None\<rparr>,
      kn0\<lparr>k_addrs := [n0]\<rparr>)"
proof -
  have "k_faults (kn0\<lparr>k_addrs := [a0, n0]\<rparr>) = {}" "\<not> InhibitIPv4 cfg0" "\<not> GwModeIsolated cfg0"
    "AddressIPv4 cfg0 = Some n0" "find (\<lambda>a. Contains n0 (nIP a)) (k_addrs (kn0\<lparr>k_addrs := [a0, n0]\<rparr>)) = Some a0"
    "a0 \<noteq> n0" "n0 \<in> set (k_addrs (kn0\<lparr>k_addrs := [a0, n0]\<rparr>))"
    by (simp_all add: kn0_def cfg0_def n0_def a0_def Contains_CIDR_iff [where p = 16])
  from setupBridgeIPv4_dup_fail [OF this, of "\<lparr>bridgeIPv4 = None, gatewayIPv4 = None\<rparr>"] show ?thesis
    by (simp add: a0_def n0_def CIDRMask_def)
qed

text \<open>
  C26. \<open>setupLoopbackAddressesRouting\<close> leaves \<open>route_localnet\<close> starting with \<open>1\<close> and is then a no-op; on an empty file it indexes byte 0 and panics.
\<close>

theorem setupLoopbackAddressesRouting_enables:
  assumes "k_files kn (route_localnet_path (BridgeName config)) = Some d"
    "FReadFile \<notin> k_faults kn" "FWriteFile \<notin> k_faults kn"
  shows "(d = [] \<longrightarrow> setupLoopbackAddressesRouting config kn = (Inl (BrPanic ''index out of range [0] with length 0''), kn))
       \<and> (d \<noteq> [] \<longrightarrow> (\<exists>kn'. setupLoopbackAddressesRouting config kn = (Inr (), kn')
            \<and> (\<exists>d'. k_files kn' (route_localnet_path (BridgeName config)) = Some d' \<and> hd d' = CHR ''1'')
            \<and> setupLoopbackAddressesRouting config kn' = (Inr (), kn')))"
  using assms by (auto simp: setupLoopbackAddressesRouting_def Let_def)

theorem setupLoopbackAddressesRouting_enables_witness:
  "setupLoopbackAddressesRouting cfg0 (kn0\<lparr>k_files := [route_localnet_path ''docker0'' \<mapsto> '''']\<rparr>)
     = (Inl (BrPanic ''index out of range [0] with length 0''), kn0\<lparr>k_files := [route_localnet_path ''docker0'' \<mapsto> '''']\<rparr>)
   \<and> (\<exists>kn'. setupLoopbackAddressesRouting cfg0 (kn0\<lparr>k_files := [route_localnet_path ''docker0'' \<mapsto> ''0'']\<rparr>) = (Inr (), kn')
        \<and> (\<exists>d'. k_files kn' (route_localnet_path ''docker0'') = Some d' \<and> hd d' = CHR ''1'')
        \<and> setupLoopbackAddressesRouting cfg0 kn' = (Inr (), kn'))"
proof -
  have e: "k_files (kn0\<lparr>k_files := [route_localnet_path ''docker0'' \<mapsto> '''']\<rparr>) (route_localnet_path (BridgeName cfg0)) = Some ''''"
    "FReadFile \<notin> k_faults (kn0\<lparr>k_files := [route_localnet_path ''docker0'' \<mapsto> '''']\<rparr>)"
    "FWriteFile \<notin> k_faults (kn0\<lparr>k_files := [route_localnet_path ''docker0'' \<mapsto> '''']\<rparr>)"
    by (simp_all add: cfg0_def kn0_def)
  have z: "k_files (kn0\<lparr>k_files := [route_localnet_path ''docker0'' \<mapsto> ''0'']\<rparr>) (route_localnet_path (BridgeName cfg0)) = Some ''0''"
    "FReadFile \<notin> k_faults (kn0\<lparr>k_files := [route_localnet_path ''docker0'' \<mapsto> ''0'']\<rparr>)"
    "FWriteFile \<notin> k_faults (kn0\<lparr>k_files := [route_localnet_path ''docker0'' \<mapsto> ''0'']\<rparr>)"
    by (simp_all add: cfg0_def kn0_def)
  from setupLoopbackAddressesRouting_enables [OF e] setupLoopbackAddressesRouting_enables [OF z] show ?thesis
    by (simp add: cfg0_def)
qed

end
