(* ===== verification/PluginClient.thy ===== *)
theory PluginClient
  imports Prelude
begin

text \<open>
  The plugin HTTP client (\<open>src/pkg/plugins/client.go\<close>): the transport's scheme and
  host header (\<open>newTransport\<close>, \<open>httpScheme\<close>), the call functions and the retry loop
  \<open>callWithRetry\<close> with its exponential \<open>backoff\<close> and its deadline \<open>abort\<close>.
  Durations are \<open>time.Duration\<close> values in nanoseconds (\<open>int\<close>); they stay far below
  the 64-bit range (the largest is 60 s), so no wrap-around is written. The network is a
  script: the outcome of the \<open>i\<close>-th request of a call is given, and the wall clock is
  explicit state that a failed attempt and a \<open>time.Sleep\<close> advance.
\<close>

section \<open>Durations\<close>

definition Second :: int where "Second = 1000000000"

definition defaultTimeOut :: int where "defaultTimeOut = 30 * Second"

definition dummyHost :: string where "dummyHost = ''plugin.moby.localhost''"

section \<open>Transport\<close>

text \<open>A parsed \<open>url.URL\<close>: only the fields the transport reads.\<close>

record URL =
  uScheme :: string
  uHost :: string
  uPath :: string

definition httpScheme :: "URL \<Rightarrow> string" where
  "httpScheme u = (if uScheme u \<noteq> ''https'' then ''http'' else uScheme u)"

record HTTPTransport =
  trScheme :: string
  trHost :: string
  trSocket :: string

text \<open>
  \<open>newTransport\<close>: the TLS options, the URL parser and \<open>sockets.ConfigureTransport\<close>
  are collaborators outside the sources; their failures are inputs (\<open>Some err\<close>).
\<close>

definition newTransport ::
  "string option \<Rightarrow> (string + URL) \<Rightarrow> (string \<Rightarrow> string \<Rightarrow> string option) \<Rightarrow> string + HTTPTransport" where
  "newTransport tlsErr parsed configure =
     (case tlsErr of
        Some e \<Rightarrow> Inl e
      | None \<Rightarrow>
          (case parsed of
             Inl e \<Rightarrow> Inl e
           | Inr u \<Rightarrow>
               (let socket = (if uHost u = '''' then uPath u else uHost u) in
                case configure (uScheme u) socket of
                  Some e \<Rightarrow> Inl e
                | None \<Rightarrow>
                    Inr \<lparr>trScheme = httpScheme u,
                         trHost = (if uHost u = '''' \<or> uScheme u = ''unix'' \<or> uScheme u = ''npipe'' then dummyHost
                                   else uHost u),
                         trSocket = socket\<rparr>)))"

section \<open>Back-off and deadline\<close>

text \<open>The doubling loop of \<open>backoff\<close>: double \<open>b\<close> while it is below the maximum and retries remain.\<close>

function backoff_loop :: "int \<Rightarrow> int \<Rightarrow> int" where
  "backoff_loop b retries =
     (if b < defaultTimeOut \<and> retries > 0 then backoff_loop (b * 2) (retries - 1) else b)"
  by pat_completeness auto
termination by (relation "measure (\<lambda>(b, r). nat r)") auto

declare backoff_loop.simps [simp del]

definition backoff :: "int \<Rightarrow> int" where
  "backoff retries = (let b = backoff_loop Second retries in if b > defaultTimeOut then defaultTimeOut else b)"

definition abort :: "int \<Rightarrow> int \<Rightarrow> int \<Rightarrow> int \<Rightarrow> bool" where
  "abort start timeOff overrideTimeout now =
     (let to = (if overrideTimeout > 0 then overrideTimeout else defaultTimeOut) in timeOff + (now - start) \<ge> to)"

section \<open>Requests\<close>

record RequestOpts =
  Timeout :: int
  testTimeOut :: int

definition WithRequestTimeout :: "int \<Rightarrow> RequestOpts \<Rightarrow> RequestOpts" where
  "WithRequestTimeout t opts = opts\<lparr>Timeout := t\<rparr>"

text \<open>
  The outcome of one request: \<open>NewRequest\<close> fails, \<open>http.Do\<close> fails after some
  nanoseconds (a connection error, or the per-request \<open>Timeout\<close> expiring), or a
  response arrives with its status, its body (or the error reading it) and the \<open>Err\<close>
  field \<open>json.Unmarshal\<close> finds in the body (\<open>None\<close> when the body is not JSON).
\<close>

datatype attempt =
    ReqFail string
  | ConnFail string nat
  | Response nat "string + string" "string option"

datatype plugin_err = PErr string | StatusError nat string string

text \<open>
  The \<open>for {}\<close> loop of \<open>callWithRetry\<close>, from the \<open>retries\<close>-th request at wall-clock
  time \<open>now\<close>; the result comes with the number of retries done and the final time.
\<close>

function retry_loop ::
  "(nat \<Rightarrow> attempt) \<Rightarrow> string \<Rightarrow> bool \<Rightarrow> RequestOpts \<Rightarrow> int \<Rightarrow> nat \<Rightarrow> int \<Rightarrow> (plugin_err + (string + string)) \<times> nat \<times> int" where
  "retry_loop w m retry opts start retries now =
     (case w retries of
        ReqFail e \<Rightarrow> (Inl (PErr e), retries, now)
      | ConnFail e d \<Rightarrow>
          (let now1 = now + int d in
           if \<not> retry then (Inl (PErr e), retries, now1)
           else
             (let timeOff = backoff (int retries) in
              if abort start timeOff (testTimeOut opts) now1 then (Inl (PErr e), retries, now1)
              else retry_loop w m retry opts start (retries + 1) (now1 + timeOff)))
      | Response st body f \<Rightarrow>
          if st \<noteq> 200 then
            (case body of
               Inl e \<Rightarrow> (Inl (StatusError st m e), retries, now)
             | Inr b \<Rightarrow>
                 (case f of
                    Some err \<Rightarrow> if err \<noteq> '''' then (Inl (StatusError st m err), retries, now)
                                else (Inl (StatusError st m b), retries, now)
                  | None \<Rightarrow> (Inl (StatusError st m b), retries, now)))
          else (Inr body, retries, now))"
  by pat_completeness auto
termination
proof (relation "measure (\<lambda>(w, m, retry, opts, start, retries, now).
          nat (start + (if testTimeOut opts > 0 then testTimeOut opts else defaultTimeOut) - now))")
  have loop: "b > 0 \<Longrightarrow> backoff_loop b r \<ge> b" for b r
  proof (induction b r rule: backoff_loop.induct)
    case (1 b r)
    show ?case
    proof (cases "b < defaultTimeOut \<and> r > 0")
      case True
      with 1 have "b * 2 \<le> backoff_loop (b * 2) (r - 1)" by simp
      with True 1(2) show ?thesis by (simp add: backoff_loop.simps [of b r])
    next
      case False
      then have "backoff_loop b r = b" by (subst backoff_loop.simps) (simp only: if_False)
      then show ?thesis by simp
    qed
  qed
  have pos: "backoff r \<ge> 1" for r
    using loop [of Second r] by (auto simp: backoff_def Let_def Second_def defaultTimeOut_def)
  fix w m retry opts start retries now e d now1 timeOff
  assume "\<not> abort start timeOff (testTimeOut opts) now1" "timeOff = backoff (int retries)" "now1 = now + int d"
  with pos [of "int retries"] show "((w, m, retry, opts, start, retries + 1, now1 + timeOff),
          w, m, retry, opts, start, retries, now) \<in> measure (\<lambda>(w, m, retry, opts, start, retries, now).
          nat (start + (if testTimeOut opts > 0 then testTimeOut opts else defaultTimeOut) - now))"
    by (auto simp: abort_def Let_def)
qed simp

declare retry_loop.simps [simp del]

definition callWithRetry ::
  "(nat \<Rightarrow> attempt) \<Rightarrow> string \<Rightarrow> bool \<Rightarrow> (RequestOpts \<Rightarrow> RequestOpts) list \<Rightarrow> int \<Rightarrow> (plugin_err + (string + string)) \<times> nat \<times> int" where
  "callWithRetry w m retry reqOpts now =
     retry_loop w m retry (fold (\<lambda>f acc. f acc) reqOpts \<lparr>Timeout = 0, testTimeOut = 0\<rparr>) now 0 now"

section \<open>Clients and calls\<close>

record Client =
  cTransport :: HTTPTransport
  cTimeout :: int

definition newClientWithTransport :: "HTTPTransport \<Rightarrow> int \<Rightarrow> Client" where
  "newClientWithTransport tr timeout = \<lparr>cTransport = tr, cTimeout = timeout\<rparr>"

definition NewClient ::
  "string option \<Rightarrow> (string + URL) \<Rightarrow> (string \<Rightarrow> string \<Rightarrow> string option) \<Rightarrow> string + Client" where
  "NewClient tlsErr parsed configure =
     (case newTransport tlsErr parsed configure of Inl e \<Rightarrow> Inl e | Inr tr \<Rightarrow> Inr (newClientWithTransport tr 0))"

definition NewClientWithTimeout ::
  "string option \<Rightarrow> (string + URL) \<Rightarrow> (string \<Rightarrow> string \<Rightarrow> string option) \<Rightarrow> int \<Rightarrow> string + Client" where
  "NewClientWithTimeout tlsErr parsed configure timeout =
     (case newTransport tlsErr parsed configure of Inl e \<Rightarrow> Inl e | Inr tr \<Rightarrow> Inr (newClientWithTransport tr timeout))"

text \<open>
  \<open>CallWithOptions\<close>: JSON-encode the arguments (when there are any; \<open>enc\<close> is
  \<open>json.Encoder.Encode\<close>), call with retries, and decode the body into the result
  (when one is wanted; \<open>dec\<close> is \<open>json.Decoder.Decode\<close>, reading the body). A failure
  to encode returns before any request is made.
\<close>

definition CallWithOptions ::
  "(nat \<Rightarrow> attempt) \<Rightarrow> ('a \<Rightarrow> string + string) \<Rightarrow> (string \<Rightarrow> string + 'b) \<Rightarrow> string \<Rightarrow> 'a option \<Rightarrow> bool
   \<Rightarrow> (RequestOpts \<Rightarrow> RequestOpts) list \<Rightarrow> int \<Rightarrow> (plugin_err + 'b option) \<times> nat \<times> int" where
  "CallWithOptions w enc dec m args wantRet opts now =
     (case (case args of None \<Rightarrow> Inr '''' | Some a \<Rightarrow> enc a) of
        Inl e \<Rightarrow> (Inl (PErr e), 0, now)
      | Inr buf \<Rightarrow>
          (case callWithRetry w m True opts now of
             (Inl e, r, t) \<Rightarrow> (Inl e, r, t)
           | (Inr body, r, t) \<Rightarrow>
               if \<not> wantRet then (Inr None, r, t)
               else (case body of
                       Inl e \<Rightarrow> (Inl (PErr e), r, t)
                     | Inr b \<Rightarrow> (case dec b of Inl e \<Rightarrow> (Inl (PErr e), r, t) | Inr v \<Rightarrow> (Inr (Some v), r, t)))))"

definition Call ::
  "(nat \<Rightarrow> attempt) \<Rightarrow> ('a \<Rightarrow> string + string) \<Rightarrow> (string \<Rightarrow> string + 'b) \<Rightarrow> string \<Rightarrow> 'a option \<Rightarrow> bool
   \<Rightarrow> int \<Rightarrow> (plugin_err + 'b option) \<times> nat \<times> int" where
  "Call w enc dec m args wantRet now = CallWithOptions w enc dec m args wantRet [] now"

definition Stream ::
  "(nat \<Rightarrow> attempt) \<Rightarrow> ('a \<Rightarrow> string + string) \<Rightarrow> string \<Rightarrow> 'a \<Rightarrow> int \<Rightarrow> (plugin_err + (string + string)) \<times> nat \<times> int" where
  "Stream w enc m args now =
     (case enc args of Inl e \<Rightarrow> (Inl (PErr e), 0, now) | Inr buf \<Rightarrow> callWithRetry w m True [] now)"

definition SendFile ::
  "(nat \<Rightarrow> attempt) \<Rightarrow> (string \<Rightarrow> string + 'b) \<Rightarrow> string \<Rightarrow> int \<Rightarrow> (plugin_err + 'b) \<times> nat \<times> int" where
  "SendFile w dec m now =
     (case callWithRetry w m True [] now of
        (Inl e, r, t) \<Rightarrow> (Inl e, r, t)
      | (Inr body, r, t) \<Rightarrow>
          (case body of
             Inl e \<Rightarrow> (Inl (PErr e), r, t)
           | Inr b \<Rightarrow> (case dec b of Inl e \<Rightarrow> (Inl (PErr e), r, t) | Inr v \<Rightarrow> (Inr v, r, t))))"

text \<open>A plugin that refuses connections three times and then answers.\<close>

definition demo_plugin :: "nat \<Rightarrow> attempt" where
  "demo_plugin i = (if i < 3 then ConnFail ''connection refused'' 0 else Response 200 (Inr ''{}'') None)"

section \<open>Back-off, bounds and reachability\<close>

lemma backoff_loop_pow:
  "j \<le> 5 \<Longrightarrow> nat r = n \<Longrightarrow> backoff_loop (2 ^ j * Second) r = 2 ^ min (j + n) 5 * Second"
proof (induction n arbitrary: j r)
  case 0
  then show ?case by (simp add: backoff_loop.simps [of _ r])
next
  case (Suc n)
  show ?case
  proof (cases "j < 5")
    case True
    have lt: "2 ^ j * Second < defaultTimeOut"
    proof -
      have "(2::int) ^ j \<le> 2 ^ 4" using True by (intro power_increasing) auto
      then show ?thesis by (simp add: defaultTimeOut_def Second_def)
    qed
    have "backoff_loop (2 ^ j * Second) r = backoff_loop (2 ^ (j + 1) * Second) (r - 1)"
    proof -
      have "0 < r" using Suc.prems by simp
      with lt show ?thesis by (simp add: backoff_loop.simps [of _ r] mult.commute mult.left_commute)
    qed
    also have "\<dots> = 2 ^ min (j + 1 + n) 5 * Second"
      using Suc.prems True by (intro Suc.IH) auto
    finally show ?thesis by simp
  next
    case False
    with Suc.prems have "j = 5" by simp
    then show ?thesis by (simp add: backoff_loop.simps [of _ r] defaultTimeOut_def Second_def)
  qed
qed

lemma backoff_small: "k \<le> 4 \<Longrightarrow> backoff (int k) = 2 ^ k * Second"
proof -
  assume k: "k \<le> 4"
  then have "(2::int) ^ k \<le> 2 ^ 4" by (intro power_increasing) auto
  moreover have "backoff_loop Second (int k) = 2 ^ k * Second"
    using backoff_loop_pow [of 0 "int k" k] k by simp
  ultimately show ?thesis by (simp add: backoff_def Let_def defaultTimeOut_def Second_def)
qed

lemma retry_loop_bound:
  "testTimeOut opts = 0 \<Longrightarrow> retries \<le> 4 \<Longrightarrow> (2 ^ retries - 1) * Second \<le> now - start \<Longrightarrow>
   fst (snd (retry_loop w m retry opts start retries now)) \<le> 4"
proof (induction w m retry opts start retries now rule: retry_loop.induct)
  case (1 w m retry opts start retries now)
  show ?case
  proof (cases "w retries")
    case (ConnFail e d)
    show ?thesis
    proof (cases "retry \<and> \<not> abort start (backoff (int retries)) (testTimeOut opts) (now + int d)")
      case True
      have b: "backoff (int retries) = 2 ^ retries * Second" using "1.prems"(2) by (rule backoff_small)
      have "retries < 4"
      proof (rule ccontr)
        assume "\<not> retries < 4"
        with "1.prems" have "retries = 4" by simp
        with True b "1.prems" show False by (simp add: abort_def defaultTimeOut_def Second_def)
      qed
      moreover have bnd: "(2 ^ (retries + 1) - 1) * Second \<le> now + int d + backoff (int retries) - start"
        using "1.prems"(3) b by (simp add: algebra_simps)
      ultimately have "fst (snd (retry_loop w m retry opts start (retries + 1) (now + int d + backoff (int retries)))) \<le> 4"
        using True "1.prems"(1) by (intro "1.IH" [OF ConnFail refl _ refl]) auto
      moreover have "retry_loop w m retry opts start retries now
          = retry_loop w m retry opts start (retries + 1) (now + int d + backoff (int retries))"
        by (subst retry_loop.simps [of w m retry opts start retries now]) (use ConnFail True in \<open>simp add: Let_def\<close>)
      ultimately show ?thesis by simp
    next
      case False
      then show ?thesis using ConnFail "1.prems"
        by (auto simp: retry_loop.simps [of w m retry opts start retries now] Let_def)
    qed
  qed (use "1.prems" in \<open>auto simp: retry_loop.simps [of w m retry opts start retries now] split: sum.splits option.splits\<close>)
qed

lemma fold_WithRequestTimeout:
  "testTimeOut (fold (\<lambda>f acc. f acc) (map WithRequestTimeout ts) opts) = testTimeOut opts"
  by (induction ts arbitrary: opts) (simp_all add: WithRequestTimeout_def)

lemma retry_reaches:
  assumes "k \<le> 4" "testTimeOut opts = 0" "\<forall>i<k. \<exists>e. w i = ConnFail e 0" "w k = Response 200 body f"
  shows "n = k - j \<Longrightarrow> j \<le> k \<Longrightarrow>
    retry_loop w m True opts start j (start + (2 ^ j - 1) * Second) = (Inr body, k, start + (2 ^ k - 1) * Second)"
proof (induction n arbitrary: j)
  case 0
  then have "j = k" by simp
  with assms(4) show ?case by (subst retry_loop.simps) simp
next
  case (Suc n)
  then have j: "j < k" by simp
  with assms(3) obtain e where e: "w j = ConnFail e 0" by blast
  have b: "backoff (int j) = 2 ^ j * Second" using j assms(1) by (intro backoff_small) simp
  have "(2::int) ^ (j + 1) \<le> 2 ^ 4" using j assms(1) by (intro power_increasing) auto
  then have na: "\<not> abort start (backoff (int j)) (testTimeOut opts) (start + (2 ^ j - 1) * Second + int 0)"
    using assms(2) b by (simp add: abort_def defaultTimeOut_def Second_def algebra_simps)
  have step: "retry_loop w m True opts start j (start + (2 ^ j - 1) * Second)
      = retry_loop w m True opts start (j + 1) (start + (2 ^ (j + 1) - 1) * Second)"
    by (subst retry_loop.simps [of w m True opts start j]) (use e na b in \<open>simp add: Let_def algebra_simps\<close>)
  also have "\<dots> = (Inr body, k, start + (2 ^ k - 1) * Second)"
    using Suc.prems j by (intro Suc.IH) auto
  finally show ?case .
qed

section \<open>The claims\<close>

text \<open>
  C27. Equivalence: the doubling loop of \<open>backoff\<close> computes \<open>min(2^retries s, 30 s)\<close> (one second for a non-positive count).
\<close>

theorem backoff_closed: "backoff r = min (2 ^ nat r * Second) defaultTimeOut"
proof -
  have "backoff_loop Second r = 2 ^ min (nat r) 5 * Second"
    using backoff_loop_pow [of 0 r "nat r"] by simp
  moreover have "min (2 ^ min (nat r) 5 * Second) defaultTimeOut = min (2 ^ nat r * Second) defaultTimeOut"
  proof (cases "nat r \<le> 4")
    case True
    then show ?thesis by (simp add: min_def)
  next
    case False
    have "(2::int) ^ 5 \<le> 2 ^ nat r" using False by (intro power_increasing) auto
    with False show ?thesis by (simp add: min_def defaultTimeOut_def Second_def)
  qed
  moreover have "backoff r = min (backoff_loop Second r) defaultTimeOut"
    by (simp add: backoff_def Let_def min_def)
  ultimately show ?thesis by simp
qed

text \<open>
  C28. Bounds: with the default deadline (the options only set the request timeout), \<open>callWithRetry\<close> retries at most 4 times, i.e. makes at most 5 requests, whatever the plugin answers and however long each attempt takes.
\<close>

theorem callWithRetry_attempts:
  "fst (snd (callWithRetry w m retry (map WithRequestTimeout ts) now)) \<le> 4"
  unfolding callWithRetry_def
  by (rule retry_loop_bound) (simp_all add: fold_WithRequestTimeout)

text \<open>
  C29. A plugin that refuses connections for its first \<open>k \<le> 4\<close> requests and then answers 200 is reached: \<open>callWithRetry\<close> returns its body after \<open>k\<close> retries and \<open>2^k - 1\<close> seconds of back-off.
\<close>

theorem callWithRetry_reaches:
  assumes "k \<le> 4" "\<forall>i<k. \<exists>e. w i = ConnFail e 0" "w k = Response 200 body f"
  shows "callWithRetry w m True [] now = (Inr body, k, now + (2 ^ k - 1) * Second)"
  using retry_reaches [OF assms(1) _ assms(2,3), of "\<lparr>Timeout = 0, testTimeOut = 0\<rparr>" k 0 m now]
  by (simp add: callWithRetry_def)

theorem callWithRetry_reaches_witness:
  "callWithRetry demo_plugin ''VolumeDriver.Mount'' True [] 0 = (Inr (Inr ''{}''), 3, 7 * Second)"
proof -
  have "(3::nat) \<le> 4" "\<forall>i<3. \<exists>e. demo_plugin i = ConnFail e 0" "demo_plugin 3 = Response 200 (Inr ''{}'') None"
    by (simp_all add: demo_plugin_def)
  from callWithRetry_reaches [OF this, of "''VolumeDriver.Mount''" 0] show ?thesis by simp
qed

text \<open>
  C30. Errors: a non-200 answer whose JSON body has a non-empty \<open>Err\<close> field ends \<open>CallWithOptions\<close> at once, without retrying, with a \<open>statusError\<close> carrying that message.
\<close>

theorem CallWithOptions_status_err:
  assumes "w 0 = Response st (Inr b) (Some err)" "st \<noteq> 200" "err \<noteq> ''''"
    "case args of None \<Rightarrow> True | Some a \<Rightarrow> \<not> isl (enc a)"
  shows "CallWithOptions w enc dec m args wantRet opts now = (Inl (StatusError st m err), 0, now)"
proof -
  have "callWithRetry w m True opts now = (Inl (StatusError st m err), 0, now)"
    using assms(1-3) by (simp add: callWithRetry_def retry_loop.simps [of w m True _ now 0 now])
  with assms(4) show ?thesis
    by (cases args) (auto simp: CallWithOptions_def isl_def split: sum.splits)
qed

theorem CallWithOptions_status_err_witness:
  "CallWithOptions (\<lambda>_. Response 500 (Inr ''Err: no such volume'') (Some ''no such volume''))
     (\<lambda>a. Inr a) (\<lambda>b. Inr b) ''VolumeDriver.Mount'' (Some ''{}'') True [] 0
   = (Inl (StatusError 500 ''VolumeDriver.Mount'' ''no such volume''), 0, 0)"
proof -
  have "(\<lambda>_. Response 500 (Inr ''Err: no such volume'') (Some ''no such volume'')) (0::nat)
          = Response 500 (Inr ''Err: no such volume'') (Some ''no such volume'')"
    "(500::nat) \<noteq> 200" "''no such volume'' \<noteq> ''''"
    "case Some ''{}'' of None \<Rightarrow> True | Some a \<Rightarrow> \<not> isl ((\<lambda>a. Inr a) a :: string + string)"
    by simp_all
  from CallWithOptions_status_err [OF this] show ?thesis .
qed

end
