(* ===== verification/VolumeMount.thy ===== *)
theory VolumeMount
  imports Prelude
begin

text \<open>
  The mount point of a container (package \<open>mounts\<close>,
  \<open>src/daemon/volume/mounts/mounts.go\<close>): \<open>Setup\<close> mounts the volume (or prepares the
  bind source) and counts the mount in \<open>active\<close>, \<open>Cleanup\<close> undoes one \<open>Setup\<close>,
  \<open>LiveRestore\<close> re-counts a mount that survived a daemon restart. The volume, its
  driver, \<open>safepath\<close>, SELinux labelling and the host file system are collaborators
  outside the sources; they are one explicit state \<open>vworld\<close>: how many times the driver
  holds each volume mounted under each mount ID, the safe paths handed out, the host
  directories, the stream of random IDs, and the calls that fail.
\<close>

section \<open>The mount point\<close>

datatype mount_type = TypeBind | TypeVolume | TypeTmpfs | TypeNamedPipe | TypeCluster | TypeImage

text \<open>
  The fields of \<open>MountPoint\<close> the operations read or write. The volume is named by
  \<open>mpVolume\<close> (\<open>None\<close> for a nil \<open>Volume\<close>), with whether it implements
  \<open>volume.LiveRestorer\<close>; \<open>volSubpath\<close> and \<open>imgSubpath\<close> are the subpaths of the
  request's volume and image options; \<open>safePaths\<close> indexes the safe paths of the world.
\<close>

record MountPoint =
  mpSource :: string
  mpType :: mount_type
  mpVolume :: "string option"
  mpLiveRestorer :: bool
  mpMode :: string
  mpID :: string
  SkipMountpointCreation :: bool
  active :: int
  safePaths :: "nat list"
  volSubpath :: string
  imgSubpath :: string

datatype vfault =
  VMount | VUnmount | VJoin | VMkdir | VEvalSymlinks | VRelabel | VRelabelNotSup | VLiveRestore

record vworld =
  vw_mounts :: "string \<times> string \<Rightarrow> nat"
  vw_path :: "string \<Rightarrow> string"
  vw_sp :: "(string \<times> bool) list"
  vw_dirs :: "string set"
  vw_files :: "string set"
  vw_nextRandom :: nat
  vw_faults :: "vfault set"

text \<open>The cleanup function \<open>Setup\<close> returns: \<open>noCleanup\<close>, or the \<open>Close\<close> of a safe path.\<close>

datatype cleanupFn = NoCleanup | SafePathClose nat

section \<open>Collaborators\<close>

text \<open>\<open>volume.Volume.Mount\<close> and \<open>Unmount\<close>: the driver counts the mounts of each ID.\<close>

definition vol_Mount :: "string \<Rightarrow> string \<Rightarrow> vworld \<Rightarrow> (string + string) \<times> vworld" where
  "vol_Mount v mid w =
     (if VMount \<in> vw_faults w then (Inl ''mount failed'', w)
      else (Inr (vw_path w v), w\<lparr>vw_mounts := (vw_mounts w)((v, mid) := vw_mounts w (v, mid) + 1)\<rparr>))"

definition vol_Unmount :: "string \<Rightarrow> string \<Rightarrow> vworld \<Rightarrow> (string + unit) \<times> vworld" where
  "vol_Unmount v mid w =
     (if VUnmount \<in> vw_faults w then (Inl ''unmount failed'', w)
      else (Inr (), w\<lparr>vw_mounts := (vw_mounts w)((v, mid) := vw_mounts w (v, mid) - 1)\<rparr>))"

text \<open>\<open>LiveRestoreVolume\<close> re-establishes one counted mount under the ID.\<close>

definition vol_LiveRestore :: "string \<Rightarrow> string \<Rightarrow> vworld \<Rightarrow> (string + unit) \<times> vworld" where
  "vol_LiveRestore v mid w =
     (if VLiveRestore \<in> vw_faults w then (Inl ''live restore failed'', w)
      else (Inr (), w\<lparr>vw_mounts := (vw_mounts w)((v, mid) := vw_mounts w (v, mid) + 1)\<rparr>))"

text \<open>\<open>safepath.Join\<close>: a new valid safe path for the subpath of a base directory.\<close>

definition safepath_Join :: "string \<Rightarrow> string \<Rightarrow> vworld \<Rightarrow> (string + nat) \<times> vworld" where
  "safepath_Join base sub w =
     (if VJoin \<in> vw_faults w then (Inl ''safepath: invalid subpath'', w)
      else (Inr (length (vw_sp w)), w\<lparr>vw_sp := vw_sp w @ [(base @ ''/'' @ sub, True)]\<rparr>))"

definition safepath_Close :: "nat \<Rightarrow> vworld \<Rightarrow> vworld" where
  "safepath_Close i w = w\<lparr>vw_sp := (if i < length (vw_sp w) then (vw_sp w)[i := (fst (vw_sp w ! i), False)] else vw_sp w)\<rparr>"

definition run_cleanup :: "cleanupFn \<Rightarrow> vworld \<Rightarrow> vworld" where
  "run_cleanup c w = (case c of NoCleanup \<Rightarrow> w | SafePathClose i \<Rightarrow> safepath_Close i w)"

text \<open>\<open>stringid.GenerateRandomID\<close>: the next ID of the stream.\<close>

definition genRandomID :: "vworld \<Rightarrow> string \<times> vworld" where
  "genRandomID w = (stringid (vw_nextRandom w), w\<lparr>vw_nextRandom := Suc (vw_nextRandom w)\<rparr>)"

text \<open>\<open>strings.Split(mode, ",")\<close>.\<close>

fun split_comma :: "string \<Rightarrow> string list" where
  "split_comma [] = [[]]"
| "split_comma (c # cs) = (if c = CHR '','' then [] # split_comma cs
                           else (case split_comma cs of f # fs \<Rightarrow> (c # f) # fs | [] \<Rightarrow> [[c]]))"

text \<open>\<open>label.RelabelNeeded\<close>: the mode holds the option \<open>z\<close> or \<open>Z\<close>.\<close>

definition RelabelNeeded :: "string \<Rightarrow> bool" where
  "RelabelNeeded mode \<longleftrightarrow> ''z'' \<in> set (split_comma mode) \<or> ''Z'' \<in> set (split_comma mode)"

section \<open>The operations\<close>

datatype mp_err = MErr string

text \<open>The loop of \<open>Cleanup\<close> that closes the safe paths still valid.\<close>

definition closeSafePaths :: "nat list \<Rightarrow> vworld \<Rightarrow> vworld" where
  "closeSafePaths ps w =
     fold (\<lambda>i w'. if i < length (vw_sp w') \<and> snd (vw_sp w' ! i) then safepath_Close i w' else w') ps w"

text \<open>
  \<open>Cleanup\<close>: nothing without a volume or an ID, nothing (but a log line) when the count
  is already zero; otherwise close the safe paths still valid, unmount, and count down,
  forgetting the ID at zero.
\<close>

definition MountPoint_Cleanup :: "MountPoint \<Rightarrow> vworld \<Rightarrow> (mp_err + unit) \<times> MountPoint \<times> vworld" where
  "MountPoint_Cleanup m w =
     (case mpVolume m of
        None \<Rightarrow> (Inr (), m, w)
      | Some v \<Rightarrow>
          if mpID m = '''' then (Inr (), m, w)
          else if active m = 0 then (Inr (), m, w)
          else
            (let w1 = closeSafePaths (safePaths m) w
             in case vol_Unmount v (mpID m) w1 of
                  (Inl e, w2) \<Rightarrow> (Inl (MErr (''error unmounting volume '' @ v @ '': '' @ e)), m, w2)
                | (Inr _, w2) \<Rightarrow>
                    (let m1 = m\<lparr>active := active m - 1\<rparr> in
                     (Inr (), if active m1 = 0 then m1\<lparr>mpID := ''''\<rparr> else m1, w2))))"

text \<open>
  The body of \<open>Setup\<close> after the \<open>SkipMountpointCreation\<close> check, up to its return:
  mount the volume (under the current ID or a fresh one), optionally through a safe
  path for the subpath; or resolve an image subpath; or prepare a bind source.
\<close>

definition setup_body ::
  "(MountPoint \<Rightarrow> string option) option \<Rightarrow> MountPoint \<Rightarrow> vworld
   \<Rightarrow> (mp_err + string \<times> cleanupFn) \<times> MountPoint \<times> vworld" where
  "setup_body checkFun m w =
     (case mpVolume m of
        Some v \<Rightarrow>
          (let (mid, w0) = (if mpID m = '''' then genRandomID w else (mpID m, w)) in
           case vol_Mount v mid w0 of
             (Inl e, w1) \<Rightarrow> (Inl (MErr (''error while mounting volume '' @ mpSource m @ '': '' @ e)), m, w1)
           | (Inr volumePath, w1) \<Rightarrow>
               (let m1 = m\<lparr>mpID := mid\<rparr> in
                if volSubpath m \<noteq> '''' then
                  (case safepath_Join volumePath (volSubpath m) w1 of
                     (Inl e, w2) \<Rightarrow> (Inl (MErr e), m1, snd (vol_Unmount v mid w2))
                   | (Inr sp, w2) \<Rightarrow>
                       (Inr (fst (vw_sp w2 ! sp), SafePathClose sp),
                        m1\<lparr>safePaths := safePaths m1 @ [sp], active := active m1 + 1\<rparr>, w2))
                else (Inr (volumePath, NoCleanup), m1\<lparr>active := active m1 + 1\<rparr>, w1)))
      | None \<Rightarrow>
          if mpType m = TypeImage \<and> imgSubpath m \<noteq> '''' then
            (case safepath_Join (mpSource m) (imgSubpath m) w of
               (Inl e, w2) \<Rightarrow> (Inl (MErr e), m, w2)
             | (Inr sp, w2) \<Rightarrow> (Inr (fst (vw_sp w2 ! sp), SafePathClose sp), m\<lparr>safePaths := safePaths m @ [sp]\<rparr>, w2))
          else if mpSource m = '''' then
            (Inl (MErr ''Unable to setup mount point, neither source nor volume defined''), m, w)
          else if mpType m = TypeBind then
            (case (case checkFun of None \<Rightarrow> None | Some f \<Rightarrow> f m) of
               Some e \<Rightarrow> (Inl (MErr e), m, w)
             | None \<Rightarrow>
                 if mpSource m \<in> vw_dirs w \<or> mpSource m \<in> vw_files w then (Inr (mpSource m, NoCleanup), m, w)
                 else if VMkdir \<in> vw_faults w then
                   (Inl (MErr (''error while creating mount source path '' @ mpSource m)), m, w)
                 else (Inr (mpSource m, NoCleanup), m, w\<lparr>vw_dirs := insert (mpSource m) (vw_dirs w)\<rparr>))
          else (Inr (mpSource m, NoCleanup), m, w))"

text \<open>
  \<open>Setup\<close>: the deferred relabelling runs when the body succeeded and the mode asks for
  it; a failure to resolve the path or to relabel (other than \<open>ENOTSUP\<close>) runs the
  returned cleanup and turns the result into an error, the volume staying mounted.
\<close>

definition MountPoint_Setup ::
  "(MountPoint \<Rightarrow> string option) option \<Rightarrow> MountPoint \<Rightarrow> vworld
   \<Rightarrow> (mp_err + string \<times> cleanupFn) \<times> MountPoint \<times> vworld" where
  "MountPoint_Setup checkFun m w =
     (if SkipMountpointCreation m then (Inr (mpSource m, NoCleanup), m, w)
      else
        (case setup_body checkFun m w of
           (Inr (p, c), m1, w1) \<Rightarrow>
             if \<not> RelabelNeeded (mpMode m1) then (Inr (p, c), m1, w1)
             else if VEvalSymlinks \<in> vw_faults w1 then
               (Inl (MErr (''error evaluating symlinks from mount source '' @ mpSource m1)), m1, run_cleanup c w1)
             else if VRelabel \<in> vw_faults w1 \<and> VRelabelNotSup \<notin> vw_faults w1 then
               (Inl (MErr (''error setting label on mount source '' @ p)), m1, run_cleanup c w1)
             else (Inr (p, c), m1, w1)
         | r \<Rightarrow> r))"

definition MountPoint_LiveRestore :: "MountPoint \<Rightarrow> vworld \<Rightarrow> (mp_err + unit) \<times> MountPoint \<times> vworld" where
  "MountPoint_LiveRestore m w =
     (case mpVolume m of
        None \<Rightarrow> (Inr (), m, w)
      | Some v \<Rightarrow>
          if \<not> mpLiveRestorer m then (Inr (), m, w)
          else
            (let (mid, w0) = (if mpID m = '''' then genRandomID w else (mpID m, w)) in
             case vol_LiveRestore v mid w0 of
               (Inl e, w1) \<Rightarrow> (Inl (MErr (''error while restoring volume '' @ mpSource m @ '': '' @ e)), m, w1)
             | (Inr _, w1) \<Rightarrow> (Inr (), m\<lparr>mpID := mid, active := active m + 1\<rparr>, w1)))"

definition MountPoint_Path :: "MountPoint \<Rightarrow> vworld \<Rightarrow> string" where
  "MountPoint_Path m w = (case mpVolume m of Some v \<Rightarrow> vw_path w v | None \<Rightarrow> mpSource m)"

definition errInvalidMode :: "string \<Rightarrow> mp_err" where
  "errInvalidMode mode = MErr (''invalid mode: '' @ mode)"

definition errInvalidSpec :: "string \<Rightarrow> mp_err" where
  "errInvalidSpec spec = MErr (''invalid volume specification: '' @ CHR 0x27 # spec @ [CHR 0x27])"

section \<open>The invariant and sequences of operations\<close>

text \<open>
  The volume driver's count of mounts under the mount point's ID equals \<open>active\<close>,
  and the IDs the random stream has not drawn yet are unused: neither the mount
  point's ID nor mounted on the volume.
\<close>

definition vol_balanced :: "string \<Rightarrow> MountPoint \<Rightarrow> vworld \<Rightarrow> bool" where
  "vol_balanced v m w \<longleftrightarrow>
     (mpID m \<noteq> '''' \<longrightarrow> vw_mounts w (v, mpID m) = nat (active m))
     \<and> (\<forall>n. vw_nextRandom w \<le> n \<longrightarrow> vw_mounts w (v, stringid n) = 0)"

definition mp_inv :: "MountPoint \<Rightarrow> vworld \<Rightarrow> bool" where
  "mp_inv m w \<longleftrightarrow>
     0 \<le> active m \<and> (mpID m = '''' \<longrightarrow> active m = 0)
     \<and> (\<forall>n. vw_nextRandom w \<le> n \<longrightarrow> mpID m \<noteq> stringid n)
     \<and> (case mpVolume m of None \<Rightarrow> active m = 0 | Some v \<Rightarrow> vol_balanced v m w)"

text \<open>
  Sequences of the three operations on one mount point; each step names the calls
  of the volume, \<open>safepath\<close> and the host that fail during it.
\<close>

datatype mp_op = OpSetup "vfault set" | OpCleanup "vfault set" | OpLiveRestore "vfault set"

definition mp_step ::
  "(MountPoint \<Rightarrow> string option) option \<Rightarrow> mp_op \<Rightarrow> MountPoint \<times> vworld \<Rightarrow> MountPoint \<times> vworld" where
  "mp_step c op s =
     (case op of
        OpSetup F \<Rightarrow> snd (MountPoint_Setup c (fst s) ((snd s)\<lparr>vw_faults := F\<rparr>))
      | OpCleanup F \<Rightarrow> snd (MountPoint_Cleanup (fst s) ((snd s)\<lparr>vw_faults := F\<rparr>))
      | OpLiveRestore F \<Rightarrow> snd (MountPoint_LiveRestore (fst s) ((snd s)\<lparr>vw_faults := F\<rparr>)))"

definition mp_run ::
  "(MountPoint \<Rightarrow> string option) option \<Rightarrow> mp_op list \<Rightarrow> MountPoint \<times> vworld \<Rightarrow> MountPoint \<times> vworld" where
  "mp_run c ops s = fold (mp_step c) ops s"

definition setup_safe :: "mp_op \<Rightarrow> bool" where
  "setup_safe op = (case op of OpSetup F \<Rightarrow> \<not> (VJoin \<in> F \<and> VUnmount \<in> F) | _ \<Rightarrow> True)"

text \<open>A fresh mount point of the named volume \<open>vol\<close> with mode \<open>z\<close>, and an idle host.\<close>

definition mp0 :: MountPoint where
  "mp0 = \<lparr>mpSource = ''vol'', mpType = TypeVolume, mpVolume = Some ''vol'', mpLiveRestorer = True,
          mpMode = ''z'', mpID = '''', SkipMountpointCreation = False, active = 0, safePaths = [],
          volSubpath = '''', imgSubpath = ''''\<rparr>"

definition vw0 :: vworld where
  "vw0 = \<lparr>vw_mounts = (\<lambda>_. 0), vw_path = (\<lambda>v. ''/var/lib/docker/volumes/'' @ v @ ''/_data''),
          vw_sp = [], vw_dirs = {}, vw_files = {}, vw_nextRandom = 0, vw_faults = {}\<rparr>"

section \<open>Lemmas\<close>

lemma stringid_nonempty [simp]: "stringid n \<noteq> ''''" "'''' \<noteq> stringid n"
  by (simp_all add: stringid_def)

lemma mp_inv_world [simp]:
  "mp_inv m (w\<lparr>vw_sp := s\<rparr>) = mp_inv m w"
  "mp_inv m (w\<lparr>vw_dirs := d\<rparr>) = mp_inv m w"
  "mp_inv m (w\<lparr>vw_faults := f\<rparr>) = mp_inv m w"
  "mp_inv (m\<lparr>safePaths := p\<rparr>) w = mp_inv m w"
  by (simp_all add: mp_inv_def vol_balanced_def split: option.split)

lemma run_cleanup_inv [simp]: "mp_inv m (run_cleanup c w) = mp_inv m w"
  by (simp add: run_cleanup_def safepath_Close_def split: cleanupFn.split)

lemma setup_body_none_inv:
  assumes "mp_inv m w" "mpVolume m = None"
  shows "mp_inv (fst (snd (setup_body c m w))) (snd (snd (setup_body c m w)))"
  using assms unfolding setup_body_def safepath_Join_def
  by (auto split: option.splits prod.splits)

lemma setup_body_some_inv:
  assumes "mp_inv m w" "mpVolume m = Some v" "\<not> (VJoin \<in> vw_faults w \<and> VUnmount \<in> vw_faults w)"
  shows "mp_inv (fst (snd (setup_body c m w))) (snd (snd (setup_body c m w)))"
proof (cases "mpID m = ''''")
  case True
  then show ?thesis using assms
    unfolding setup_body_def vol_Mount_def vol_Unmount_def safepath_Join_def genRandomID_def
    by (auto simp: mp_inv_def vol_balanced_def Let_def)
next
  case False
  then show ?thesis using assms
    unfolding setup_body_def vol_Mount_def vol_Unmount_def safepath_Join_def
    by (auto simp: mp_inv_def vol_balanced_def Let_def)
qed

lemma closeSafePaths_keeps [simp]:
  "vw_mounts (closeSafePaths ps w) = vw_mounts w"
  "vw_nextRandom (closeSafePaths ps w) = vw_nextRandom w"
  "vw_faults (closeSafePaths ps w) = vw_faults w"
  by (induction ps arbitrary: w) (simp_all add: closeSafePaths_def safepath_Close_def)

lemma mp_inv_cong:
  "vw_mounts w' = vw_mounts w \<Longrightarrow> vw_nextRandom w' = vw_nextRandom w \<Longrightarrow> mp_inv m w' = mp_inv m w"
  by (simp add: mp_inv_def vol_balanced_def split: option.split)

lemma closeSafePaths_inv [simp]: "mp_inv m (closeSafePaths ps w) = mp_inv m w"
  by (rule mp_inv_cong) simp_all

lemma Setup_inv:
  assumes "mp_inv m w" "\<not> (VJoin \<in> vw_faults w \<and> VUnmount \<in> vw_faults w)"
  shows "mp_inv (fst (snd (MountPoint_Setup c m w))) (snd (snd (MountPoint_Setup c m w)))"
proof -
  have "mp_inv (fst (snd (setup_body c m w))) (snd (snd (setup_body c m w)))"
    using assms setup_body_none_inv setup_body_some_inv by (cases "mpVolume m") auto
  then show ?thesis using assms(1)
    unfolding MountPoint_Setup_def by (auto split: prod.splits sum.splits)
qed

lemma Cleanup_inv:
  assumes "mp_inv m w"
  shows "mp_inv (fst (snd (MountPoint_Cleanup m w))) (snd (snd (MountPoint_Cleanup m w)))"
proof (cases "mpVolume m")
  case None
  then show ?thesis using assms by (simp add: MountPoint_Cleanup_def)
next
  case (Some v)
  show ?thesis using assms Some
    unfolding MountPoint_Cleanup_def vol_Unmount_def
    by (auto simp: mp_inv_def vol_balanced_def Let_def nat_diff_distrib')
qed

lemma LiveRestore_inv:
  assumes "mp_inv m w"
  shows "mp_inv (fst (snd (MountPoint_LiveRestore m w))) (snd (snd (MountPoint_LiveRestore m w)))"
  using assms unfolding MountPoint_LiveRestore_def vol_LiveRestore_def genRandomID_def
  by (auto simp: mp_inv_def vol_balanced_def Let_def split: option.splits)

lemma mp_step_inv:
  assumes "mp_inv (fst s) (snd s)" "setup_safe op"
  shows "mp_inv (fst (mp_step c op s)) (snd (mp_step c op s))"
  using assms Setup_inv [of "fst s" "(snd s)\<lparr>vw_faults := _\<rparr>" c]
    Cleanup_inv [of "fst s" "(snd s)\<lparr>vw_faults := _\<rparr>"] LiveRestore_inv [of "fst s" "(snd s)\<lparr>vw_faults := _\<rparr>"]
  by (auto simp: mp_step_def setup_safe_def split: mp_op.split)

text \<open>
  C31. Invariant: over every sequence of \<open>Setup\<close>, \<open>Cleanup\<close> and \<open>LiveRestore\<close>,
  error branches included, \<open>active\<close> never goes negative, a mount point without ID
  has no active mount, and the driver holds the volume mounted under the mount point's
  ID exactly \<open>active\<close> times; the only exception is a \<open>Setup\<close> whose
  \<open>safepath.Join\<close> and the unmount after it both fail.
\<close>

lemma mp_run_inv:
  assumes "mp_inv m w" "\<forall>op \<in> set ops. setup_safe op"
  shows "mp_inv (fst (mp_run c ops (m, w))) (snd (mp_run c ops (m, w)))"
  using assms
proof (induction ops arbitrary: m w)
  case Nil
  then show ?case by (simp add: mp_run_def)
next
  case (Cons op ops)
  obtain m1 w1 where s1: "mp_step c op (m, w) = (m1, w1)" by fastforce
  have "mp_inv m1 w1" using mp_step_inv [of "(m, w)" op c] Cons.prems s1 by simp
  then show ?case using Cons.IH [of m1 w1] Cons.prems s1 by (simp add: mp_run_def)
qed

lemma mp_run_inv_witness:
  "mp_inv mp0 vw0
   \<and> mp_inv (fst (mp_run None [OpSetup {}, OpSetup {}, OpCleanup {VUnmount}, OpLiveRestore {}] (mp0, vw0)))
              (snd (mp_run None [OpSetup {}, OpSetup {}, OpCleanup {VUnmount}, OpLiveRestore {}] (mp0, vw0)))"
  using mp_run_inv [of mp0 vw0 "[OpSetup {}, OpSetup {}, OpCleanup {VUnmount}, OpLiveRestore {}]" None]
  by (simp add: mp_inv_def vol_balanced_def mp0_def vw0_def setup_safe_def)

lemma Setup_volume_ok:
  assumes "mpVolume m = Some v" "\<not> SkipMountpointCreation m" "MountPoint_Setup c m w = (Inr r, m1, w1)"
  shows "active m1 = active m + 1 \<and> mpVolume m1 = Some v
         \<and> mpID m1 = (if mpID m = '''' then stringid (vw_nextRandom w) else mpID m)
         \<and> vw_mounts w1 = (vw_mounts w)((v, mpID m1) := vw_mounts w (v, mpID m1) + 1)
         \<and> vw_faults w1 = vw_faults w"
  using assms
  unfolding MountPoint_Setup_def setup_body_def vol_Mount_def safepath_Join_def genRandomID_def run_cleanup_def
  by (auto simp: Let_def split: if_splits prod.splits sum.splits)

lemma Cleanup_ok:
  assumes "mpVolume m = Some v" "mpID m \<noteq> ''''" "0 < active m" "VUnmount \<notin> vw_faults w"
  shows "MountPoint_Cleanup m w = (Inr (), m\<lparr>active := active m - 1, mpID := (if active m = 1 then '''' else mpID m)\<rparr>,
            (closeSafePaths (safePaths m) w)\<lparr>vw_mounts := (vw_mounts w)((v, mpID m) := vw_mounts w (v, mpID m) - 1)\<rparr>)"
  using assms unfolding MountPoint_Cleanup_def vol_Unmount_def by (simp add: Let_def)

text \<open>
  C32. Round trip: a successful \<open>Setup\<close> of a volume followed by \<open>Cleanup\<close>
  restores the active count and the driver's mount counts, and a mount point that had
  no ID before has none after.
\<close>

lemma Setup_Cleanup_roundtrip:
  assumes "mp_inv m w" "mpVolume m = Some v" "\<not> SkipMountpointCreation m"
    and "MountPoint_Setup c m w = (Inr r, m1, w1)" "VUnmount \<notin> vw_faults w"
  shows "fst (MountPoint_Cleanup m1 w1) = Inr ()
         \<and> active (fst (snd (MountPoint_Cleanup m1 w1))) = active m
         \<and> vw_mounts (snd (snd (MountPoint_Cleanup m1 w1))) = vw_mounts w
         \<and> (mpID m = '''' \<longrightarrow> mpID (fst (snd (MountPoint_Cleanup m1 w1))) = '''')"
proof -
  note s = Setup_volume_ok [OF assms(2-4)]
  have inv: "0 \<le> active m" "mpID m = '''' \<Longrightarrow> active m = 0" using assms(1) by (simp_all add: mp_inv_def)
  have id1: "mpID m1 \<noteq> ''''" using s by auto
  have "MountPoint_Cleanup m1 w1 = (Inr (), m1\<lparr>active := active m1 - 1, mpID := (if active m1 = 1 then '''' else mpID m1)\<rparr>,
            (closeSafePaths (safePaths m1) w1)\<lparr>vw_mounts := (vw_mounts w1)((v, mpID m1) := vw_mounts w1 (v, mpID m1) - 1)\<rparr>)"
    using Cleanup_ok [of m1 v w1] s id1 inv assms(5) by simp
  then show ?thesis using s inv by auto
qed

lemma Setup_Cleanup_roundtrip_witness:
  "fst (MountPoint_Cleanup (fst (snd (MountPoint_Setup None mp0 vw0))) (snd (snd (MountPoint_Setup None mp0 vw0)))) = Inr ()
   \<and> active (fst (snd (MountPoint_Cleanup (fst (snd (MountPoint_Setup None mp0 vw0))) (snd (snd (MountPoint_Setup None mp0 vw0)))))) = 0
   \<and> mpID (fst (snd (MountPoint_Cleanup (fst (snd (MountPoint_Setup None mp0 vw0))) (snd (snd (MountPoint_Setup None mp0 vw0)))))) = ''''"
proof -
  have "MountPoint_Setup None mp0 vw0 = (Inr (''/var/lib/docker/volumes/vol/_data'', NoCleanup),
          fst (snd (MountPoint_Setup None mp0 vw0)), snd (snd (MountPoint_Setup None mp0 vw0)))"
    by (simp add: MountPoint_Setup_def setup_body_def vol_Mount_def genRandomID_def mp0_def vw0_def RelabelNeeded_def)
  moreover have "mp_inv mp0 vw0" by (simp add: mp_inv_def vol_balanced_def mp0_def vw0_def)
  ultimately show ?thesis
    using Setup_Cleanup_roundtrip [of mp0 vw0 "''vol''" None "(''/var/lib/docker/volumes/vol/_data'', NoCleanup)"]
    by (simp add: mp0_def vw0_def)
qed

text \<open>
  C33. Errors: on a fresh mount point, a \<open>Setup\<close> whose subpath cannot be joined
  fails after recording the new ID with a zero count; the next \<open>Cleanup\<close> then
  takes the ``decrement a zero mount count'' branch (the TODO of line 109) and does
  nothing.
\<close>

lemma Setup_join_fail_zero_count:
  assumes "mpVolume m = Some v" "\<not> SkipMountpointCreation m" "mpID m = ''''" "active m = 0"
    and "volSubpath m \<noteq> ''''" "VMount \<notin> vw_faults w" "VJoin \<in> vw_faults w" "VUnmount \<notin> vw_faults w"
  shows "\<exists>e m1 w1. MountPoint_Setup c m w = (Inl e, m1, w1) \<and> mpID m1 \<noteq> '''' \<and> active m1 = 0
           \<and> vw_mounts w1 = vw_mounts w \<and> MountPoint_Cleanup m1 w1 = (Inr (), m1, w1)"
  using assms
  unfolding MountPoint_Setup_def setup_body_def vol_Mount_def vol_Unmount_def safepath_Join_def genRandomID_def MountPoint_Cleanup_def
  by (simp add: Let_def)

lemma Setup_join_fail_zero_count_witness:
  "\<exists>e m1 w1. MountPoint_Setup None (mp0\<lparr>volSubpath := ''sub''\<rparr>) (vw0\<lparr>vw_faults := {VJoin}\<rparr>) = (Inl e, m1, w1)
     \<and> mpID m1 \<noteq> '''' \<and> active m1 = 0 \<and> vw_mounts w1 = vw_mounts (vw0\<lparr>vw_faults := {VJoin}\<rparr>)
     \<and> MountPoint_Cleanup m1 w1 = (Inr (), m1, w1)"
  using Setup_join_fail_zero_count [of "mp0\<lparr>volSubpath := ''sub''\<rparr>" "''vol''" "vw0\<lparr>vw_faults := {VJoin}\<rparr>" None]
  by (simp add: mp0_def)

text \<open>
  C34. Errors: when relabelling fails after the volume was mounted, \<open>Setup\<close>
  returns an error yet the volume stays mounted and counted in \<open>active\<close>.
\<close>

lemma Setup_relabel_fail_keeps_mount:
  assumes "mpVolume m = Some v" "\<not> SkipMountpointCreation m" "volSubpath m = ''''" "RelabelNeeded (mpMode m)"
    and "VMount \<notin> vw_faults w" "VEvalSymlinks \<in> vw_faults w"
  shows "\<exists>e m1 w1. MountPoint_Setup c m w = (Inl e, m1, w1) \<and> active m1 = active m + 1
           \<and> vw_mounts w1 (v, mpID m1) = vw_mounts w (v, mpID m1) + 1"
  using assms
  unfolding MountPoint_Setup_def setup_body_def vol_Mount_def genRandomID_def run_cleanup_def
  by (simp add: Let_def)

lemma Setup_relabel_fail_keeps_mount_witness:
  "\<exists>e m1 w1. MountPoint_Setup None mp0 (vw0\<lparr>vw_faults := {VEvalSymlinks}\<rparr>) = (Inl e, m1, w1) \<and> active m1 = 1
     \<and> vw_mounts w1 (''vol'', mpID m1) = 1"
  using Setup_relabel_fail_keeps_mount [of mp0 "''vol''" "vw0\<lparr>vw_faults := {VEvalSymlinks}\<rparr>" None]
  by (simp add: mp0_def vw0_def RelabelNeeded_def)

text \<open>
  C35. Function: for a bind mount, \<open>Setup\<close> leaves the mount point as it is and
  returns the source with no cleanup exactly when \<open>checkFun\<close> accepts and the
  source exists (as a directory, or as a file: the \<open>ENOTDIR\<close> case) or can be
  created; on success the source exists on the host.
\<close>

lemma Setup_bind:
  assumes "mpVolume m = None" "mpType m = TypeBind" "mpSource m \<noteq> ''''"
    and "\<not> SkipMountpointCreation m" "\<not> RelabelNeeded (mpMode m)"
    and "MountPoint_Setup c m w = (res, m1, w1)"
  shows "m1 = m
         \<and> (res = Inr (mpSource m, NoCleanup) \<longleftrightarrow>
              (case c of None \<Rightarrow> True | Some f \<Rightarrow> f m = None)
              \<and> (mpSource m \<in> vw_dirs w \<union> vw_files w \<or> VMkdir \<notin> vw_faults w))
         \<and> (\<forall>p. res = Inr p \<longrightarrow> mpSource m \<in> vw_dirs w1 \<union> vw_files w1)"
  using assms unfolding MountPoint_Setup_def setup_body_def
  by (auto split: option.splits if_splits)

lemma Setup_bind_witness:
  "fst (MountPoint_Setup None (mp0\<lparr>mpVolume := None, mpType := TypeBind, mpSource := ''/srv'', mpMode := ''rw''\<rparr>)
          (vw0\<lparr>vw_files := {''/srv''}, vw_faults := {VMkdir}\<rparr>)) = Inr (''/srv'', NoCleanup)"
  using Setup_bind [of "mp0\<lparr>mpVolume := None, mpType := TypeBind, mpSource := ''/srv'', mpMode := ''rw''\<rparr>"
      None "vw0\<lparr>vw_files := {''/srv''}, vw_faults := {VMkdir}\<rparr>"
      "fst (MountPoint_Setup None (mp0\<lparr>mpVolume := None, mpType := TypeBind, mpSource := ''/srv'', mpMode := ''rw''\<rparr>)
          (vw0\<lparr>vw_files := {''/srv''}, vw_faults := {VMkdir}\<rparr>))"
      "fst (snd (MountPoint_Setup None (mp0\<lparr>mpVolume := None, mpType := TypeBind, mpSource := ''/srv'', mpMode := ''rw''\<rparr>)
          (vw0\<lparr>vw_files := {''/srv''}, vw_faults := {VMkdir}\<rparr>)))"
      "snd (snd (MountPoint_Setup None (mp0\<lparr>mpVolume := None, mpType := TypeBind, mpSource := ''/srv'', mpMode := ''rw''\<rparr>)
          (vw0\<lparr>vw_files := {''/srv''}, vw_faults := {VMkdir}\<rparr>)))"]
  by (simp add: RelabelNeeded_def mp0_def)

end
