(* ===== verification/RegistryErrors.thy ===== *)
theory RegistryErrors
  imports Prelude
begin

text \<open>
  The error handling of image pulls (package \<open>distribution\<close>, staged as the second
  part of \<open>src/daemon/logger/gcplogs/gcplogging.go\<close>, lines 240--474): the error
  types of the package, \<open>translatePullError\<close> (the error a pull reports),
  \<open>continueOnError\<close> (whether to fall back to the next endpoint) and
  \<open>retryOnError\<close> (whether a failed transfer is retried). Go's dynamic error values
  are one datatype \<open>gerr\<close>: a constructor per error type the functions switch on,
  those of other packages (\<open>context\<close>, \<open>errcode\<close>, \<open>xfer\<close>, \<open>url\<close>,
  \<open>client\<close>, \<open>auth\<close>, \<open>errdefs\<close>) modelled from their documented behaviour.
\<close>

section \<open>Error values\<close>

text \<open>The registry's error codes the functions test, and any other code by its name.\<close>

datatype errcode =
    ErrorCodeDenied | ErrorCodeUnauthorized | ErrorCodeUnsupported | ErrorCodeTooManyRequests
  | ErrorCodeManifestUnknown | ErrorCodeNameUnknown | ErrorCodeOther string

text \<open>A \<open>reference.Named\<close> by the three renderings the package uses.\<close>

record named_ref =
  FamiliarName :: string
  FamiliarString :: string
  ref_String :: string

text \<open>
  \<open>Errors\<close> is \<open>errcode.Errors\<close> (a slice), \<open>ECError\<close> an \<open>errcode.Error\<close> (code
  and message), \<open>DoNotRetry\<close> the \<open>xfer\<close> wrapper, \<open>URLError\<close> a \<open>*url.Error\<close>
  (operation, URL, cause), \<open>Unknown\<close> the wrapper of \<open>errdefs.Unknown\<close>, \<open>Plain\<close>
  any other error by its message. The remaining constructors are the error types
  declared in the package.
\<close>

datatype gerr =
    Canceled | DeadlineExceeded
  | Errors "gerr list"
  | ECError errcode string
  | DoNotRetry gerr
  | URLError string string gerr
  | UnexpectedHTTPResponse string
  | ErrBlobUnknown | NoBasicAuthCredentials | NoToken
  | Unknown gerr
  | Plain string
  | ImageConfigPullError gerr
  | FallbackError gerr bool
  | NotFoundError errcode string named_ref
  | UnsupportedMediaType string
  | AIModelNotSupported
  | InvalidManifestClass string string
  | InvalidManifestFormat
  | ReservedName string
  | InvalidArgument gerr

section \<open>Rendering and inspecting errors\<close>

text \<open>\<open>strings.Contains\<close>.\<close>

fun starts_with :: "string \<Rightarrow> string \<Rightarrow> bool" where
  "starts_with s [] = True"
| "starts_with [] (c # cs) = False"
| "starts_with (d # ds) (c # cs) = (d = c \<and> starts_with ds cs)"

fun contains :: "string \<Rightarrow> string \<Rightarrow> bool" where
  "contains [] sub = (sub = [])"
| "contains (c # cs) sub = (starts_with (c # cs) sub \<or> contains cs sub)"

text \<open>\<open>errcode.ErrorCode.Error\<close>: the code's lower-case identifier.\<close>

fun errcode_string :: "errcode \<Rightarrow> string" where
  "errcode_string ErrorCodeDenied = ''denied''"
| "errcode_string ErrorCodeUnauthorized = ''unauthorized''"
| "errcode_string ErrorCodeUnsupported = ''unsupported''"
| "errcode_string ErrorCodeTooManyRequests = ''toomanyrequests''"
| "errcode_string ErrorCodeManifestUnknown = ''manifest_unknown''"
| "errcode_string ErrorCodeNameUnknown = ''name_unknown''"
| "errcode_string (ErrorCodeOther s) = s"

definition ecerror_string :: "errcode \<Rightarrow> string \<Rightarrow> string" where
  "ecerror_string c m = errcode_string c @ '': '' @ m"

text \<open>\<open>notFoundError.Error\<close>: \<open>errors.Wrapf\<close> of the cause by the code.\<close>

definition notFoundError_Error :: "errcode \<Rightarrow> string \<Rightarrow> named_ref \<Rightarrow> string" where
  "notFoundError_Error c m r =
     (case c of
        ErrorCodeDenied \<Rightarrow> ''pull access denied for '' @ FamiliarName r
          @ '', repository does not exist or may require 'docker login': '' @ ecerror_string c m
      | ErrorCodeManifestUnknown \<Rightarrow> ''manifest for '' @ FamiliarString r @ '' not found: '' @ ecerror_string c m
      | ErrorCodeNameUnknown \<Rightarrow> ''repository '' @ FamiliarName r @ '' not found: '' @ ecerror_string c m
      | _ \<Rightarrow> m)"

text \<open>\<open>err.Error()\<close> of every error value.\<close>

fun err_string :: "gerr \<Rightarrow> string" where
  "err_string Canceled = ''context canceled''"
| "err_string DeadlineExceeded = ''context deadline exceeded''"
| "err_string (Errors []) = ''<nil>''"
| "err_string (Errors [e]) = err_string e"
| "err_string (Errors (e1 # e2 # es)) =
     ''errors:'' @ [CHR 0x0A] @ concat (map (\<lambda>e. err_string e @ [CHR 0x0A]) (e1 # e2 # es))"
| "err_string (ECError c m) = ecerror_string c m"
| "err_string (DoNotRetry e) = err_string e"
| "err_string (URLError op u e) = op @ '' \"'' @ u @ ''\": '' @ err_string e"
| "err_string (UnexpectedHTTPResponse s) = s"
| "err_string ErrBlobUnknown = ''unknown blob''"
| "err_string NoBasicAuthCredentials = ''no basic auth credentials''"
| "err_string NoToken = ''authorization server did not include a token in the response''"
| "err_string (Unknown e) = err_string e"
| "err_string (Plain s) = s"
| "err_string (ImageConfigPullError e) = ''error pulling image configuration: '' @ err_string e"
| "err_string (FallbackError e _) = err_string e"
| "err_string (NotFoundError c m r) = notFoundError_Error c m r"
| "err_string (UnsupportedMediaType t) = ''unsupported media type '' @ t"
| "err_string AIModelNotSupported =
     ''AI models are not yet supported by the Engine, please use \"docker model pull/run\" instead''"
| "err_string (InvalidManifestClass mt cl) = ''Encountered remote \"'' @ mt @ ''\"('' @ cl @ '') when fetching''"
| "err_string InvalidManifestFormat = ''unsupported manifest format''"
| "err_string (ReservedName s) = [CHR 0x27] @ s @ [CHR 0x27] @ '' is a reserved name''"
| "err_string (InvalidArgument e) = err_string e"

text \<open>
  \<open>errors.Is(err, target)\<close>: the error or one it unwraps to is the target. The
  wrappers with an \<open>Unwrap\<close> method are \<open>fallbackError\<close>, \<open>notFoundError\<close> (to its
  cause), \<open>*url.Error\<close> and \<open>errdefs.Unknown\<close>.
\<close>

fun errors_Is :: "gerr \<Rightarrow> gerr \<Rightarrow> bool" where
  "errors_Is t (FallbackError e b) = (FallbackError e b = t \<or> errors_Is t e)"
| "errors_Is t (NotFoundError c m r) = (NotFoundError c m r = t \<or> ECError c m = t)"
| "errors_Is t (URLError op u e) = (URLError op u e = t \<or> errors_Is t e)"
| "errors_Is t (Unknown e) = (Unknown e = t \<or> errors_Is t e)"
| "errors_Is t e = (e = t)"

definition is_ctx_err :: "gerr \<Rightarrow> bool" where
  "is_ctx_err e \<longleftrightarrow> errors_Is Canceled e \<or> errors_Is DeadlineExceeded e"

text \<open>The \<open>errdefs\<close> class of an error: the marker method its type declares.\<close>

datatype errdefs_class = ClassNotFound | ClassInvalidParameter | ClassForbidden | ClassUnknown | ClassNone

fun err_class :: "gerr \<Rightarrow> errdefs_class" where
  "err_class (NotFoundError _ _ _) = ClassNotFound"
| "err_class (UnsupportedMediaType _) = ClassInvalidParameter"
| "err_class AIModelNotSupported = ClassInvalidParameter"
| "err_class (InvalidManifestClass _ _) = ClassInvalidParameter"
| "err_class InvalidManifestFormat = ClassInvalidParameter"
| "err_class (InvalidArgument _) = ClassInvalidParameter"
| "err_class (ReservedName _) = ClassForbidden"
| "err_class (Unknown _) = ClassUnknown"
| "err_class _ = ClassNone"

section \<open>The classification functions\<close>

text \<open>
  The three functions switch on the dynamic type of the error; each equation below is
  one \<open>case\<close> of the switch, the last one the fall-through after the switch. The
  test for a context error that precedes the switch is repeated in each equation.
\<close>

fun translatePullError :: "gerr \<Rightarrow> named_ref \<Rightarrow> gerr" where
  "translatePullError (Errors (x # xs)) r =
     (if is_ctx_err (Errors (x # xs)) then Errors (x # xs) else translatePullError x r)"
| "translatePullError (ECError c m) r =
     (if is_ctx_err (ECError c m) then ECError c m
      else if c \<in> {ErrorCodeDenied, ErrorCodeManifestUnknown, ErrorCodeNameUnknown}
      then NotFoundError c m r else Unknown (ECError c m))"
| "translatePullError (DoNotRetry x) r =
     (if is_ctx_err (DoNotRetry x) then DoNotRetry x else translatePullError x r)"
| "translatePullError e r = (if is_ctx_err e then e else Unknown e)"

definition ESRCH_msg :: string where "ESRCH_msg = ''no such process''"

definition ENOSPC_msg :: string where "ENOSPC_msg = ''no space left on device''"

fun continueOnError :: "gerr \<Rightarrow> bool \<Rightarrow> bool" where
  "continueOnError (Errors []) mirror = (\<not> is_ctx_err (Errors []))"
| "continueOnError (Errors (x # xs)) mirror =
     (if is_ctx_err (Errors (x # xs)) then False else continueOnError x mirror)"
| "continueOnError (ECError c m) mirror = (if is_ctx_err (ECError c m) then False else mirror)"
| "continueOnError (UnexpectedHTTPResponse s) mirror = (\<not> is_ctx_err (UnexpectedHTTPResponse s))"
| "continueOnError (ImageConfigPullError x) mirror =
     (if is_ctx_err (ImageConfigPullError x) then False else mirror)"
| "continueOnError (UnsupportedMediaType t) mirror = False"
| "continueOnError e mirror = (if is_ctx_err e then False else \<not> contains (err_string e) ESRCH_msg)"

fun retryOnError :: "gerr \<Rightarrow> gerr" where
  "retryOnError (Errors []) = Errors []"
| "retryOnError (Errors (x # xs)) = retryOnError x"
| "retryOnError (ECError c m) =
     (if c \<in> {ErrorCodeUnauthorized, ErrorCodeUnsupported, ErrorCodeDenied,
              ErrorCodeTooManyRequests, ErrorCodeNameUnknown}
      then DoNotRetry (ECError c m) else ECError c m)"
| "retryOnError (URLError op u x) =
     (if errors_Is NoBasicAuthCredentials x \<or> errors_Is NoToken x then DoNotRetry x
      else retryOnError x)"
| "retryOnError (UnexpectedHTTPResponse s) = DoNotRetry (UnexpectedHTTPResponse s)"
| "retryOnError (UnsupportedMediaType t) = DoNotRetry (UnsupportedMediaType t)"
| "retryOnError e =
     (if errors_Is ErrBlobUnknown e then DoNotRetry e
      else if contains (err_string e) ENOSPC_msg then DoNotRetry e
      else e)"

definition DeprecatedSchema1ImageError :: "named_ref option \<Rightarrow> gerr" where
  "DeprecatedSchema1ImageError r =
     InvalidArgument (Plain
       (''Docker Image Format v1 and Docker Image manifest version 2, schema 1 support has been removed.''
        @ (case r of None \<Rightarrow> ''''
           | Some n \<Rightarrow> '' Suggest the author of '' @ ref_String n
               @ '' to upgrade the image to the OCI Format or Docker Image manifest v2, schema 2.'')
        @ '' More information at https://docs.docker.com/go/deprecated-image-specs/''))"

section \<open>Paths through the functions\<close>

text \<open>
  An error whose chain of first errors (the head of each \<open>errcode.Errors\<close>) holds no
  \<open>*url.Error\<close>: the errors on which \<open>retryOnError\<close> and
  \<open>translatePullError\<close> descend the same way.
\<close>

fun url_free :: "gerr \<Rightarrow> bool" where
  "url_free (URLError _ _ _) = False"
| "url_free (Errors (x # xs)) = url_free x"
| "url_free _ = True"

definition demo_ref :: named_ref where
  "demo_ref = \<lparr>FamiliarName = ''alpine'', FamiliarString = ''alpine:latest'',
               ref_String = ''docker.io/library/alpine:latest''\<rparr>"

section \<open>Lemmas\<close>

lemma is_ctx_err_simps [simp]:
  "is_ctx_err Canceled" "is_ctx_err DeadlineExceeded"
  "\<not> is_ctx_err (Errors l)" "\<not> is_ctx_err (ECError c m)" "\<not> is_ctx_err (DoNotRetry x)"
  "is_ctx_err (Unknown x) = is_ctx_err x" "is_ctx_err (FallbackError x b) = is_ctx_err x"
  "is_ctx_err (URLError op u x) = is_ctx_err x" "\<not> is_ctx_err (NotFoundError c m r)"
  "\<not> is_ctx_err (Plain s)"
  by (auto simp: is_ctx_err_def)

text \<open>
  C36. Type: \<open>translatePullError\<close> always reports a context error (cancellation or
  deadline, passed through), a \<open>notFoundError\<close> for one of the codes \<open>DENIED\<close>,
  \<open>MANIFEST_UNKNOWN\<close>, \<open>NAME_UNKNOWN\<close>, or an \<open>errdefs.Unknown\<close>.
\<close>

lemma translatePullError_class:
  "is_ctx_err (translatePullError e r)
   \<or> (\<exists>c m. c \<in> {ErrorCodeDenied, ErrorCodeManifestUnknown, ErrorCodeNameUnknown}
            \<and> translatePullError e r = NotFoundError c m r)
   \<or> (\<exists>x. translatePullError e r = Unknown x)"
  by (induction e r rule: translatePullError.induct) auto

text \<open>
  C37. Function: a mirror endpoint falls back to the next endpoint whenever the
  canonical endpoint would, and on a registry error (\<open>errcode.Error\<close>) exactly when
  it is a mirror.
\<close>

lemma continueOnError_mirror:
  "(continueOnError e False \<longrightarrow> continueOnError e True) \<and> continueOnError (ECError c m) b = b"
proof -
  have "continueOnError e False \<Longrightarrow> continueOnError e True"
    by (induction e "False" rule: continueOnError.induct) auto
  then show ?thesis by simp
qed

lemma continueOnError_mirror_witness: "continueOnError (Plain ''connection refused'') True"
  by (rule continueOnError_mirror [THEN conjunct1, THEN mp]) (simp add: ESRCH_msg_def)


text \<open>
  C39. Equivalence: on errors without a \<open>*url.Error\<close> on their chain of first errors,
  marking an error with \<open>retryOnError\<close> does not change the error
  \<open>translatePullError\<close> reports for it.
\<close>

lemma translatePullError_retryOnError:
  "url_free e \<Longrightarrow> translatePullError (retryOnError e) r = translatePullError e r"
  by (induction e rule: retryOnError.induct) auto

lemma translatePullError_retryOnError_witness:
  "translatePullError (retryOnError (Errors [ECError ErrorCodeDenied ''requested access to the resource is denied'']))
     demo_ref
   = translatePullError (Errors [ECError ErrorCodeDenied ''requested access to the resource is denied'']) demo_ref"
  by (rule translatePullError_retryOnError) simp


end
