(* ===== verification/Spec2Isabelle.thy ===== *)
theory Spec2Isabelle
  imports Restore IptablesProps BridgeIPv4 PluginClient VolumeMount RegistryErrors
begin

text \<open>
  \<^bold>\<open>A verification library for the moby layer store, the iptables package, the
  bridge driver's IPv4 set-up, the plugin HTTP client, the volume mount point and the
  classification of registry pull errors.\<close>

  \<^bold>\<open>The program.\<close> The layer store (package \<open>layer\<close>, staged in the sources as the
  third part of \<open>src/daemon/logger/gcplogs/gcplogging.go\<close>, lines 475--1242) keeps a
  forest of immutable, content-addressed read-only layers (\<open>roLayer\<close>, indexed by chain
  ID in \<open>layerMap\<close>) and a set of named read-write layers (\<open>mountedLayer\<close>, indexed by
  name in \<open>mounts\<close>). Each read-only layer carries a reference count that covers its
  callers' handles, its child layers and the mounts built on it; releasing the last
  holder deletes the layer and cascades to its parent. Counts are not persisted: a
  restart rebuilds them from the parent links on disk. The store calls two collaborators
  whose code is not in the sources: a graph driver (copy-on-write backing stores keyed by
  cache ID) and a metadata store on disk (one directory per chain ID and per mount).

  The iptables package (\<open>src/daemon/libnetwork/drivers/bridge/setup_ipv4_linux.go\<close>,
  lines 92--603) programs rules by running the \<open>iptables\<close> binary, or firewalld's
  direct passthrough when firewalld runs; the bridge driver's IPv4 set-up (same file,
  lines 16--91) assigns the configured network to the bridge link through netlink,
  checks the default gateway and enables \<open>route_localnet\<close> under \<open>/proc\<close>.

  The plugin client (\<open>src/pkg/plugins/client.go\<close>) sends each call to a plugin
  over HTTP and retries refused connections with a doubling back-off until a 30-second
  deadline. The mount point of a container (\<open>src/daemon/volume/mounts/mounts.go\<close>)
  mounts its volume in \<open>Setup\<close>, counting the mounts in \<open>active\<close> under a mount
  ID, and unmounts one in \<open>Cleanup\<close>; \<open>LiveRestore\<close> re-counts a mount that
  survived a daemon restart. The pull code of package \<open>distribution\<close> (staged as
  gcplogging.go 240--474) classifies registry errors: \<open>translatePullError\<close> turns
  them into the error the pull reports, \<open>continueOnError\<close> decides whether to try
  the next endpoint, \<open>retryOnError\<close> whether to retry a transfer.

  \<^bold>\<open>The theories.\<close>
  \<^item> \<open>Prelude\<close>: identifier types, the generated-ID stream (\<open>stringid\<close>), the
    \<open>count_where\<close> counting of map entries and its lemmas.
  \<^item> \<open>GraphDriver\<close>: the driver and the metadata store as explicit states, modelled from
    the interface of the specification (section 6); each operation fails exactly when a
    matching fault is injected, so every error branch of the store has a concrete run.
    The layer package's error values, with \<open>EPanic\<close> for Go's \<open>panic\<close>.
  \<^item> \<open>Layers\<close>: the records \<open>roLayer\<close>, \<open>mountedLayer\<close>, \<open>layerStore\<close>,
    \<open>metadata\<close>; handles as serial numbers; \<open>depth\<close> and \<open>Size\<close> (methods of
    \<open>roLayer\<close> that walk the parent chain) as \<^theory_text>\<open>partial_function (option)\<close>,
    \<open>None\<close> being a walk that never ends; the invariant \<open>wf_store\<close> and the lemmas
    that preserve it.
  \<^item> \<open>LayerStore\<close>: \<open>get\<close>, \<open>Get\<close>, \<open>Map\<close>, \<open>deleteLayer\<close>, \<open>releaseLayer\<close>
    (the \<open>for {}\<close> loop as a partial function), \<open>Release\<close>, \<open>applyTar\<close>,
    \<open>registerWithDescriptor\<close> (body \<open>register_body\<close>, deferred clean-ups
    \<open>register_cleanup\<close> and \<open>release_parent_on_error\<close>), \<open>Register\<close>
    (gcplogging.go 692--938).
  \<^item> \<open>RWLayers\<close>: \<open>CreateRWLayer\<close> (with \<open>createRW_body\<close>, \<open>createRW_finish\<close>),
    \<open>initMount\<close>, \<open>saveMount\<close>, \<open>GetRWLayer\<close>, \<open>GetMountID\<close>,
    \<open>ReleaseRWLayer\<close> (gcplogging.go 940--1149).
  \<^item> \<open>Restore\<close>: \<open>newStoreFromGraphDriver\<close> with its two loops \<open>load_layers\<close>
    and \<open>load_mounts\<close>, \<open>loadLayer\<close> (a partial function), \<open>loadMount\<close>,
    \<open>Cleanup\<close> (gcplogging.go 550--690, 1191--1212).
  \<^item> \<open>Iptables\<close>: the kernel tables and the two binaries and firewalld as the state
    \<open>xtables\<close> (rules per IP version, table and chain, each rule its argument vector);
    the binary as an interpreter \<open>xt_parse\<close>/\<open>xt_run\<close>/\<open>xt_cmd\<close> of the commands
    the package issues, modelled from iptables' documented behaviour since it is not in
    the sources; then every function of the package, one definition each, in the code's
    order: \<open>initCheck\<close> and its initialisation, \<open>GetIptable\<close>, \<open>NewChain\<close>,
    \<open>RemoveExistingChain\<close>, \<open>Link\<close>, \<open>ProgramRule\<close>, \<open>Prerouting\<close>,
    \<open>Output\<close>, \<open>Remove\<close>, \<open>exists\<close>, \<open>filterOutput\<close>, \<open>Raw\<close>, \<open>raw\<close>,
    \<open>RawCombinedOutput\<close>, the chain helpers and the methods of \<open>Rule\<close>. Results are
    \<open>(ipt_err + 'a) \<times> xtables\<close>, \<open>Panic\<close> standing for Go's \<open>panic\<close>.
  \<^item> \<open>IptablesProps\<close>: the exported operations as a datatype \<open>ipt_op\<close> with a step
    function \<open>ipt_step\<close> and sequences \<open>ipt_run\<close>; the invariant that no chain holds a
    rule twice; the single-command lemmas the claims share.
  \<^item> \<open>BridgeIPv4\<close>: \<open>selectIPv4Address\<close>, \<open>setupBridgeIPv4\<close> (with its address
    block \<open>assignIPv4\<close>), \<open>setupGatewayIPv4\<close>, \<open>setupLoopbackAddressesRouting\<close>;
    IPv4 addresses are \<open>32 word\<close>, networks an address and a mask, netlink and
    \<open>/proc\<close> an explicit \<open>kernel\<close> state with injectable failures.
  \<^item> \<open>PluginClient\<close>: \<open>newTransport\<close>, the constructors, \<open>CallWithOptions\<close>,
    \<open>Call\<close>, \<open>Stream\<close>, \<open>SendFile\<close>, \<open>callWithRetry\<close> with its loop
    \<open>retry_loop\<close>, \<open>backoff\<close> (loop \<open>backoff_loop\<close>) and \<open>abort\<close>. Durations and
    the clock are \<open>int\<close> nanoseconds as in Go's \<open>time.Duration\<close>; the plugin is a
    script \<open>nat \<Rightarrow> attempt\<close> giving the outcome and the duration of the n-th request;
    JSON coding is a parameter.
  \<^item> \<open>VolumeMount\<close>: the record \<open>MountPoint\<close> and its methods
    \<open>MountPoint_Setup\<close> (body \<open>setup_body\<close>, deferred relabelling in the wrapper),
    \<open>MountPoint_Cleanup\<close> (loop \<open>closeSafePaths\<close>), \<open>MountPoint_LiveRestore\<close>,
    \<open>MountPoint_Path\<close>; the volume driver (a count of mounts per volume and ID),
    \<open>safepath\<close>, the host directories and the random-ID stream are the state
    \<open>vworld\<close>, each call failing when its fault is in \<open>vw_faults\<close>. Sequences of
    operations are \<open>mp_run\<close> over \<open>mp_op\<close>; the invariant is \<open>mp_inv\<close>.
  \<^item> \<open>RegistryErrors\<close>: Go's error values as the datatype \<open>gerr\<close> (one constructor
    per dynamic type the code switches on), \<open>err_string\<close> for \<open>Error()\<close>,
    \<open>errors_Is\<close> for \<open>errors.Is\<close> along the \<open>Unwrap\<close> chain, \<open>err_class\<close> for
    the \<open>errdefs\<close> marker methods; \<open>translatePullError\<close>, \<open>continueOnError\<close> and
    \<open>retryOnError\<close> as recursive functions, one equation per \<open>case\<close> of the type
    switch.

  \<^bold>\<open>State and effects.\<close> The model's \<open>layerStore\<close> record holds the code's fields
  (\<open>store\<close>, \<open>driver\<close>, \<open>layerMap\<close>, \<open>mounts\<close>) and two model-only counters:
  \<open>nextRef\<close> numbers the handle objects \<open>getReference\<close> allocates, \<open>nextRandom\<close>
  numbers the random IDs \<open>stringid.GenerateRandomID\<close> draws. A Go pointer to a parent
  layer is the parent's chain ID. Every operation returns its outcome (\<open>error + 'a\<close>)
  with the state it leaves, since a Go error does not undo what was done before it;
  an operation that runs a parent walk returns an \<open>option\<close>, \<open>None\<close> being
  non-termination. Each exported operation is one atomic step: the code holds
  \<open>layerL\<close>, \<open>mountL\<close> and the per-name locker over each read-modify-write;
  interleavings of the phases inside \<open>Register\<close> are not modelled.

  \<^bold>\<open>What is proved.\<close> \<open>wf_store\<close> says that every count covers its holders (handles,
  children, mounts), no parent pointer dangles, no chain is cyclic and handles are older
  than the handle counter; \<open>refs_exact\<close> says the counts equal the holders.
  \<^item> Safety: \<open>Release\<close> (C1), \<open>CreateRWLayer\<close> (C3) and \<open>ReleaseRWLayer\<close> (C4)
    always return, never panic and keep \<open>wf_store\<close>, on every error branch. The release
    loop's invariant \<open>releaseLayer_wf\<close> is proved by induction on the chain's depth,
    which is also its termination argument.
  \<^item> Function: the release cascade deletes exactly the doomed chain, child to root (C2);
    \<open>CreateRWLayer\<close> on success publishes the mount and takes one hold (C6);
    \<open>Cleanup\<close> removes every orphan (C11).
  \<^item> Errors: a failed \<open>ReleaseRWLayer\<close> is retryable (C5); \<open>CreateRWLayer\<close> leaks its
    init layer when the writable store cannot be created (C7, a divergence from the spec).
  \<^item> Restart: on consistent metadata the restored store is well formed with exact counts
    (C8, loop invariants \<open>layers_inv\<close> and \<open>mounts_inv\<close>); \<open>loadLayer\<close> terminates on
    finite parent chains (C9) and diverges on a cycle (C10, fixpoint induction).
  \<^item> iptables: with the binary present any sequence of exported operations keeps the
    chains duplicate-free (C12, invariant over \<open>ipt_run\<close>); \<open>Rule\<close>'s methods refine
    insertion into and removal from the chain's set of rules (C13) and equal
    \<open>ProgramRule\<close> (C16); \<open>EnsureJumpRule\<close> leaves one jump at the head (C14);
    \<open>Link\<close> \<open>-A\<close> then \<open>-D\<close> restores the tables (C15); \<open>NewChain\<close> and
    \<open>RemoveExistingChain\<close> create and remove (C18, C19); without binary and firewalld
    nothing changes (C20); the lock warning changes no result (C21); with firewalld and
    no binary, \<open>Append\<close> duplicates rules (C17, a divergence from the code's comment).
  \<^item> Bridge: the gateway check is a numeric range on the 32-bit value (C22, bounds);
    \<open>setupBridgeIPv4\<close> installs the configured network (C23), is idempotent when the
    network is the only one of its addresses on the link (C24) and fails after deleting
    an address when the configured one comes later in the list (C25, a code bug);
    \<open>route_localnet\<close> is enabled, and an empty file panics (C26).
  \<^item> Plugin client: \<open>backoff\<close> is \<open>min(2^r s, 30 s)\<close> (C27); \<open>callWithRetry\<close>
    retries at most 4 times under the default deadline (C28), reaches a plugin that
    comes up within 4 attempts (C29, total: the loop is a \<^theory_text>\<open>function\<close> with a
    measure on the time left) and stops at once on a plugin error (C30).
  \<^item> Mount point: \<open>active\<close> and the driver's mount count stay equal over any
    sequence of operations and failures (C31), \<open>Setup\<close> then \<open>Cleanup\<close> is a round
    trip (C32); a failed subpath join leaves an ID with a zero count, the cause of the
    ``zero mount count'' branch of \<open>Cleanup\<close> (C33, a code bug); a failed relabel
    returns an error with the volume still mounted (C34); a bind mount's source is
    returned and created when missing (C35).
  \<^item> Pull errors: the reported error is a context error, a not-found error of three
    codes or an unknown error (C36); a mirror falls back whenever the canonical endpoint
    would (C37); a retryable verdict is stable (C38); retry marking does not change the
    reported error on errors without \<open>*url.Error\<close> (C39), and a denied error inside
    one is reported differently before and after \<open>retryOnError\<close> (C40).
  Each claim with hypotheses has a witness on the example stores \<open>demo_chain\<close>,
  \<open>demo_mounted\<close>, the example metadata \<open>demo_disk\<close>, \<open>demo_cycle\<close>, the example
  tables \<open>demo_xt\<close>, the bridge \<open>172.17.0.1/16\<close> (\<open>n0\<close>, \<open>cfg0\<close>, \<open>kn0\<close>),
  the plugin script \<open>demo_plugin\<close> and the fresh mount point \<open>mp0\<close> on the idle
  host \<open>vw0\<close>.

  \<^bold>\<open>Bounds and termination.\<close> No fuel is used: the walks are partial functions
  and their termination is proved from the finiteness of the chains (\<open>depth\<close>,
  \<open>disk_depth\<close>); \<open>maxLayerDepth\<close> is the code's constant 125. The retry loop
  of the plugin client terminates because each retry sleeps at least one second and
  stops once the elapsed time plus the next back-off reaches the deadline.

  \<^bold>\<open>Not modelled.\<close> Byte streams (tar-split packing, the export pipe of
  \<open>getTarStream\<close>/\<open>assembleTarTo\<close>, \<open>naiveDiffPathDriver\<close>): the tar-split stream is
  kept whole in the transaction record and the digest is a parameter \<open>H\<close>;
  \<open>NewStoreFromOptions\<close> (driver selection, I/O); logging; the Google Cloud logger and
  the daemon's container set-up (I/O wrappers); the timing and logging of
  \<open>filterOutput\<close> and \<open>raw\<close>; iptables options other than the commands the package
  issues; IPv6 networks in the bridge set-up (\<open>net.IPNet\<close> is modelled for IPv4 only,
  and \<open>filepath.Join\<close> for bridge names without separators); the TLS and socket
  configuration of the plugin transport, the contexts and cancellation of requests,
  the byte stream of \<open>SendFile\<close> (a retry resends a reader already read from); the
  SELinux labels, the ownership of created directories and \<open>filepath.EvalSymlinks\<close>
  (the identity) in \<open>Setup\<close>; the log lines of the pull error functions and the
  renderings of \<open>errcode\<close> values (a code's identifier stands for its message); the tests, the changelog, the shell
  script, the nftables golden file and the code-generation template staged with the
  sources.
\<close>

end
